theory Spec2Isabelle
  imports Main "HOL-Library.Word"
begin

unbundle bit_operations_syntax

section \<open>Bytes and the hash primitives of the Python standard library\<close>

text \<open>
  \<^verbatim>\<open>hwrouter.py\<close> imports \<^verbatim>\<open>sha256\<close> and \<^verbatim>\<open>pbkdf2_hmac\<close> from \<^verbatim>\<open>hashlib\<close> and
  \<^verbatim>\<open>new\<close> from \<^verbatim>\<open>hmac\<close>. They are not code of the repository; they are modelled
  here after the standards they implement (FIPS 180-4, RFC 2104, RFC 8018) and
  checked against published test vectors below. A Python \<^verbatim>\<open>bytes\<close> value is a list
  of 8-bit words.
\<close>

type_synonym byte = "8 word"
type_synonym w32 = "32 word"

subsection \<open>SHA-256 (FIPS 180-4)\<close>

definition Ch :: "w32 \<Rightarrow> w32 \<Rightarrow> w32 \<Rightarrow> w32" where
  "Ch x y z = (x AND y) XOR (NOT x AND z)"

definition Maj :: "w32 \<Rightarrow> w32 \<Rightarrow> w32 \<Rightarrow> w32" where
  "Maj x y z = (x AND y) XOR (x AND z) XOR (y AND z)"

definition bsig0 :: "w32 \<Rightarrow> w32" where
  "bsig0 x = word_rotr 2 x XOR word_rotr 13 x XOR word_rotr 22 x"

definition bsig1 :: "w32 \<Rightarrow> w32" where
  "bsig1 x = word_rotr 6 x XOR word_rotr 11 x XOR word_rotr 25 x"

definition ssig0 :: "w32 \<Rightarrow> w32" where
  "ssig0 x = word_rotr 7 x XOR word_rotr 18 x XOR drop_bit 3 x"

definition ssig1 :: "w32 \<Rightarrow> w32" where
  "ssig1 x = word_rotr 17 x XOR word_rotr 19 x XOR drop_bit 10 x"

text \<open>The round constants, eight to a row.\<close>

definition K256 :: "w32 list" where
  "K256 =
     [0x428a2f98, 0x71374491, 0xb5c0fbcf, 0xe9b5dba5, 0x3956c25b, 0x59f111f1, 0x923f82a4, 0xab1c5ed5]
     @ [0xd807aa98, 0x12835b01, 0x243185be, 0x550c7dc3, 0x72be5d74, 0x80deb1fe, 0x9bdc06a7, 0xc19bf174]
     @ [0xe49b69c1, 0xefbe4786, 0x0fc19dc6, 0x240ca1cc, 0x2de92c6f, 0x4a7484aa, 0x5cb0a9dc, 0x76f988da]
     @ [0x983e5152, 0xa831c66d, 0xb00327c8, 0xbf597fc7, 0xc6e00bf3, 0xd5a79147, 0x06ca6351, 0x14292967]
     @ [0x27b70a85, 0x2e1b2138, 0x4d2c6dfc, 0x53380d13, 0x650a7354, 0x766a0abb, 0x81c2c92e, 0x92722c85]
     @ [0xa2bfe8a1, 0xa81a664b, 0xc24b8b70, 0xc76c51a3, 0xd192e819, 0xd6990624, 0xf40e3585, 0x106aa070]
     @ [0x19a4c116, 0x1e376c08, 0x2748774c, 0x34b0bcb5, 0x391c0cb3, 0x4ed8aa4a, 0x5b9cca4f, 0x682e6ff3]
     @ [0x748f82ee, 0x78a5636f, 0x84c87814, 0x8cc70208, 0x90befffa, 0xa4506ceb, 0xbef9a3f7, 0xc67178f2]"

type_synonym hstate = "w32 \<times> w32 \<times> w32 \<times> w32 \<times> w32 \<times> w32 \<times> w32 \<times> w32"

definition H0 :: hstate where
  "H0 = (0x6a09e667, 0xbb67ae85, 0x3c6ef372, 0xa54ff53a,
         0x510e527f, 0x9b05688c, 0x1f83d9ab, 0x5be0cd19)"

text \<open>
  The message schedule, over a window of the last sixteen words:
  \<open>W\<^sub>t = \<sigma>\<^sub>1(W\<^sub>t\<^sub>-\<^sub>2) + W\<^sub>t\<^sub>-\<^sub>7 + \<sigma>\<^sub>0(W\<^sub>t\<^sub>-\<^sub>1\<^sub>5) + W\<^sub>t\<^sub>-\<^sub>1\<^sub>6\<close>. \<open>schedule 48\<close> of the
  sixteen words of a block is the list of all 64 schedule words.
\<close>

definition next_w :: "w32 list \<Rightarrow> w32" where
  "next_w ws = ssig1 (ws ! 14) + ws ! 9 + ssig0 (ws ! 1) + ws ! 0"

fun schedule :: "nat \<Rightarrow> w32 list \<Rightarrow> w32 list" where
  "schedule 0 ws = ws"
| "schedule (Suc n) ws = hd ws # schedule n (tl ws @ [next_w ws])"

fun round :: "hstate \<Rightarrow> w32 \<times> w32 \<Rightarrow> hstate" where
  "round (a, b, c, d, e, f, g, h) (k, w) =
     (let t1 = h + bsig1 e + Ch e f g + k + w;
          t2 = bsig0 a + Maj a b c
      in (t1 + t2, a, b, c, d + t1, e, f, g))"

fun hadd :: "hstate \<Rightarrow> hstate \<Rightarrow> hstate" where
  "hadd (a, b, c, d, e, f, g, h) (a', b', c', d', e', f', g', h') =
     (a + a', b + b', c + c', d + d', e + e', f + f', g + g', h + h')"

definition compress :: "hstate \<Rightarrow> w32 list \<Rightarrow> hstate" where
  "compress H ws = hadd H (foldl round H (zip K256 (schedule 48 ws)))"

text \<open>Padding: a \<open>1\<close> bit, zero bits up to 56 modulo 64 bytes, the bit length in 64 bits.\<close>

definition w64_bytes :: "64 word \<Rightarrow> byte list" where
  "w64_bytes w = map (\<lambda>i. ucast (drop_bit (8 * i) w)) [7, 6, 5, 4, 3, 2, 1, 0]"

definition pad :: "byte list \<Rightarrow> byte list" where
  "pad m = m @ [0x80] @ replicate ((119 - length m mod 64) mod 64) 0
             @ w64_bytes (word_of_nat (8 * length m))"

fun be32 :: "byte list \<Rightarrow> w32 list" where
  "be32 (a # b # c # d # bs) =
     (push_bit 24 (ucast a) OR push_bit 16 (ucast b) OR push_bit 8 (ucast c) OR ucast d) # be32 bs"
| "be32 _ = []"

fun blocks16 :: "w32 list \<Rightarrow> w32 list list" where
  "blocks16 (w0 # w1 # w2 # w3 # w4 # w5 # w6 # w7 # w8 # w9 # w10 # w11 # w12 # w13 # w14 # w15 # ws) =
     [w0, w1, w2, w3, w4, w5, w6, w7, w8, w9, w10, w11, w12, w13, w14, w15] # blocks16 ws"
| "blocks16 _ = []"

definition w32_bytes :: "w32 \<Rightarrow> byte list" where
  "w32_bytes w = [ucast (drop_bit 24 w), ucast (drop_bit 16 w), ucast (drop_bit 8 w), ucast w]"

fun digest_bytes :: "hstate \<Rightarrow> byte list" where
  "digest_bytes (a, b, c, d, e, f, g, h) =
     w32_bytes a @ w32_bytes b @ w32_bytes c @ w32_bytes d @
     w32_bytes e @ w32_bytes f @ w32_bytes g @ w32_bytes h"

text \<open>\<^verbatim>\<open>sha256(m).digest()\<close>\<close>

definition sha256 :: "byte list \<Rightarrow> byte list" where
  "sha256 m = digest_bytes (foldl compress H0 (blocks16 (be32 (pad m))))"

subsection \<open>HMAC-SHA256 (RFC 2104)\<close>

text \<open>
  \<^verbatim>\<open>hmac.new(key, msg, sha256).digest()\<close>: the first argument of \<^verbatim>\<open>hmac.new\<close> is the
  key, the second the message. A key longer than the block size of 64 bytes is
  hashed first; the key is then padded with zero bytes to 64 bytes, and
  \<open>hmac_block\<close> is \<open>H((K \<oplus> opad) || H((K \<oplus> ipad) || msg))\<close> for the padded key \<open>K\<close>.
\<close>

definition hmac_key :: "byte list \<Rightarrow> byte list" where
  "hmac_key key = (if 64 < length key then sha256 key else key)"

definition key_block :: "byte list \<Rightarrow> byte list" where
  "key_block key = hmac_key key @ replicate (64 - length (hmac_key key)) 0"

definition hmac_block :: "byte list \<Rightarrow> byte list \<Rightarrow> byte list" where
  "hmac_block kb msg =
     sha256 (map (\<lambda>b. b XOR 0x5c) kb @ sha256 (map (\<lambda>b. b XOR 0x36) kb @ msg))"

definition hmac_new :: "byte list \<Rightarrow> byte list \<Rightarrow> byte list" where
  "hmac_new key msg = hmac_block (key_block key) msg"

subsection \<open>PBKDF2 with HMAC-SHA256 (RFC 8018)\<close>

text \<open>
  \<open>pbkdf2_iter P n u acc\<close> runs \<open>n\<close> further rounds \<open>U\<^sub>j = PRF(P, U\<^sub>j\<^sub>-\<^sub>1)\<close> and
  accumulates their exclusive or, starting from \<open>U\<^sub>1 = PRF(P, S || INT(i))\<close>;
  \<open>pbkdf2_F P S c i\<close> is the block \<open>T\<^sub>i\<close> for \<open>c \<ge> 1\<close> iterations.
\<close>

fun pbkdf2_iter :: "byte list \<Rightarrow> nat \<Rightarrow> byte list \<Rightarrow> byte list \<Rightarrow> byte list" where
  "pbkdf2_iter P 0 u acc = acc"
| "pbkdf2_iter P (Suc n) u acc =
     (let u' = hmac_new P u in pbkdf2_iter P n u' (map2 (XOR) acc u'))"

definition pbkdf2_xor :: "byte list \<Rightarrow> nat \<Rightarrow> byte list \<Rightarrow> byte list" where
  "pbkdf2_xor P n u1 = pbkdf2_iter P n u1 u1"

definition pbkdf2_F :: "byte list \<Rightarrow> byte list \<Rightarrow> nat \<Rightarrow> nat \<Rightarrow> byte list" where
  "pbkdf2_F P S c i = pbkdf2_xor P (c - 1) (hmac_new P (S @ w32_bytes (word_of_nat i)))"

text \<open>\<^verbatim>\<open>pbkdf2_hmac("sha256", P, S, c, dklen)\<close> for \<open>c \<ge> 1\<close>.\<close>

definition pbkdf2_hmac_sha256 :: "byte list \<Rightarrow> byte list \<Rightarrow> nat \<Rightarrow> nat \<Rightarrow> byte list" where
  "pbkdf2_hmac_sha256 P S c dklen =
     take dklen (concat (map (pbkdf2_F P S c) [1..<Suc ((dklen + 31) div 32)]))"

subsection \<open>Numerals for evaluation\<close>

text \<open>
  The hash functions are evaluated on concrete inputs by rewriting. Words are
  written as images of natural numbers, so that every step computes on binary
  numerals of type \<open>nat\<close>; the lemmas of section \<open>Evaluating the hash functions\<close>
  relate each operation on words to one on numerals.
\<close>

definition W :: "nat \<Rightarrow> w32" where
  "W n = word_of_nat n"

definition B :: "nat \<Rightarrow> byte" where
  "B n = word_of_nat n"

definition rotn :: "nat \<Rightarrow> nat \<Rightarrow> nat \<Rightarrow> nat" where
  "rotn n m a = drop_bit n (take_bit 32 a) OR push_bit m (take_bit n a)"

definition round_out :: "w32 \<Rightarrow> w32 \<Rightarrow> hstate \<Rightarrow> hstate" where
  "round_out t1 t2 s = (case s of (a, b, c, d, e, f, g, h) \<Rightarrow> (t1 + t2, a, b, c, d + t1, e, f, g))"

section \<open>Python values\<close>

text \<open>
  A Python \<^verbatim>\<open>str\<close> is modelled by a \<^typ>\<open>string\<close> whose characters are the code
  points below 256. An exception is a value of type \<open>error\<close>; a computation that
  may raise returns \<open>error + 'a\<close>, with \<open>Inl\<close> for the exception. \<open>ClientError\<close> stands
  for an exception raised inside the HTTP collaborator (\<^verbatim>\<open>aiohttp\<close>).
\<close>

datatype error =
    KeyError string
  | TypeError
  | ValueError
  | OverflowError
  | UnicodeEncodeError
  | AttributeError
  | ClientError

text \<open>
  The values held by the secrets dictionary: what \<^verbatim>\<open>json()\<close> decodes and what the
  stages store. The code only ever tests such a value for truth, formats it in
  an f-string, passes it on in a request, or hands it to \<^verbatim>\<open>bytes.fromhex\<close> and
  \<^verbatim>\<open>pbkdf2_hmac\<close>, which reject everything but a \<^verbatim>\<open>str\<close> and an \<^verbatim>\<open>int\<close>. A float,
  list or dictionary is therefore kept as \<open>POther t r\<close>: its truth value \<open>t\<close> and
  the text \<open>r\<close> that \<^verbatim>\<open>str()\<close> gives for it.
\<close>

datatype pyval =
    PNone
  | PBool bool
  | PInt int
  | PStr string
  | POther bool string

fun truthy :: "pyval \<Rightarrow> bool" where
  "truthy PNone = False"
| "truthy (PBool b) = b"
| "truthy (PInt n) = (n \<noteq> 0)"
| "truthy (PStr s) = (s \<noteq> [])"
| "truthy (POther t r) = t"

definition digit_char :: "nat \<Rightarrow> char" where
  "digit_char n = char_of (48 + n)"

fun nat_digits :: "nat \<Rightarrow> string" where
  "nat_digits n = (if n < 10 then [digit_char n] else nat_digits (n div 10) @ [digit_char (n mod 10)])"

definition int_str :: "int \<Rightarrow> string" where
  "int_str n = (if n < 0 then CHR ''-'' # nat_digits (nat (- n)) else nat_digits (nat n))"

text \<open>The text an f-string field \<^verbatim>\<open>{v}\<close> produces.\<close>

fun py_format :: "pyval \<Rightarrow> string" where
  "py_format PNone = ''None''"
| "py_format (PBool b) = (if b then ''True'' else ''False'')"
| "py_format (PInt n) = int_str n"
| "py_format (PStr s) = s"
| "py_format (POther t r) = r"

text \<open>\<^verbatim>\<open>d[k]\<close> raises \<^verbatim>\<open>KeyError\<close> on a missing key; \<^verbatim>\<open>d.get(k)\<close> gives \<^verbatim>\<open>None\<close>.\<close>

definition subscript :: "(string \<rightharpoonup> pyval) \<Rightarrow> string \<Rightarrow> error + pyval" where
  "subscript d k = (case d k of None \<Rightarrow> Inl (KeyError k) | Some v \<Rightarrow> Inr v)"

definition dict_get :: "(string \<rightharpoonup> pyval) \<Rightarrow> string \<Rightarrow> pyval" where
  "dict_get d k = (case d k of None \<Rightarrow> PNone | Some v \<Rightarrow> v)"

text \<open>\<^verbatim>\<open>s * n\<close> on a string.\<close>

definition str_mul :: "string \<Rightarrow> nat \<Rightarrow> string" where
  "str_mul s n = concat (replicate n s)"

subsection \<open>Hexadecimal text and encodings\<close>

definition hexdigits :: string where
  "hexdigits = ''0123456789abcdef''"

text \<open>\<^verbatim>\<open>bytes.hex()\<close>: two lower-case digits for each byte.\<close>

definition byte_hex :: "byte \<Rightarrow> string" where
  "byte_hex b = [hexdigits ! unat (drop_bit 4 b), hexdigits ! unat (b AND 15)]"

definition bytes_hex :: "byte list \<Rightarrow> string" where
  "bytes_hex bs = concat (map byte_hex bs)"

definition hexval :: "char \<Rightarrow> nat option" where
  "hexval c =
     (let n = of_char c :: nat
      in if 48 \<le> n \<and> n \<le> 57 then Some (n - 48)
         else if 97 \<le> n \<and> n \<le> 102 then Some (n - 87)
         else if 65 \<le> n \<and> n \<le> 70 then Some (n - 55)
         else None)"

definition isspace :: "char \<Rightarrow> bool" where
  "isspace c = (of_char c \<in> {9, 10, 11, 12, 13, 32 :: nat})"

text \<open>
  \<^verbatim>\<open>bytes.fromhex(s)\<close> for a string: ASCII white space is skipped before each
  pair of digits; anything else but two hexadecimal digits in a row raises
  \<^verbatim>\<open>ValueError\<close>.
\<close>

fun fromhex :: "string \<Rightarrow> error + byte list" where
  "fromhex [] = Inr []"
| "fromhex [c] = (if isspace c then Inr [] else Inl ValueError)"
| "fromhex (c # d # cs) =
     (if isspace c then fromhex (d # cs)
      else case (hexval c, hexval d) of
             (Some a, Some b) \<Rightarrow>
               (case fromhex cs of Inl e \<Rightarrow> Inl e | Inr bs \<Rightarrow> Inr (word_of_nat (16 * a + b) # bs))
           | _ \<Rightarrow> Inl ValueError)"

text \<open>\<^verbatim>\<open>bytes.fromhex(v)\<close> for a value of the secrets dictionary.\<close>

fun bytes_fromhex :: "pyval \<Rightarrow> error + byte list" where
  "bytes_fromhex (PStr s) = fromhex s"
| "bytes_fromhex _ = Inl TypeError"

text \<open>\<^verbatim>\<open>s.encode("utf-8")\<close>, for code points below 256.\<close>

definition utf8_char :: "char \<Rightarrow> byte list" where
  "utf8_char c =
     (let n = of_char c :: nat
      in if n < 128 then [word_of_nat n] else [word_of_nat (192 + n div 64), word_of_nat (128 + n mod 64)])"

definition encode_utf8 :: "string \<Rightarrow> byte list" where
  "encode_utf8 s = concat (map utf8_char s)"

text \<open>\<^verbatim>\<open>s.encode("ascii")\<close>\<close>

definition encode_ascii :: "string \<Rightarrow> error + byte list" where
  "encode_ascii s =
     (if list_all (\<lambda>c. (of_char c :: nat) < 128) s then Inr (map of_char s)
      else Inl UnicodeEncodeError)"

subsection \<open>The call of \<^verbatim>\<open>pbkdf2_hmac\<close>\<close>

text \<open>
  \<^verbatim>\<open>pbkdf2_hmac("sha256", password, salt, iterations, dklen)\<close> takes its iteration
  count as a C \<^verbatim>\<open>long\<close> (64 bits here): a value that is no \<^verbatim>\<open>int\<close> raises
  \<^verbatim>\<open>TypeError\<close> (\<^verbatim>\<open>bool\<close> is a subclass of \<^verbatim>\<open>int\<close>), one outside the \<^verbatim>\<open>long\<close> range
  or above \<^verbatim>\<open>INT_MAX\<close> raises \<^verbatim>\<open>OverflowError\<close>, one below 1 raises \<^verbatim>\<open>ValueError\<close>.
\<close>

definition c_iterations :: "int \<Rightarrow> error + nat" where
  "c_iterations n =
     (if n < - (2 ^ 63) \<or> 2 ^ 63 \<le> n then Inl OverflowError
      else if n \<le> 0 then Inl ValueError
      else if 2147483647 < n then Inl OverflowError
      else Inr (nat n))"

fun iterations_arg :: "pyval \<Rightarrow> error + nat" where
  "iterations_arg (PInt n) = c_iterations n"
| "iterations_arg (PBool b) = c_iterations (if b then 1 else 0)"
| "iterations_arg _ = Inl TypeError"

definition pbkdf2_hmac :: "byte list \<Rightarrow> byte list \<Rightarrow> pyval \<Rightarrow> nat \<Rightarrow> error + byte list" where
  "pbkdf2_hmac P S iterations dklen =
     (case iterations_arg iterations of
        Inl e \<Rightarrow> Inl e
      | Inr c \<Rightarrow> Inr (pbkdf2_hmac_sha256 P S c dklen))"

subsection \<open>The search for the CSRF tokens\<close>

text \<open>
  \<^verbatim>\<open>re.search(r"csrf_param.*?(\w{32}).*?csrf_token.*?(\w{32})", text, DOTALL)\<close>.
  The pattern is a sequence of literals, lazy \<^verbatim>\<open>.*?\<close> (any characters, newlines
  included) and groups \<^verbatim>\<open>(\w{n})\<close>. A backtracking matcher tries, as Python's does,
  the shorter expansion of a lazy star first, and the search tries the start
  positions from left to right. \<^verbatim>\<open>\w\<close> is the class of Unicode letters, digits
  and the underscore, here on the code points below 256.
\<close>

datatype re_item = Lit string | LazyAny | WordGroup nat

definition is_word :: "char \<Rightarrow> bool" where
  "is_word c =
     (let n = of_char c :: nat
      in (48 \<le> n \<and> n \<le> 57) \<or> (65 \<le> n \<and> n \<le> 90) \<or> n = 95 \<or> (97 \<le> n \<and> n \<le> 122)
         \<or> n = 170 \<or> n = 178 \<or> n = 179 \<or> n = 181 \<or> n = 185 \<or> n = 186
         \<or> (188 \<le> n \<and> n \<le> 190) \<or> (192 \<le> n \<and> n \<le> 214)
         \<or> (216 \<le> n \<and> n \<le> 246) \<or> 248 \<le> n)"

function re_match :: "re_item list \<Rightarrow> string \<Rightarrow> string list \<Rightarrow> string list option" where
  "re_match [] s caps = Some (rev caps)"
| "re_match (Lit l # ps) s caps =
     (if take (length l) s = l then re_match ps (drop (length l) s) caps else None)"
| "re_match (WordGroup n # ps) s caps =
     (if n \<le> length s \<and> list_all is_word (take n s)
      then re_match ps (drop n s) (take n s # caps) else None)"
| "re_match (LazyAny # ps) s caps =
     (case re_match ps s caps of
        Some r \<Rightarrow> Some r
      | None \<Rightarrow> (case s of [] \<Rightarrow> None | c # cs \<Rightarrow> re_match (LazyAny # ps) cs caps))"
  by pat_completeness auto
termination
  by (relation "measures [\<lambda>(ps, s, caps). length s, \<lambda>(ps, s, caps). length ps]") auto

fun re_search :: "re_item list \<Rightarrow> string \<Rightarrow> string list option" where
  "re_search ps [] = re_match ps [] []"
| "re_search ps (c # cs) =
     (case re_match ps (c # cs) [] of Some r \<Rightarrow> Some r | None \<Rightarrow> re_search ps cs)"

definition csrf_pattern :: "re_item list" where
  "csrf_pattern =
     [Lit ''csrf_param'', LazyAny, WordGroup 32, LazyAny, Lit ''csrf_token'', LazyAny, WordGroup 32]"

subsection \<open>\<^verbatim>\<open>uuid4().hex\<close>\<close>

text \<open>
  \<^verbatim>\<open>uuid.uuid4()\<close> is \<^verbatim>\<open>UUID(bytes=os.urandom(16), version=4)\<close>: the 128 random bits
  with the variant and version fields overwritten, as the constructor does it:
  \<^verbatim>\<open>int &= ~(0xc000 << 48); int |= 0x8000 << 48; int &= ~(0xf000 << 64); int |= 4 << 76\<close>.
  \<^verbatim>\<open>hex\<close> is \<^verbatim>\<open>'%032x' % int\<close>.
\<close>

definition uuid4 :: "128 word \<Rightarrow> 128 word" where
  "uuid4 r =
     (((r AND NOT (push_bit 48 0xc000)) OR push_bit 48 0x8000)
        AND NOT (push_bit 64 0xf000)) OR push_bit 76 4"

definition uuid_hex :: "128 word \<Rightarrow> string" where
  "uuid_hex u = map (\<lambda>i. hexdigits ! unat (drop_bit (4 * i) u AND 15)) (rev [0..<32])"

text \<open>The bits of the random draw that \<open>uuid4\<close> keeps: all but the two fields it overwrites.\<close>

definition uuid4_kept :: "128 word" where
  "uuid4_kept = NOT (push_bit 48 0xc000 OR push_bit 64 0xf000)"

definition is_hexdigit :: "char \<Rightarrow> bool" where
  "is_hexdigit c = (c \<in> set hexdigits)"

text \<open>The number a string of hexadecimal digits denotes, \<^verbatim>\<open>int(s, 16)\<close>.\<close>

definition hex_value :: "string \<Rightarrow> nat" where
  "hex_value s = foldl (\<lambda>a c. 16 * a + (case hexval c of None \<Rightarrow> 0 | Some d \<Rightarrow> d)) 0 s"

section \<open>The router session\<close>

subsection \<open>The HTTP collaborator\<close>

text \<open>
  The stages talk to the router through \<^verbatim>\<open>aiohttp\<close>. A request is recorded as it
  is sent. The collaborator is a parameter of the model:
  \<^item> \<open>http_get path\<close> is the outcome of \<^verbatim>\<open>session.get(path)\<close> and of reading the
    text of the response: an exception, or the status and the text;
  \<^item> \<open>http_post path body\<close> is the outcome of \<^verbatim>\<open>session.post(path, json = body)\<close>:
    an exception, or the status together with what \<^verbatim>\<open>res.json()\<close> gives when it
    is called: an exception, a dictionary, or a value that is no dictionary;
  \<^item> \<open>urandom16\<close> is the 16 random bytes \<^verbatim>\<open>uuid4()\<close> draws, as one big-endian number.
  The body of a request is the nested dictionary the stage builds.
\<close>

type_synonym body = "(string \<times> (string \<times> pyval) list) list"

datatype request = GET string | POST string body

datatype decoded = Dict "string \<rightharpoonup> pyval" | NotDict

record world =
  http_get :: "string \<Rightarrow> error + int \<times> string"
  http_post :: "string \<Rightarrow> body \<Rightarrow> error + int \<times> (error + decoded)"
  urandom16 :: "128 word"

subsection \<open>The object\<close>

text \<open>
  The attributes of an \<^verbatim>\<open>HWRouter\<close> object, and \<open>sent\<close>, the requests issued so
  far in order.
\<close>

record session =
  password :: string
  secrets :: "string \<rightharpoonup> pyval"
  logged_in :: bool
  async_ctxmgr :: "bool option"
  sent :: "request list"

text \<open>
  \<^verbatim>\<open>HWRouter(password, username)\<close>; \<^verbatim>\<open>username or "admin"\<close> replaces \<^verbatim>\<open>None\<close> and
  the empty string. (The guard of \<^verbatim>\<open>__init__\<close> on \<^verbatim>\<open>__async_ctxmgr\<close> never fires: the
  attribute of a new object is the class attribute \<^verbatim>\<open>None\<close>.)
\<close>

definition init :: "string \<Rightarrow> string option \<Rightarrow> session" where
  "init pw username =
     \<lparr>password = pw,
      secrets = [''username'' \<mapsto> PStr (case username of
                                           None \<Rightarrow> ''admin''
                                         | Some u \<Rightarrow> if u = [] then ''admin'' else u),
                 ''password'' \<mapsto> PStr pw],
      logged_in = False, async_ctxmgr = None, sent = []\<rparr>"

subsection \<open>Propagating exceptions\<close>

text \<open>
  A statement that raises ends the method: \<open>and_then x f\<close> continues with \<open>f\<close> on
  the value of \<open>x\<close> unless \<open>x\<close> raised; \<open>or_raise x s f\<close> does the same in a method
  that returns its result together with the object, left as it is in \<open>s\<close>.
\<close>

definition and_then :: "error + 'a \<Rightarrow> ('a \<Rightarrow> error + 'b) \<Rightarrow> error + 'b" where
  "and_then x f = (case x of Inl e \<Rightarrow> Inl e | Inr v \<Rightarrow> f v)"

definition or_raise :: "error + 'a \<Rightarrow> 's \<Rightarrow> ('a \<Rightarrow> (error + 'b) \<times> 's) \<Rightarrow> (error + 'b) \<times> 's" where
  "or_raise x s f = (case x of Inl e \<Rightarrow> (Inl e, s) | Inr v \<Rightarrow> f v)"

text \<open>
  The test \<^verbatim>\<open>not d.get("err") and not d.get("errcode")\<close> on what \<^verbatim>\<open>res.json()\<close> gave;
  \<^verbatim>\<open>d.get\<close> raises \<^verbatim>\<open>AttributeError\<close> on a value that has no such method.
\<close>

definition no_error :: "(string \<rightharpoonup> pyval) \<Rightarrow> bool" where
  "no_error d = (\<not> truthy (dict_get d ''err'') \<and> \<not> truthy (dict_get d ''errcode''))"

subsection \<open>\<^verbatim>\<open>login_do_csrf\<close>\<close>

text \<open>
  The search runs before the status is looked at. With status 200 the groups of
  the match are subscripted: when there is no match, \<^verbatim>\<open>match\<close> is \<^verbatim>\<open>None\<close> and
  \<^verbatim>\<open>match[1]\<close> raises \<^verbatim>\<open>TypeError\<close>.
\<close>

definition login_do_csrf :: "world \<Rightarrow> session \<Rightarrow> (error + bool) \<times> session" where
  "login_do_csrf w s =
     (let s1 = s\<lparr>sent := sent s @ [GET ''/html/index.html'']\<rparr>
      in or_raise (http_get w ''/html/index.html'') s1 (\<lambda>(status, text).
           let match = re_search csrf_pattern text
           in if status = 200
              then (case match of
                      None \<Rightarrow> (Inl TypeError, s1)
                    | Some groups \<Rightarrow>
                        (Inr True,
                         s1\<lparr>secrets := secrets s1 ++ [''csrf_param'' \<mapsto> PStr (groups ! 0),
                                                      ''csrf_token'' \<mapsto> PStr (groups ! 1)]\<rparr>))
              else (Inr False, s1)))"

subsection \<open>\<^verbatim>\<open>login_do_nonce\<close>\<close>

definition firstnonce :: "128 word \<Rightarrow> string" where
  "firstnonce r = str_mul (uuid_hex (uuid4 r)) 2"

definition nonce_data :: "session \<Rightarrow> error + body" where
  "nonce_data s =
     and_then (subscript (secrets s) ''csrf_param'') (\<lambda>cp.
     and_then (subscript (secrets s) ''csrf_token'') (\<lambda>ct.
     and_then (subscript (secrets s) ''username'') (\<lambda>un.
     and_then (subscript (secrets s) ''firstnonce'') (\<lambda>fn.
       Inr [(''csrf'', [(''csrf_param'', cp), (''csrf_token'', ct)]),
            (''data'', [(''username'', un), (''firstnonce'', fn)])]))))"

definition login_do_nonce :: "world \<Rightarrow> session \<Rightarrow> (error + bool) \<times> session" where
  "login_do_nonce w s =
     (let s1 = s\<lparr>secrets := (secrets s)(''firstnonce'' \<mapsto> PStr (firstnonce (urandom16 w)))\<rparr>
      in or_raise (nonce_data s1) s1 (\<lambda>data.
           let s2 = s1\<lparr>sent := sent s1 @ [POST ''/api/system/user_login_nonce'' data]\<rparr>
           in or_raise (http_post w ''/api/system/user_login_nonce'' data) s2 (\<lambda>(status, js).
                if status = 200
                then or_raise js s2 (\<lambda>j.
                       case j of
                         NotDict \<Rightarrow> (Inl AttributeError, s2)
                       | Dict d \<Rightarrow>
                           if no_error d then (Inr True, s2\<lparr>secrets := secrets s2 ++ d\<rparr>)
                           else (Inr False, s2))
                else (Inr False, s2))))"

subsection \<open>\<^verbatim>\<open>login_do_proof\<close>\<close>

text \<open>The bytes literal \<^verbatim>\<open>b"Client Key"\<close>.\<close>

definition client_key_literal :: "byte list" where
  "client_key_literal = [0x43, 0x6c, 0x69, 0x65, 0x6e, 0x74, 0x20, 0x4b, 0x65, 0x79]"

text \<open>
  The local variables of \<^verbatim>\<open>login_do_proof\<close> before the request is built.
  \<open>salted_password\<close> is the variable the code calls \<^verbatim>\<open>password\<close>, the result of
  \<^verbatim>\<open>pbkdf2_hmac\<close>.
\<close>

record proof_vars =
  salted_password :: "byte list"
  clientkey :: "byte list"
  storekey :: "byte list"
  authmsg :: string
  clientsig :: "byte list"
  clientproof :: string

text \<open>
  \<^verbatim>\<open>clientkey = new(b"Client Key", password, sha256).digest()\<close> and
  \<^verbatim>\<open>clientsig = new(authmsg.encode("ascii"), storekey, sha256).digest()\<close>: the first
  argument of \<^verbatim>\<open>hmac.new\<close>, the key, is the literal and the encoded message; the
  second, the message, is the salted password and the stored key.
\<close>

definition proof_locals :: "session \<Rightarrow> error + proof_vars" where
  "proof_locals s =
     and_then (subscript (secrets s) ''salt'') (\<lambda>salt.
     and_then (bytes_fromhex salt) (\<lambda>salt_bytes.
     and_then (subscript (secrets s) ''iterations'') (\<lambda>iterations.
     and_then (pbkdf2_hmac (encode_utf8 (password s)) salt_bytes iterations 32) (\<lambda>pw.
       let ck = hmac_new client_key_literal pw;
           sk = sha256 ck
       in and_then (subscript (secrets s) ''firstnonce'') (\<lambda>fn.
          and_then (subscript (secrets s) ''servernonce'') (\<lambda>sn.
            let am = py_format fn @ '','' @ py_format sn @ '','' @ py_format sn
            in and_then (encode_ascii am) (\<lambda>am_bytes.
                 let cs = hmac_new am_bytes sk
                 in Inr \<lparr>salted_password = pw, clientkey = ck, storekey = sk, authmsg = am,
                          clientsig = cs,
                          clientproof = bytes_hex (map (\<lambda>(p, q). p XOR q) (zip ck cs))\<rparr>)))))))"

definition proof_data :: "session \<Rightarrow> error + body" where
  "proof_data s =
     and_then (proof_locals s) (\<lambda>v.
     and_then (subscript (secrets s) ''csrf_param'') (\<lambda>cp.
     and_then (subscript (secrets s) ''csrf_token'') (\<lambda>ct.
     and_then (subscript (secrets s) ''servernonce'') (\<lambda>sn.
       Inr [(''csrf'', [(''csrf_param'', cp), (''csrf_token'', ct)]),
            (''data'', [(''clientproof'', PStr (clientproof v)), (''finalnonce'', sn)])]))))"

definition login_do_proof :: "world \<Rightarrow> session \<Rightarrow> (error + bool) \<times> session" where
  "login_do_proof w s =
     or_raise (proof_data s) s (\<lambda>data.
       let s1 = s\<lparr>sent := sent s @ [POST ''/api/system/user_login_proof'' data]\<rparr>
       in or_raise (http_post w ''/api/system/user_login_proof'' data) s1 (\<lambda>(status, js).
            if status = 200
            then or_raise js s1 (\<lambda>j.
                   case j of
                     NotDict \<Rightarrow> (Inl AttributeError, s1)
                   | Dict d \<Rightarrow> if no_error d then (Inr True, s1) else (Inr False, s1))
            else (Inr False, s1)))"

subsection \<open>\<^verbatim>\<open>__aenter__\<close>: the orchestrator\<close>

text \<open>
  \<^verbatim>\<open>self.__logged_in = (await csrf() and await nonce() and await proof())\<close>: \<^verbatim>\<open>and\<close>
  evaluates its right operand only when the left one is true; an exception
  leaves \<^verbatim>\<open>__logged_in\<close> as it was. The method returns the object.
\<close>

definition aenter :: "world \<Rightarrow> session \<Rightarrow> (error + unit) \<times> session" where
  "aenter w s =
     (if async_ctxmgr s \<noteq> None then (Inr (), s)
      else case login_do_csrf w (s\<lparr>async_ctxmgr := Some True\<rparr>) of (r1, s1) \<Rightarrow>
        or_raise r1 s1 (\<lambda>b1.
          if \<not> b1 then (Inr (), s1\<lparr>logged_in := False\<rparr>)
          else case login_do_nonce w s1 of (r2, s2) \<Rightarrow>
            or_raise r2 s2 (\<lambda>b2.
              if \<not> b2 then (Inr (), s2\<lparr>logged_in := False\<rparr>)
              else case login_do_proof w s2 of (r3, s3) \<Rightarrow>
                or_raise r3 s3 (\<lambda>b3. (Inr (), s3\<lparr>logged_in := b3\<rparr>)))))"

subsection \<open>The handshake as a state machine\<close>

text \<open>
  The same control flow, one stage per step, so that the configurations a run
  passes through can be named: a stage executes from the configuration whose
  control state is the success of the stage before it. \<open>FAILED\<close> is entered
  when a stage returns \<^verbatim>\<open>False\<close>, \<open>RAISED\<close> when it raises.
\<close>

datatype pc = INIT | CSRF_OK | NONCE_OK | PROOF_OK | FAILED | RAISED error

definition after_stage :: "pc \<Rightarrow> (error + bool) \<times> session \<Rightarrow> pc \<times> session" where
  "after_stage ok r =
     (case r of
        (Inl e, s) \<Rightarrow> (RAISED e, s)
      | (Inr b, s) \<Rightarrow> (if b then ok else FAILED, s))"

fun step :: "world \<Rightarrow> pc \<times> session \<Rightarrow> (pc \<times> session) option" where
  "step w (INIT, s) = Some (after_stage CSRF_OK (login_do_csrf w s))"
| "step w (CSRF_OK, s) = Some (after_stage NONCE_OK (login_do_nonce w s))"
| "step w (NONCE_OK, s) = Some (after_stage PROOF_OK (login_do_proof w s))"
| "step w (PROOF_OK, s) = None"
| "step w (FAILED, s) = None"
| "step w (RAISED e, s) = None"

fun rank :: "pc \<Rightarrow> nat" where
  "rank INIT = 3"
| "rank CSRF_OK = 2"
| "rank NONCE_OK = 1"
| "rank _ = 0"

function trace :: "world \<Rightarrow> pc \<times> session \<Rightarrow> (pc \<times> session) list" where
  "trace w c = c # (case step w c of None \<Rightarrow> [] | Some c' \<Rightarrow> trace w c')"
  by pat_completeness auto
termination
proof (relation "measure (\<lambda>(w, c). rank (fst c))")
  show "wf (measure (\<lambda>(w, c). rank (fst c)))" by simp
next
  fix w :: world and c c' :: "pc \<times> session"
  assume "step w c = Some c'"
  then have "rank (fst c') < rank (fst c)"
    by (cases c; cases "fst c")
       (auto simp: after_stage_def split: prod.splits sum.splits if_splits)
  then show "((w, c'), (w, c)) \<in> measure (\<lambda>(w, c). rank (fst c))" by simp
qed

declare trace.simps [simp del]

text \<open>The attribute \<^verbatim>\<open>__logged_in\<close> and the result of \<^verbatim>\<open>__aenter__\<close> at the end of a run.\<close>

fun outcome :: "pc \<times> session \<Rightarrow> (error + unit) \<times> session" where
  "outcome (RAISED e, s) = (Inl e, s)"
| "outcome (PROOF_OK, s) = (Inr (), s\<lparr>logged_in := True\<rparr>)"
| "outcome (p, s) = (Inr (), s\<lparr>logged_in := False\<rparr>)"

text \<open>The run of a handshake on a new object.\<close>

definition handshake :: "world \<Rightarrow> string \<Rightarrow> string option \<Rightarrow> (pc \<times> session) list" where
  "handshake w pw username = trace w (INIT, (init pw username)\<lparr>async_ctxmgr := Some True\<rparr>)"

subsection \<open>An example router\<close>

text \<open>
  The example router serves a login page with both tokens, answers the nonce
  request with a salt, an iteration count and a server nonce, and accepts every
  proof. The random draw of the client is \<open>0\<close>.
\<close>

definition example_page :: string where
  "example_page =
     ''csrf_param:0123456789abcdef0123456789abcdef,csrf_token:fedcba9876543210fedcba9876543210''"

definition example_nonce_reply :: "string \<rightharpoonup> pyval" where
  "example_nonce_reply =
     [''salt'' \<mapsto> PStr ''73616c74'', ''iterations'' \<mapsto> PInt 1, ''servernonce'' \<mapsto> PStr ''srv'']"

text \<open>
  \<open>router st page nst reply\<close> answers the login page request with status \<open>st\<close> and
  text \<open>page\<close>, the nonce request with status \<open>nst\<close> and the JSON object \<open>reply\<close>,
  and accepts every proof.
\<close>

definition router :: "int \<Rightarrow> string \<Rightarrow> int \<Rightarrow> (string \<rightharpoonup> pyval) \<Rightarrow> world" where
  "router st page nst reply =
     \<lparr>http_get = (\<lambda>path. Inr (st, page)),
      http_post = (\<lambda>path body.
         if path = ''/api/system/user_login_nonce''
         then Inr (nst, Inr (Dict reply))
         else Inr (200, Inr (Dict Map.empty))),
      urandom16 = 0\<rparr>"

definition example_world :: world where
  "example_world = router 200 example_page 200 example_nonce_reply"

text \<open>The object when the proof stage of that handshake starts.\<close>

definition example_session :: session where
  "example_session =
     \<lparr>password = ''password'',
      secrets = [''username'' \<mapsto> PStr ''admin'', ''password'' \<mapsto> PStr ''password'',
                 ''csrf_param'' \<mapsto> PStr ''0123456789abcdef0123456789abcdef'',
                 ''csrf_token'' \<mapsto> PStr ''fedcba9876543210fedcba9876543210'',
                 ''firstnonce'' \<mapsto> PStr (firstnonce 0),
                 ''salt'' \<mapsto> PStr ''73616c74'', ''iterations'' \<mapsto> PInt 1,
                 ''servernonce'' \<mapsto> PStr ''srv''],
      logged_in = False, async_ctxmgr = Some True,
      sent = [GET ''/html/index.html'',
              POST ''/api/system/user_login_nonce''
                [(''csrf'', [(''csrf_param'', PStr ''0123456789abcdef0123456789abcdef''),
                             (''csrf_token'', PStr ''fedcba9876543210fedcba9876543210'')]),
                 (''data'', [(''username'', PStr ''admin''), (''firstnonce'', PStr (firstnonce 0))])]]\<rparr>"

text \<open>The local variables of \<^verbatim>\<open>login_do_proof\<close> on that object.\<close>

definition example_vars :: proof_vars where
  "example_vars =
     \<lparr>salted_password =
        [0x12, 0x0f, 0xb6, 0xcf, 0xfc, 0xf8, 0xb3, 0x2c, 0x43, 0xe7, 0x22, 0x52, 0x56, 0xc4, 0xf8, 0x37,
         0xa8, 0x65, 0x48, 0xc9, 0x2c, 0xcc, 0x35, 0x48, 0x08, 0x05, 0x98, 0x7c, 0xb7, 0x0b, 0xe1, 0x7b],
      clientkey =
        [0x31, 0x6a, 0xe2, 0x56, 0x8c, 0xd0, 0x82, 0x5a, 0xec, 0x7c, 0x45, 0xfe, 0x89, 0x32, 0xd3, 0x2d,
         0x86, 0x29, 0xa9, 0xf8, 0xad, 0xa1, 0x59, 0xb9, 0x0a, 0x45, 0xe6, 0x78, 0x93, 0x6f, 0x36, 0x03],
      storekey =
        [0xb1, 0x3a, 0x79, 0x2d, 0xf5, 0x05, 0xfe, 0x55, 0x4a, 0xfa, 0x70, 0x87, 0xe3, 0xac, 0x34, 0xa7,
         0x76, 0x61, 0xf5, 0xda, 0x9d, 0x1a, 0x1a, 0x11, 0xf2, 0xc2, 0x45, 0x62, 0xf1, 0xde, 0xa8, 0x53],
      authmsg = ''0000000000004000800000000000000000000000000040008000000000000000,srv,srv'',
      clientsig =
        [0x61, 0x83, 0x72, 0x98, 0x08, 0x9b, 0x8d, 0x3a, 0x09, 0xa7, 0xa4, 0x0f, 0x33, 0x48, 0x71, 0xc2,
         0x23, 0x83, 0x39, 0x70, 0x68, 0xe8, 0xf5, 0x6c, 0x48, 0x18, 0xbb, 0x70, 0xac, 0x85, 0xd9, 0xd7],
      clientproof = ''50e990ce844b0f60e5dbe1f1ba7aa2efa5aa9088c549acd5425d5d083feaefd4''\<rparr>"


text \<open>The body of the proof request of that handshake.\<close>

definition example_proof_data :: body where
  "example_proof_data =
     [(''csrf'', [(''csrf_param'', PStr ''0123456789abcdef0123456789abcdef''),
                  (''csrf_token'', PStr ''fedcba9876543210fedcba9876543210'')]),
      (''data'', [(''clientproof'',
                   PStr ''50e990ce844b0f60e5dbe1f1ba7aa2efa5aa9088c549acd5425d5d083feaefd4''),
                  (''finalnonce'', PStr ''srv'')])]"

text \<open>A login page, served with status 200, that has the first token but not the second.\<close>

definition page_without_token :: string where
  "page_without_token = ''csrf_param:0123456789abcdef0123456789abcdef''"

text \<open>The object of the example handshake when its CSRF stage has succeeded.\<close>

definition example_after_csrf :: session where
  "example_after_csrf =
     \<lparr>password = ''password'',
      secrets = [''username'' \<mapsto> PStr ''admin'', ''password'' \<mapsto> PStr ''password'',
                 ''csrf_param'' \<mapsto> PStr ''0123456789abcdef0123456789abcdef'',
                 ''csrf_token'' \<mapsto> PStr ''fedcba9876543210fedcba9876543210''],
      logged_in = False, async_ctxmgr = Some True, sent = [GET ''/html/index.html'']\<rparr>"

text \<open>
  The object after the nonce stage of a handshake with a router whose reply to
  the nonce request is the JSON object \<open>reply\<close>, accepted by the stage.
\<close>

definition example_after_nonce :: "(string \<rightharpoonup> pyval) \<Rightarrow> session" where
  "example_after_nonce reply =
     \<lparr>password = ''password'',
      secrets = [''username'' \<mapsto> PStr ''admin'', ''password'' \<mapsto> PStr ''password'',
                 ''csrf_param'' \<mapsto> PStr ''0123456789abcdef0123456789abcdef'',
                 ''csrf_token'' \<mapsto> PStr ''fedcba9876543210fedcba9876543210'',
                 ''firstnonce'' \<mapsto> PStr (firstnonce 0)] ++ reply,
      logged_in = False, async_ctxmgr = Some True,
      sent = [GET ''/html/index.html'',
              POST ''/api/system/user_login_nonce''
                [(''csrf'', [(''csrf_param'', PStr ''0123456789abcdef0123456789abcdef''),
                             (''csrf_token'', PStr ''fedcba9876543210fedcba9876543210'')]),
                 (''data'', [(''username'', PStr ''admin''), (''firstnonce'', PStr (firstnonce 0))])]]\<rparr>"
section \<open>Evaluating the hash functions\<close>

subsection \<open>Words as images of numerals\<close>

lemma mod32_if:
  "i < 32 \<Longrightarrow> n \<le> 32 \<Longrightarrow> (i + n) mod 32 = (if i + n < 32 then i + n else i + n - 32)"
  for i n :: nat
  by (auto simp: mod_if le_mod_geq)

lemma W_add: "W a + W b = W (take_bit 32 (a + b))"
proof -
  have "(word_of_nat (a + b) :: w32) = word_of_nat (take_bit 32 (a + b))"
    by (simp only: word_of_nat_eq_iff) simp
  then show ?thesis by (simp add: W_def)
qed

lemma W_xor: "W a XOR W b = W (a XOR b)"
  by (simp add: W_def of_nat_xor_eq)

lemma W_and: "W a AND W b = W (a AND b)"
  by (simp add: W_def of_nat_and_eq)

lemma W_shr: "drop_bit n (W a) = W (drop_bit n (take_bit 32 a))"
  by (rule bit_word_eqI) (auto simp add: W_def bit_simps)

lemma W_rotr: "n \<le> 32 \<Longrightarrow> word_rotr n (W a) = W (rotn n (32 - n) a)"
  by (rule bit_word_eqI) (auto simp add: W_def rotn_def bit_simps mod32_if add.commute)

lemma Ch_alt: "Ch x y z = z XOR (x AND (y XOR z))"
  unfolding Ch_def by (rule bit_word_eqI) (auto simp: bit_simps)

lemma Ch_W: "Ch (W x) (W y) (W z) = W (z XOR (x AND (y XOR z)))"
  by (simp add: Ch_alt W_xor W_and)

lemma Maj_W: "Maj (W x) (W y) (W z) = W ((x AND y) XOR (x AND z) XOR (y AND z))"
  by (simp add: Maj_def W_xor W_and)

lemma bsig0_W: "bsig0 (W x) = W (rotn 2 30 x XOR rotn 13 19 x XOR rotn 22 10 x)"
  by (simp add: bsig0_def W_rotr W_xor)

lemma bsig1_W: "bsig1 (W x) = W (rotn 6 26 x XOR rotn 11 21 x XOR rotn 25 7 x)"
  by (simp add: bsig1_def W_rotr W_xor)

lemma ssig0_W: "ssig0 (W x) = W (rotn 7 25 x XOR rotn 18 14 x XOR drop_bit 3 (take_bit 32 x))"
  by (simp add: ssig0_def W_rotr W_xor W_shr)

lemma ssig1_W: "ssig1 (W x) = W (rotn 17 15 x XOR rotn 19 13 x XOR drop_bit 10 (take_bit 32 x))"
  by (simp add: ssig1_def W_rotr W_xor W_shr)

lemma W_numeral:
  "(numeral n :: w32) = W (numeral n)" "(0 :: w32) = W 0" "(1 :: w32) = W Numeral1"
  by (simp_all add: W_def)

lemma B_numeral:
  "(numeral n :: byte) = B (numeral n)" "(0 :: byte) = B 0" "(1 :: byte) = B Numeral1"
  by (simp_all add: B_def)

lemma B_xor: "B a XOR B b = B (a XOR b)"
  by (simp add: B_def of_nat_xor_eq)

lemma W_of_nat: "(word_of_nat n :: w32) = W n"
  by (simp add: W_def)

lemma round_out_eval:
  "round_out t1 t2 (a, b, c, d, e, f, g, h) = (t1 + t2, a, b, c, d + t1, e, f, g)"
  by (simp add: round_out_def)

lemma round_eval:
  "round (a, b, c, d, e, f, g, h) (k, w) =
     round_out (h + bsig1 e + Ch e f g + k + w) (bsig0 a + Maj a b c) (a, b, c, d, e, f, g, h)"
  by (simp add: round_out_def Let_def)

lemma next_w_eval:
  "next_w [w0, w1, w2, w3, w4, w5, w6, w7, w8, w9, w10, w11, w12, w13, w14, w15] =
     ssig1 w14 + w9 + ssig0 w1 + w0"
  by (simp add: next_w_def)

lemma schedule_numeral:
  "schedule (numeral n) ws = hd ws # schedule (pred_numeral n) (tl ws @ [next_w ws])"
  by (simp add: numeral_eq_Suc)

lemma be32_B:
  "be32 (B a # B b # B c # B d # bs) =
     W (push_bit 24 (take_bit 8 a) OR push_bit 16 (take_bit 8 b)
        OR push_bit 8 (take_bit 8 c) OR take_bit 8 d) # be32 bs"
proof -
  have "push_bit 24 (ucast (B a)) OR push_bit 16 (ucast (B b)) OR push_bit 8 (ucast (B c)) OR ucast (B d)
      = W (push_bit 24 (take_bit 8 a) OR push_bit 16 (take_bit 8 b)
           OR push_bit 8 (take_bit 8 c) OR take_bit 8 d)"
    by (rule bit_word_eqI) (auto simp add: W_def B_def bit_simps)
  then show ?thesis by simp
qed

lemma w32_bytes_W:
  "w32_bytes (W a) = [B (drop_bit 24 (take_bit 32 a)), B (take_bit 8 (drop_bit 16 a)),
                      B (take_bit 8 (drop_bit 8 a)), B (take_bit 8 a)]"
proof -
  have "(ucast (drop_bit 24 (W a)) :: byte) = B (drop_bit 24 (take_bit 32 a))"
    by (rule bit_word_eqI) (auto simp add: W_def B_def bit_simps)
  moreover have "(ucast (drop_bit 16 (W a)) :: byte) = B (take_bit 8 (drop_bit 16 a))"
    by (rule bit_word_eqI) (auto simp add: W_def B_def bit_simps)
  moreover have "(ucast (drop_bit 8 (W a)) :: byte) = B (take_bit 8 (drop_bit 8 a))"
    by (rule bit_word_eqI) (auto simp add: W_def B_def bit_simps)
  moreover have "(ucast (W a) :: byte) = B (take_bit 8 a)"
    by (rule bit_word_eqI) (auto simp add: W_def B_def bit_simps)
  ultimately show ?thesis by (simp add: w32_bytes_def)
qed

lemma w64_bytes_of_nat:
  "w64_bytes (word_of_nat n) =
     [B (take_bit 8 (drop_bit 56 n)), B (take_bit 8 (drop_bit 48 n)),
      B (take_bit 8 (drop_bit 40 n)), B (take_bit 8 (drop_bit 32 n)),
      B (take_bit 8 (drop_bit 24 n)), B (take_bit 8 (drop_bit 16 n)),
      B (take_bit 8 (drop_bit 8 n)), B (take_bit 8 n)]"
proof -
  have step: "(ucast (drop_bit k (word_of_nat n :: 64 word)) :: byte) = B (take_bit 8 (drop_bit k n))"
    if "k \<le> 56" for k
    using that by (intro bit_word_eqI) (auto simp add: B_def bit_simps)
  from step [of 0] have "(ucast (word_of_nat n :: 64 word) :: byte) = B (take_bit 8 n)"
    by simp
  with step show ?thesis by (simp add: w64_bytes_def)
qed

subsection \<open>Lengths of digests\<close>

lemma length_w32_bytes: "length (w32_bytes w) = 4"
  by (simp add: w32_bytes_def)

lemma length_digest_bytes: "length (digest_bytes H) = 32"
  by (induction H rule: digest_bytes.induct) (simp add: length_w32_bytes)

lemma length_sha256: "length (sha256 m) = 32"
  by (simp add: sha256_def length_digest_bytes)

lemma length_hmac_new: "length (hmac_new key msg) = 32"
  by (simp add: hmac_new_def hmac_block_def length_sha256)

lemma length_hmac_key: "length (hmac_key key) \<le> 64"
  by (simp add: hmac_key_def length_sha256)

lemma length_key_block: "length (key_block key) = 64"
  using length_hmac_key [of key] by (simp add: key_block_def)

lemma length_pbkdf2_iter:
  "length acc = 32 \<Longrightarrow> length (pbkdf2_iter P n u acc) = 32"
  by (induction n arbitrary: u acc) (simp_all add: Let_def length_hmac_new)

lemma length_pbkdf2_F: "length (pbkdf2_F P S c i) = 32"
  by (simp add: pbkdf2_F_def pbkdf2_xor_def length_pbkdf2_iter length_hmac_new)

lemma pbkdf2_32: "pbkdf2_hmac_sha256 P S c 32 = pbkdf2_F P S c 1"
proof -
  have "[1..<Suc ((32 + 31) div 32)] = [1 :: nat]"
    by (simp add: upt_rec)
  then show ?thesis
    by (simp add: pbkdf2_hmac_sha256_def length_pbkdf2_F)
qed

lemma length_pbkdf2_32: "length (pbkdf2_hmac_sha256 P S c 32) = 32"
  by (simp add: pbkdf2_32 length_pbkdf2_F)

subsection \<open>Padding, key blocks and lists on numerals\<close>

lemma xor63: "v < 64 \<Longrightarrow> v XOR 63 = 63 - v" for v :: nat
proof -
  assume v: "v < 64"
  have m: "(63 :: int) = mask 6" by (simp add: mask_eq_exp_minus_1)
  from v have t: "take_bit 6 (int v) = int v" by (simp add: take_bit_eq_mod)
  have "take_bit 6 (NOT (int v)) = take_bit 6 (int v) XOR mask 6"
    by (rule bit_eqI) (auto simp add: bit_simps)
  moreover have "take_bit 6 (NOT (int v)) = mask 6 - take_bit 6 (int v)"
    by (rule take_bit_not_eq_mask_diff)
  ultimately have "int v XOR 63 = 63 - int v" by (simp add: t m)
  moreover have "int (v XOR 63) = int v XOR 63" by (simp add: of_nat_xor_eq)
  ultimately show ?thesis using v by linarith
qed

lemma padlen_arith: "(119 - n mod 64) mod 64 = 63 - (n + 8) mod 64" for n :: nat
proof -
  define r where "r = n mod 64"
  have r: "r < 64" by (simp add: r_def)
  have e: "(n + 8) mod 64 = (r + 8) mod 64"
    by (simp add: r_def mod_add_left_eq)
  show ?thesis
  proof (cases "r < 56")
    case True
    then have "119 - r = (55 - r) + 64" by simp
    then have "(119 - r) mod 64 = (55 - r) mod 64" by (simp only: mod_add_self2)
    with True show ?thesis by (simp add: e flip: r_def)
  next
    case False
    with r have "r + 8 = (r - 56) + 64" by simp
    then have "(r + 8) mod 64 = (r - 56) mod 64" by (simp only: mod_add_self2)
    with False r show ?thesis by (simp add: e flip: r_def)
  qed
qed

lemma padlen_eval: "(119 - n mod 64) mod 64 = take_bit 6 (n + 8) XOR 63" for n :: nat
proof -
  have "(119 - n mod 64) mod 64 = 63 - (n + 8) mod 64" by (rule padlen_arith)
  also have "\<dots> = (n + 8) mod 64 XOR 63" by (simp add: xor63)
  finally show ?thesis by (simp add: take_bit_eq_mod)
qed

lemma pad_eval:
  "pad m = m @ B 128 # replicate (take_bit 6 (length m + 8) XOR 63) (B 0)
             @ w64_bytes (word_of_nat (push_bit 3 (length m)))"
  by (simp add: pad_def padlen_eval B_def push_bit_eq_mult mult.commute)

lemma key_block_eval: "key_block key = take 64 (hmac_key key @ replicate 64 (B 0))"
  using length_hmac_key [of key] by (simp add: key_block_def B_def)

lemma pbkdf2_F_eval:
  "pbkdf2_F P S (numeral c) i =
     pbkdf2_xor P (pred_numeral c) (hmac_new P (S @ w32_bytes (word_of_nat i)))"
  by (simp add: pbkdf2_F_def numeral_eq_Suc)

lemma length_Cons_numeral: "length (x # xs) = length xs + Numeral1"
  by simp

lemma replicate_numeral: "replicate (numeral n) x = x # replicate (pred_numeral n) x"
  by (simp add: numeral_eq_Suc)

lemma take_Cons_pred: "take (numeral n) (x # xs) = x # take (pred_numeral n) xs"
  by (simp add: numeral_eq_Suc)

lemma drop_bit_numeral_One: "drop_bit (numeral l) (Numeral1 :: nat) = 0"
  by (simp add: drop_bit_of_1)

lemma one_nat_numeral: "(1 :: nat) = Numeral1"
  by simp

text \<open>
  The rewrite rules of an evaluation: arithmetic and bit operations on binary
  numerals of type \<open>nat\<close>, lists, and the hash functions on images of numerals.
\<close>

lemmas nat_eval =
  one_nat_numeral id_apply
  numeral_plus_numeral add_num_simps add_0_left add_0_right
  take_bit_numeral_numeral take_bit_num_simps take_bit_of_0 take_bit_0
  pred_numeral_simps BitM.simps option.case option.map
  drop_bit_numeral_bit0 drop_bit_numeral_bit1 drop_bit_of_0 drop_bit_0 drop_bit_numeral_One
  push_bit_numeral push_bit_of_0 push_bit_0_id
  numeral_xor_num xor_num.simps xor.left_neutral xor.right_neutral
  numeral_and_num and_num.simps and_zero_eq zero_and_eq
  numeral_or_num or_num.simps or.left_neutral or.right_neutral
  numeral_less_iff less_num_simps le_num_simps not_numeral_less_zero zero_less_numeral less_irrefl

lemmas list_eval =
  list.size(3) length_Cons_numeral append_Cons append_Nil list.map
  replicate_numeral replicate_0 take_Cons_pred take_0 take_Nil
  foldl_Cons foldl_Nil zip_Cons_Cons zip_Nil list.sel
  if_True if_False

lemmas sha_eval =
  W_numeral B_numeral W_add Ch_W Maj_W bsig0_W bsig1_W ssig0_W ssig1_W rotn_def
  round_eval round_out_eval next_w_eval schedule_numeral schedule.simps(1) hadd.simps
  compress_def K256_def H0_def
  pad_eval w64_bytes_of_nat be32_B be32.simps(2) blocks16.simps(1,2) digest_bytes.simps
  w32_bytes_W sha256_def

lemmas hmac_eval =
  hmac_new_def hmac_block_def key_block_eval hmac_key_def B_xor
  pbkdf2_32 pbkdf2_F_eval pbkdf2_xor_def pbkdf2_iter.simps(1) W_of_nat

lemmas hash_eval = nat_eval list_eval sha_eval hmac_eval

subsection \<open>Published test vectors\<close>

text \<open>FIPS 180-4 example: the digest of the three bytes \<^verbatim>\<open>abc\<close>.\<close>

lemma sha256_abc:
  "sha256 [0x61, 0x62, 0x63] =
     [0xba, 0x78, 0x16, 0xbf, 0x8f, 0x01, 0xcf, 0xea, 0x41, 0x41, 0x40, 0xde, 0x5d, 0xae, 0x22, 0x23,
      0xb0, 0x03, 0x61, 0xa3, 0x96, 0x17, 0x7a, 0x9c, 0xb4, 0x10, 0xff, 0x61, 0xf2, 0x00, 0x15, 0xad]"
  by (simp only: hash_eval cong: if_weak_cong)

text \<open>RFC 4231, test case 2: key \<^verbatim>\<open>Jefe\<close>, data \<^verbatim>\<open>what do ya want for nothing?\<close>\<close>

lemma hmac_rfc4231_2:
  "hmac_new [0x4a, 0x65, 0x66, 0x65]
     [0x77, 0x68, 0x61, 0x74, 0x20, 0x64, 0x6f, 0x20, 0x79, 0x61, 0x20, 0x77, 0x61, 0x6e, 0x74, 0x20,
      0x66, 0x6f, 0x72, 0x20, 0x6e, 0x6f, 0x74, 0x68, 0x69, 0x6e, 0x67, 0x3f] =
     [0x5b, 0xdc, 0xc1, 0x46, 0xbf, 0x60, 0x75, 0x4e, 0x6a, 0x04, 0x24, 0x26, 0x08, 0x95, 0x75, 0xc7,
      0x5a, 0x00, 0x3f, 0x08, 0x9d, 0x27, 0x39, 0x83, 0x9d, 0xec, 0x58, 0xb9, 0x64, 0xec, 0x38, 0x43]"
  by (simp only: hash_eval cong: if_weak_cong)

text \<open>
  PBKDF2-HMAC-SHA256 with password \<^verbatim>\<open>password\<close>, salt \<^verbatim>\<open>salt\<close>, one iteration and
  32 bytes of output (the first of the widely used test vectors for this function).
\<close>

lemma pbkdf2_password_salt_1:
  "pbkdf2_hmac_sha256 [0x70, 0x61, 0x73, 0x73, 0x77, 0x6f, 0x72, 0x64] [0x73, 0x61, 0x6c, 0x74] 1 32 =
     [0x12, 0x0f, 0xb6, 0xcf, 0xfc, 0xf8, 0xb3, 0x2c, 0x43, 0xe7, 0x22, 0x52, 0x56, 0xc4, 0xf8, 0x37,
      0xa8, 0x65, 0x48, 0xc9, 0x2c, 0xcc, 0x35, 0x48, 0x08, 0x05, 0x98, 0x7c, 0xb7, 0x0b, 0xe1, 0x7b]"
  by (simp only: hash_eval cong: if_weak_cong)

subsection \<open>An example run of the proof computation\<close>

text \<open>
  The values of \<^verbatim>\<open>login_do_proof\<close> for the password \<^verbatim>\<open>password\<close>, the salt
  \<^verbatim>\<open>73616c74\<close>, one iteration, the client nonce of the random draw \<open>0\<close> and the
  server nonce \<^verbatim>\<open>srv\<close>. The salted password is the test vector
  \<open>pbkdf2_password_salt_1\<close>. Each value is the one Python's \<^verbatim>\<open>hashlib\<close> and
  \<^verbatim>\<open>hmac\<close> compute. The lemmas named \<open>swapped\<close> evaluate \<^verbatim>\<open>hmac.new\<close> with key and
  message exchanged.
\<close>

lemma ex_clientkey:
  "hmac_new client_key_literal
     [0x12, 0x0f, 0xb6, 0xcf, 0xfc, 0xf8, 0xb3, 0x2c, 0x43, 0xe7, 0x22, 0x52, 0x56, 0xc4, 0xf8, 0x37,
      0xa8, 0x65, 0x48, 0xc9, 0x2c, 0xcc, 0x35, 0x48, 0x08, 0x05, 0x98, 0x7c, 0xb7, 0x0b, 0xe1, 0x7b] =
     [0x31, 0x6a, 0xe2, 0x56, 0x8c, 0xd0, 0x82, 0x5a, 0xec, 0x7c, 0x45, 0xfe, 0x89, 0x32, 0xd3, 0x2d,
      0x86, 0x29, 0xa9, 0xf8, 0xad, 0xa1, 0x59, 0xb9, 0x0a, 0x45, 0xe6, 0x78, 0x93, 0x6f, 0x36, 0x03]"
  by (simp only: hash_eval client_key_literal_def cong: if_weak_cong)

lemma ex_clientkey_swapped:
  "hmac_new
     [0x12, 0x0f, 0xb6, 0xcf, 0xfc, 0xf8, 0xb3, 0x2c, 0x43, 0xe7, 0x22, 0x52, 0x56, 0xc4, 0xf8, 0x37,
      0xa8, 0x65, 0x48, 0xc9, 0x2c, 0xcc, 0x35, 0x48, 0x08, 0x05, 0x98, 0x7c, 0xb7, 0x0b, 0xe1, 0x7b]
     client_key_literal =
     [0x4e, 0xa6, 0x7b, 0x52, 0x41, 0xb5, 0x90, 0x2d, 0xac, 0xba, 0x20, 0xc8, 0x5f, 0x61, 0x0e, 0x30,
      0x21, 0xe7, 0xb6, 0x2c, 0x2a, 0xe9, 0x31, 0xf6, 0xf4, 0x23, 0xa4, 0x5f, 0xad, 0x75, 0xa1, 0xe0]"
  by (simp only: hash_eval client_key_literal_def cong: if_weak_cong)

lemma ex_storekey:
  "sha256
     [0x31, 0x6a, 0xe2, 0x56, 0x8c, 0xd0, 0x82, 0x5a, 0xec, 0x7c, 0x45, 0xfe, 0x89, 0x32, 0xd3, 0x2d,
      0x86, 0x29, 0xa9, 0xf8, 0xad, 0xa1, 0x59, 0xb9, 0x0a, 0x45, 0xe6, 0x78, 0x93, 0x6f, 0x36, 0x03] =
     [0xb1, 0x3a, 0x79, 0x2d, 0xf5, 0x05, 0xfe, 0x55, 0x4a, 0xfa, 0x70, 0x87, 0xe3, 0xac, 0x34, 0xa7,
      0x76, 0x61, 0xf5, 0xda, 0x9d, 0x1a, 0x1a, 0x11, 0xf2, 0xc2, 0x45, 0x62, 0xf1, 0xde, 0xa8, 0x53]"
  by (simp only: hash_eval client_key_literal_def cong: if_weak_cong)

lemma ex_clientsig:
  "hmac_new
     [0x30, 0x30, 0x30, 0x30, 0x30, 0x30, 0x30, 0x30, 0x30, 0x30, 0x30, 0x30, 0x34, 0x30, 0x30, 0x30,
      0x38, 0x30, 0x30, 0x30, 0x30, 0x30, 0x30, 0x30, 0x30, 0x30, 0x30, 0x30, 0x30, 0x30, 0x30, 0x30,
      0x30, 0x30, 0x30, 0x30, 0x30, 0x30, 0x30, 0x30, 0x30, 0x30, 0x30, 0x30, 0x34, 0x30, 0x30, 0x30,
      0x38, 0x30, 0x30, 0x30, 0x30, 0x30, 0x30, 0x30, 0x30, 0x30, 0x30, 0x30, 0x30, 0x30, 0x30, 0x30,
      0x2c, 0x73, 0x72, 0x76, 0x2c, 0x73, 0x72, 0x76]
     [0xb1, 0x3a, 0x79, 0x2d, 0xf5, 0x05, 0xfe, 0x55, 0x4a, 0xfa, 0x70, 0x87, 0xe3, 0xac, 0x34, 0xa7,
      0x76, 0x61, 0xf5, 0xda, 0x9d, 0x1a, 0x1a, 0x11, 0xf2, 0xc2, 0x45, 0x62, 0xf1, 0xde, 0xa8, 0x53] =
     [0x61, 0x83, 0x72, 0x98, 0x08, 0x9b, 0x8d, 0x3a, 0x09, 0xa7, 0xa4, 0x0f, 0x33, 0x48, 0x71, 0xc2,
      0x23, 0x83, 0x39, 0x70, 0x68, 0xe8, 0xf5, 0x6c, 0x48, 0x18, 0xbb, 0x70, 0xac, 0x85, 0xd9, 0xd7]"
  by (simp only: hash_eval client_key_literal_def cong: if_weak_cong)

lemma ex_clientsig_swapped:
  "hmac_new
     [0xb1, 0x3a, 0x79, 0x2d, 0xf5, 0x05, 0xfe, 0x55, 0x4a, 0xfa, 0x70, 0x87, 0xe3, 0xac, 0x34, 0xa7,
      0x76, 0x61, 0xf5, 0xda, 0x9d, 0x1a, 0x1a, 0x11, 0xf2, 0xc2, 0x45, 0x62, 0xf1, 0xde, 0xa8, 0x53]
     [0x30, 0x30, 0x30, 0x30, 0x30, 0x30, 0x30, 0x30, 0x30, 0x30, 0x30, 0x30, 0x34, 0x30, 0x30, 0x30,
      0x38, 0x30, 0x30, 0x30, 0x30, 0x30, 0x30, 0x30, 0x30, 0x30, 0x30, 0x30, 0x30, 0x30, 0x30, 0x30,
      0x30, 0x30, 0x30, 0x30, 0x30, 0x30, 0x30, 0x30, 0x30, 0x30, 0x30, 0x30, 0x34, 0x30, 0x30, 0x30,
      0x38, 0x30, 0x30, 0x30, 0x30, 0x30, 0x30, 0x30, 0x30, 0x30, 0x30, 0x30, 0x30, 0x30, 0x30, 0x30,
      0x2c, 0x73, 0x72, 0x76, 0x2c, 0x73, 0x72, 0x76] =
     [0xe7, 0xca, 0x65, 0x63, 0x53, 0x6d, 0x8f, 0xe3, 0xa8, 0x7b, 0xa8, 0x1a, 0x04, 0xe0, 0x59, 0x18,
      0x8f, 0x83, 0x1d, 0x83, 0xc8, 0x36, 0x03, 0xfa, 0xba, 0x87, 0xb5, 0xa2, 0xe2, 0x96, 0x7e, 0xa4]"
  by (simp only: hash_eval client_key_literal_def cong: if_weak_cong)

section \<open>Hexadecimal text\<close>

lemma distinct_hexdigits: "distinct hexdigits" "length hexdigits = 16"
  by (simp_all add: hexdigits_def)

lemma nibble_less: "unat (x AND 15) < 16" for x :: "'a::len word"
proof -
  have "x AND 15 = take_bit 4 x"
    by (simp add: take_bit_eq_mask mask_eq_exp_minus_1)
  then have "unat (x AND 15) = take_bit 4 (unat x)"
    by (simp add: unsigned_take_bit_eq)
  also have "\<dots> < 2 ^ 4"
    by (rule take_bit_nat_less_exp)
  finally show ?thesis by simp
qed

lemma high_nibble_less: "unat (drop_bit 4 b) < 16" for b :: byte
proof -
  have "unat (drop_bit 4 b) = unat b div 16"
    by (simp add: drop_bit_eq_div unat_div)
  moreover have "unat b < 256"
    using unsigned_less [of b, where 'a = nat] by simp
  ultimately show ?thesis by simp
qed

lemma hexval_hexdigit: "n < 16 \<Longrightarrow> hexval (hexdigits ! n) = Some n \<and> \<not> isspace (hexdigits ! n)"
proof -
  assume "n < 16"
  then consider "n = 0" | "n = 1" | "n = 2" | "n = 3" | "n = 4" | "n = 5" | "n = 6" | "n = 7"
    | "n = 8" | "n = 9" | "n = 10" | "n = 11" | "n = 12" | "n = 13" | "n = 14" | "n = 15"
    by atomize_elim arith
  then show ?thesis
    by cases (simp_all add: hexdigits_def hexval_def isspace_def)
qed

lemma byte_nibbles: "word_of_nat (16 * unat (drop_bit 4 b) + unat (b AND 15)) = b" for b :: byte
proof -
  have "unat (drop_bit 4 b) = unat b div 16"
    by (simp add: drop_bit_eq_div unat_div)
  moreover have "b AND 15 = take_bit 4 b"
    by (simp add: take_bit_eq_mask mask_eq_exp_minus_1)
  then have "unat (b AND 15) = take_bit 4 (unat b)"
    by (simp only: unsigned_take_bit_eq)
  then have "unat (b AND 15) = unat b mod 16"
    by (simp add: take_bit_eq_mod)
  ultimately have "16 * unat (drop_bit 4 b) + unat (b AND 15) = unat b"
    by simp
  then have "(word_of_nat (16 * unat (drop_bit 4 b) + unat (b AND 15)) :: byte) = word_of_nat (unat b)"
    by (simp only:)
  then show ?thesis by simp
qed

lemma length_bytes_hex: "length (bytes_hex bs) = 2 * length bs"
  by (induction bs) (simp_all add: bytes_hex_def byte_hex_def)

lemma hexdigits_bytes_hex: "list_all is_hexdigit (bytes_hex bs)"
  by (induction bs)
     (simp_all add: bytes_hex_def byte_hex_def is_hexdigit_def nibble_less high_nibble_less
        distinct_hexdigits)

lemma fromhex_bytes_hex: "fromhex (bytes_hex bs) = Inr bs"
proof (induction bs)
  case Nil
  then show ?case by (simp add: bytes_hex_def)
next
  case (Cons b bs)
  have "bytes_hex (b # bs)
      = hexdigits ! unat (drop_bit 4 b) # hexdigits ! unat (b AND 15) # bytes_hex bs"
    by (simp add: bytes_hex_def byte_hex_def)
  with Cons show ?case
    using hexval_hexdigit [OF high_nibble_less [of b]] hexval_hexdigit [OF nibble_less [of b]]
      byte_nibbles [of b]
    by (simp del: of_nat_add of_nat_mult)
qed


section \<open>The client nonce\<close>

lemma length_uuid_hex: "length (uuid_hex u) = 32"
  by (simp add: uuid_hex_def)

lemma str_mul_2: "str_mul s 2 = s @ s"
  by (simp add: str_mul_def numeral_2_eq_2)

lemma firstnonce_eq: "firstnonce r = uuid_hex (uuid4 r) @ uuid_hex (uuid4 r)"
  by (simp add: firstnonce_def str_mul_2)

subsection \<open>How much of the random draw the nonce carries\<close>

lemma uuid_consts:
  "push_bit 48 (0xc000 :: 128 word) = push_bit 62 (mask 2)"
  "push_bit 48 (0x8000 :: 128 word) = push_bit 63 1"
  "push_bit 64 (0xf000 :: 128 word) = push_bit 76 (mask 4)"
  "push_bit 76 (4 :: 128 word) = push_bit 78 1"
  by (simp_all add: mask_eq_exp_minus_1 push_bit_eq_mult)

lemma bit_uuid4:
  "bit (uuid4 r) n \<longleftrightarrow>
     n < 128 \<and> (n = 63 \<or> n = 78 \<or> (n \<noteq> 62 \<and> n \<noteq> 76 \<and> n \<noteq> 77 \<and> n \<noteq> 79 \<and> bit r n))"
  unfolding uuid4_def uuid_consts
  by (auto simp add: bit_simps simp del: push_bit_of_1 dest: bit_imp_le_length)

lemma bit_uuid4_kept:
  "bit uuid4_kept n \<longleftrightarrow> n < 128 \<and> n \<noteq> 62 \<and> n \<noteq> 63 \<and> n \<noteq> 76 \<and> n \<noteq> 77 \<and> n \<noteq> 78 \<and> n \<noteq> 79"
  unfolding uuid4_kept_def uuid_consts
  by (auto simp add: bit_simps simp del: push_bit_of_1)

lemma uuid4_eq_iff: "uuid4 r = uuid4 r' \<longleftrightarrow> r AND uuid4_kept = r' AND uuid4_kept"
proof
  assume e: "uuid4 r = uuid4 r'"
  show "r AND uuid4_kept = r' AND uuid4_kept"
  proof (rule bit_word_eqI)
    fix n assume "n < LENGTH(128)"
    from e have "bit (uuid4 r) n = bit (uuid4 r') n" by simp
    then show "bit (r AND uuid4_kept) n = bit (r' AND uuid4_kept) n"
      by (auto simp add: bit_and_iff bit_uuid4 bit_uuid4_kept)
  qed
next
  assume e: "r AND uuid4_kept = r' AND uuid4_kept"
  show "uuid4 r = uuid4 r'"
  proof (rule bit_word_eqI)
    fix n assume "n < LENGTH(128)"
    from e have "bit (r AND uuid4_kept) n = bit (r' AND uuid4_kept) n" by simp
    then show "bit (uuid4 r) n = bit (uuid4 r') n"
      by (auto simp add: bit_and_iff bit_uuid4 bit_uuid4_kept)
  qed
qed

lemma hexdigit_nibble_inj:
  "hexdigits ! unat (x AND 15) = hexdigits ! unat (y AND 15) \<Longrightarrow> x AND 15 = y AND 15"
  for x y :: "'a::len word"
proof -
  assume "hexdigits ! unat (x AND 15) = hexdigits ! unat (y AND 15)"
  with nibble_less [of x] nibble_less [of y] have "unat (x AND 15) = unat (y AND 15)"
    by (simp add: nth_eq_iff_index_eq distinct_hexdigits)
  then show ?thesis by (rule unsigned_word_eqI)
qed

lemma uuid_hex_inj: "uuid_hex u = uuid_hex v \<Longrightarrow> u = v"
proof -
  assume e: "uuid_hex u = uuid_hex v"
  have nib: "drop_bit (4 * i) u AND 15 = drop_bit (4 * i) v AND 15" if "i < 32" for i
  proof -
    from e that have "hexdigits ! unat (drop_bit (4 * i) u AND 15)
        = hexdigits ! unat (drop_bit (4 * i) v AND 15)"
      by (simp add: uuid_hex_def)
    then show ?thesis by (rule hexdigit_nibble_inj)
  qed
  have m: "(15 :: 128 word) = mask 4" by (simp add: mask_eq_exp_minus_1)
  show "u = v"
  proof (rule bit_word_eqI)
    fix n assume n: "n < LENGTH(128)"
    then have i: "n div 4 < 32" by simp
    have "bit (drop_bit (4 * (n div 4)) u AND 15) (n mod 4)
        = bit (drop_bit (4 * (n div 4)) v AND 15) (n mod 4)"
      using nib [OF i] by simp
    moreover have "n mod 4 < 4" by simp
    ultimately show "bit u n = bit v n"
      using n by (simp add: m bit_simps)
  qed
qed

lemma hexdigits_uuid_hex: "list_all is_hexdigit (uuid_hex u)"
  by (simp add: uuid_hex_def list_all_iff is_hexdigit_def nibble_less distinct_hexdigits)

lemma card_uuid4_kept: "card {n. bit uuid4_kept n} = 122"
proof -
  have "{n. bit uuid4_kept n} = {..<128} - {62, 63, 76, 77, 78, 79}"
    by (auto simp add: bit_uuid4_kept)
  moreover have "card ({..<128 :: nat} - {62, 63, 76, 77, 78, 79}) = 122"
    by (simp add: card_Diff_subset)
  ultimately show ?thesis by simp
qed


subsection \<open>The hexadecimal text of a UUID\<close>

lemma hex_value_snoc:
  "hex_value (s @ [c]) = 16 * hex_value s + (case hexval c of None \<Rightarrow> 0 | Some d \<Rightarrow> d)"
  by (simp add: hex_value_def)

lemma unat_drop_bit_div: "unat (drop_bit k u) = unat u div 2 ^ k" for u :: "'a::len word"
proof -
  have "unat (drop_bit k u) = drop_bit k (take_bit LENGTH('a) (unat u))"
    by (simp only: unsigned_drop_bit_eq)
  also have "take_bit LENGTH('a) (unat u) = unat u"
    by (simp add: take_bit_nat_eq_self unsigned_less)
  finally show ?thesis by (simp only: drop_bit_eq_div)
qed

lemma nibble_unat: "unat (drop_bit (4 * i) u AND 15) = unat u div 16 ^ i mod 16"
  for u :: "128 word"
proof -
  have "drop_bit (4 * i) u AND 15 = take_bit 4 (drop_bit (4 * i) u)"
    by (simp add: take_bit_eq_mask mask_eq_exp_minus_1)
  then have "unat (drop_bit (4 * i) u AND 15) = take_bit 4 (unat (drop_bit (4 * i) u))"
    by (simp add: unsigned_take_bit_eq)
  also have "\<dots> = unat u div 2 ^ (4 * i) mod 16"
    by (simp add: take_bit_eq_mod unat_drop_bit_div)
  also have "(2 :: nat) ^ (4 * i) = 16 ^ i"
    by (simp add: power_mult)
  finally show ?thesis .
qed

lemma hex_value_digits:
  "foldl (\<lambda>a c. 16 * a + (case hexval c of None \<Rightarrow> 0 | Some d \<Rightarrow> d)) a
     (map (\<lambda>i. hexdigits ! unat (drop_bit (4 * i) u AND 15)) (rev [0..<n]))
   = a * 16 ^ n + unat u mod 16 ^ n"
  for u :: "128 word"
proof (induction n arbitrary: a)
  case 0
  then show ?case by simp
next
  case (Suc n)
  have d: "hexval (hexdigits ! unat (drop_bit (4 * n) u AND 15)) = Some (unat u div 16 ^ n mod 16)"
    using hexval_hexdigit [of "unat (drop_bit (4 * n) u AND 15)"] nibble_less [of "drop_bit (4 * n) u"]
    by (simp add: nibble_unat)
  have m: "unat u mod 16 ^ Suc n = 16 ^ n * (unat u div 16 ^ n mod 16) + unat u mod 16 ^ n"
    using mod_mult2_eq [of "unat u" "16 ^ n" 16] by (simp add: mult.commute)
  have "foldl (\<lambda>a c. 16 * a + (case hexval c of None \<Rightarrow> 0 | Some d \<Rightarrow> d)) a
     (map (\<lambda>i. hexdigits ! unat (drop_bit (4 * i) u AND 15)) (rev [0..<Suc n]))
     = (16 * a + unat u div 16 ^ n mod 16) * 16 ^ n + unat u mod 16 ^ n"
    by (simp add: Suc d)
  also have "\<dots> = a * 16 ^ Suc n + unat u mod 16 ^ Suc n"
    unfolding m by (simp add: algebra_simps)
  finally show ?case .
qed

lemma hex_value_uuid_hex: "hex_value (uuid_hex u) = unat u"
proof -
  have "unat u < 2 ^ 128" using unsigned_less [of u] by simp
  then have "unat u mod 16 ^ 32 = unat u" by simp
  then show ?thesis
    unfolding hex_value_def uuid_hex_def hex_value_digits by simp
qed

subsection \<open>The fields of a version 4 UUID\<close>

lemma uuid4_version: "drop_bit 76 (uuid4 r) AND 15 = 4"
proof (rule bit_word_eqI)
  fix n assume "n < LENGTH(128)"
  have e: "(15 :: 128 word) = mask 4" "(4 :: 128 word) = push_bit 2 1"
    by (simp_all add: mask_eq_exp_minus_1)
  show "bit (drop_bit 76 (uuid4 r) AND 15) n = bit (4 :: 128 word) n"
    unfolding e by (auto simp add: bit_simps bit_uuid4 simp del: push_bit_of_1)
qed

lemma uuid4_variant: "drop_bit 62 (uuid4 r) AND 3 = 2"
proof (rule bit_word_eqI)
  fix n assume "n < LENGTH(128)"
  have e: "(3 :: 128 word) = mask 2" "(2 :: 128 word) = push_bit 1 1"
    by (simp_all add: mask_eq_exp_minus_1)
  show "bit (drop_bit 62 (uuid4 r) AND 3) n = bit (2 :: 128 word) n"
    unfolding e by (auto simp add: bit_simps bit_uuid4 simp del: push_bit_of_1)
qed

lemma uuid4_keeps: "uuid4 r AND uuid4_kept = r AND uuid4_kept"
  by (rule bit_word_eqI) (auto simp add: bit_simps bit_uuid4 bit_uuid4_kept)

lemma uuid4_kept_bits: "{n. bit uuid4_kept n} = {..<128} - {62, 63, 76, 77, 78, 79}"
  by (auto simp add: bit_uuid4_kept)

lemma uuid_hex_nth: "i < 32 \<Longrightarrow> uuid_hex u ! i = hexdigits ! unat (drop_bit (4 * (31 - i)) u AND 15)"
  by (simp add: uuid_hex_def rev_nth)

lemma uuid_hex_version: "uuid_hex (uuid4 r) ! 12 = CHR ''4''"
  by (simp add: uuid_hex_nth uuid4_version hexdigits_def)

lemma variant_unat: "unat (drop_bit 62 u AND 3) = unat u div 2 ^ 62 mod 4"
  for u :: "128 word"
proof -
  have "drop_bit 62 u AND 3 = take_bit 2 (drop_bit 62 u)"
    by (simp add: take_bit_eq_mask mask_eq_exp_minus_1)
  then have "unat (drop_bit 62 u AND 3) = take_bit 2 (unat (drop_bit 62 u))"
    by (simp add: unsigned_take_bit_eq)
  also have "\<dots> = unat u div 2 ^ 62 mod 4"
    by (simp add: take_bit_eq_mod unat_drop_bit_div)
  finally show ?thesis .
qed

lemma uuid_hex_variant: "uuid_hex (uuid4 r) ! 16 \<in> set ''89ab''"
proof -
  define y where "y = unat (uuid4 r) div 16 ^ 15"
  have "unat (uuid4 r) div 2 ^ 62 = y div 4"
    by (simp add: y_def div_mult2_eq)
  with uuid4_variant [of r] variant_unat [of "uuid4 r"] have "y div 4 mod 4 = 2"
    by simp
  then have "y mod 16 = 8 \<or> y mod 16 = 9 \<or> y mod 16 = 10 \<or> y mod 16 = 11"
    by presburger
  moreover have "uuid_hex (uuid4 r) ! 16 = hexdigits ! (y mod 16)"
    using nibble_unat [of 15 "uuid4 r"] by (simp add: uuid_hex_nth y_def)
  ultimately show ?thesis
    by (auto simp add: hexdigits_def)
qed

section \<open>The stages\<close>

subsection \<open>\<^verbatim>\<open>login_do_csrf\<close>\<close>

lemma csrf_raised:
  "http_get w ''/html/index.html'' = Inl e \<Longrightarrow>
   login_do_csrf w s = (Inl e, s\<lparr>sent := sent s @ [GET ''/html/index.html'']\<rparr>)"
  by (simp add: login_do_csrf_def or_raise_def Let_def)

lemma csrf_not_200:
  "http_get w ''/html/index.html'' = Inr (status, text) \<Longrightarrow> status \<noteq> 200 \<Longrightarrow>
   login_do_csrf w s = (Inr False, s\<lparr>sent := sent s @ [GET ''/html/index.html'']\<rparr>)"
  by (simp add: login_do_csrf_def or_raise_def Let_def)

lemma csrf_no_match:
  "http_get w ''/html/index.html'' = Inr (200, text) \<Longrightarrow> re_search csrf_pattern text = None \<Longrightarrow>
   login_do_csrf w s = (Inl TypeError, s\<lparr>sent := sent s @ [GET ''/html/index.html'']\<rparr>)"
  by (simp add: login_do_csrf_def or_raise_def Let_def)

lemma csrf_match:
  "http_get w ''/html/index.html'' = Inr (200, text) \<Longrightarrow> re_search csrf_pattern text = Some groups \<Longrightarrow>
   login_do_csrf w s =
     (Inr True, s\<lparr>sent := sent s @ [GET ''/html/index.html''],
                    secrets := secrets s ++ [''csrf_param'' \<mapsto> PStr (groups ! 0),
                                             ''csrf_token'' \<mapsto> PStr (groups ! 1)]\<rparr>)"
  by (simp add: login_do_csrf_def or_raise_def Let_def)

lemma csrf_True_E:
  assumes "login_do_csrf w s = (Inr True, s1)"
  obtains page groups where
    "http_get w ''/html/index.html'' = Inr (200, page)"
    "re_search csrf_pattern page = Some groups"
    "s1 = s\<lparr>sent := sent s @ [GET ''/html/index.html''],
             secrets := secrets s ++ [''csrf_param'' \<mapsto> PStr (groups ! 0),
                                      ''csrf_token'' \<mapsto> PStr (groups ! 1)]\<rparr>"
  using assms
  by (auto simp add: login_do_csrf_def or_raise_def Let_def
      split: sum.splits prod.splits if_splits option.splits)

lemma csrf_sent: "sent (snd (login_do_csrf w s)) = sent s @ [GET ''/html/index.html'']"
  by (auto simp add: login_do_csrf_def or_raise_def Let_def
      split: sum.splits prod.splits if_splits option.splits)

subsection \<open>\<^verbatim>\<open>login_do_nonce\<close>\<close>

lemma nonce_data_eq:
  assumes "secrets s ''csrf_param'' = Some cp" and "secrets s ''csrf_token'' = Some ct"
    and "secrets s ''username'' = Some un" and "secrets s ''firstnonce'' = Some fn"
  shows "nonce_data s =
    Inr [(''csrf'', [(''csrf_param'', cp), (''csrf_token'', ct)]),
         (''data'', [(''username'', un), (''firstnonce'', fn)])]"
  using assms by (simp add: nonce_data_def and_then_def subscript_def)

text \<open>The object and the request of the nonce stage, once the nonce is generated.\<close>

lemma nonce_stage:
  fixes w :: world and s :: session
  assumes "secrets s ''csrf_param'' = Some cp" and "secrets s ''csrf_token'' = Some ct"
    and "secrets s ''username'' = Some un"
  defines "data \<equiv> [(''csrf'', [(''csrf_param'', cp), (''csrf_token'', ct)]),
         (''data'', [(''username'', un), (''firstnonce'', PStr (firstnonce (urandom16 w)))])]"
  defines "s2 \<equiv> s\<lparr>secrets := (secrets s)(''firstnonce'' \<mapsto> PStr (firstnonce (urandom16 w))),
                    sent := sent s @ [POST ''/api/system/user_login_nonce'' data]\<rparr>"
  shows "login_do_nonce w s =
    (case http_post w ''/api/system/user_login_nonce'' data of
       Inl e \<Rightarrow> (Inl e, s2)
     | Inr (status, js) \<Rightarrow>
         if status = 200
         then (case js of
                 Inl e \<Rightarrow> (Inl e, s2)
               | Inr NotDict \<Rightarrow> (Inl AttributeError, s2)
               | Inr (Dict d) \<Rightarrow>
                   if no_error d then (Inr True, s2\<lparr>secrets := secrets s2 ++ d\<rparr>)
                   else (Inr False, s2))
         else (Inr False, s2))"
proof -
  let ?s1 = "s\<lparr>secrets := (secrets s)(''firstnonce'' \<mapsto> PStr (firstnonce (urandom16 w)))\<rparr>"
  have "nonce_data ?s1 = Inr data"
    unfolding data_def by (rule nonce_data_eq) (simp_all add: assms)
  then show ?thesis
    by (simp add: login_do_nonce_def or_raise_def Let_def s2_def
        split: sum.splits prod.splits decoded.splits)
qed

lemma nonce_sent:
  assumes "secrets s ''csrf_param'' = Some cp" and "secrets s ''csrf_token'' = Some ct"
    and "secrets s ''username'' = Some un"
  shows "sent (snd (login_do_nonce w s)) = sent s @
    [POST ''/api/system/user_login_nonce''
       [(''csrf'', [(''csrf_param'', cp), (''csrf_token'', ct)]),
        (''data'', [(''username'', un), (''firstnonce'', PStr (firstnonce (urandom16 w)))])]]"
  unfolding nonce_stage [OF assms]
  by (simp split: sum.splits prod.splits decoded.splits)

subsection \<open>\<^verbatim>\<open>login_do_proof\<close>\<close>

lemma proof_raised_before_request:
  "proof_data s = Inl e \<Longrightarrow> login_do_proof w s = (Inl e, s)"
  by (simp add: login_do_proof_def or_raise_def)

lemma proof_stage:
  fixes w :: world and s :: session
  assumes "proof_data s = Inr data"
  defines "s1 \<equiv> s\<lparr>sent := sent s @ [POST ''/api/system/user_login_proof'' data]\<rparr>"
  shows "login_do_proof w s =
    (case http_post w ''/api/system/user_login_proof'' data of
       Inl e \<Rightarrow> (Inl e, s1)
     | Inr (status, js) \<Rightarrow>
         if status = 200
         then (case js of
                 Inl e \<Rightarrow> (Inl e, s1)
               | Inr NotDict \<Rightarrow> (Inl AttributeError, s1)
               | Inr (Dict d) \<Rightarrow> if no_error d then (Inr True, s1) else (Inr False, s1))
         else (Inr False, s1))"
  using assms(1)
  by (simp add: login_do_proof_def or_raise_def Let_def s1_def
      split: sum.splits prod.splits decoded.splits)

lemma proof_sent:
  "proof_data s = Inr data \<Longrightarrow>
   sent (snd (login_do_proof w s)) = sent s @ [POST ''/api/system/user_login_proof'' data]"
  unfolding proof_stage
  by (simp add: proof_stage split: sum.splits prod.splits decoded.splits)

lemma proof_sent_prefix: "\<exists>rest. sent (snd (login_do_proof w s)) = sent s @ rest"
  by (cases "proof_data s") (simp_all add: proof_raised_before_request proof_sent)

lemma proof_data_eq:
  assumes "proof_locals s = Inr v" and "secrets s ''csrf_param'' = Some cp"
    and "secrets s ''csrf_token'' = Some ct" and "secrets s ''servernonce'' = Some sn"
  shows "proof_data s =
    Inr [(''csrf'', [(''csrf_param'', cp), (''csrf_token'', ct)]),
         (''data'', [(''clientproof'', PStr (clientproof v)), (''finalnonce'', sn)])]"
  using assms by (simp add: proof_data_def and_then_def subscript_def)

lemma proof_data_InrE:
  assumes "proof_data s = Inr data"
  obtains v cp ct sn where "proof_locals s = Inr v" and "secrets s ''csrf_param'' = Some cp"
    and "secrets s ''csrf_token'' = Some ct" and "secrets s ''servernonce'' = Some sn"
    and "data = [(''csrf'', [(''csrf_param'', cp), (''csrf_token'', ct)]),
         (''data'', [(''clientproof'', PStr (clientproof v)), (''finalnonce'', sn)])]"
  using assms
  by (auto simp add: proof_data_def and_then_def subscript_def split: sum.splits option.splits)


subsection \<open>\<^verbatim>\<open>__aenter__\<close>\<close>

lemma aenter_again: "async_ctxmgr s \<noteq> None \<Longrightarrow> aenter w s = (Inr (), s)"
  by (simp add: aenter_def)

lemma aenter_csrf_raised:
  "async_ctxmgr s = None \<Longrightarrow> login_do_csrf w (s\<lparr>async_ctxmgr := Some True\<rparr>) = (Inl e, s1) \<Longrightarrow>
   aenter w s = (Inl e, s1)"
  by (simp add: aenter_def or_raise_def)

lemma aenter_csrf_failed:
  "async_ctxmgr s = None \<Longrightarrow> login_do_csrf w (s\<lparr>async_ctxmgr := Some True\<rparr>) = (Inr False, s1) \<Longrightarrow>
   aenter w s = (Inr (), s1\<lparr>logged_in := False\<rparr>)"
  by (simp add: aenter_def or_raise_def)

lemma aenter_nonce_raised:
  "async_ctxmgr s = None \<Longrightarrow> login_do_csrf w (s\<lparr>async_ctxmgr := Some True\<rparr>) = (Inr True, s1) \<Longrightarrow>
   login_do_nonce w s1 = (Inl e, s2) \<Longrightarrow> aenter w s = (Inl e, s2)"
  by (simp add: aenter_def or_raise_def)

lemma aenter_nonce_failed:
  "async_ctxmgr s = None \<Longrightarrow> login_do_csrf w (s\<lparr>async_ctxmgr := Some True\<rparr>) = (Inr True, s1) \<Longrightarrow>
   login_do_nonce w s1 = (Inr False, s2) \<Longrightarrow> aenter w s = (Inr (), s2\<lparr>logged_in := False\<rparr>)"
  by (simp add: aenter_def or_raise_def)

lemma aenter_proof:
  "async_ctxmgr s = None \<Longrightarrow> login_do_csrf w (s\<lparr>async_ctxmgr := Some True\<rparr>) = (Inr True, s1) \<Longrightarrow>
   login_do_nonce w s1 = (Inr True, s2) \<Longrightarrow>
   aenter w s = (case login_do_proof w s2 of
                   (Inl e, s3) \<Rightarrow> (Inl e, s3)
                 | (Inr b, s3) \<Rightarrow> (Inr (), s3\<lparr>logged_in := b\<rparr>))"
  by (simp add: aenter_def or_raise_def split: prod.splits sum.splits)

lemma proof_sent_cases:
  "sent (snd (login_do_proof w s)) = sent s \<or>
   (\<exists>data. proof_data s = Inr data \<and>
      sent (snd (login_do_proof w s)) = sent s @ [POST ''/api/system/user_login_proof'' data])"
  by (cases "proof_data s") (simp_all add: proof_raised_before_request proof_sent)

text \<open>The requests of a run whose CSRF stage succeeds.\<close>

lemma aenter_sent_after_csrf:
  assumes "async_ctxmgr s = None"
    and "login_do_csrf w (s\<lparr>async_ctxmgr := Some True\<rparr>) = (Inr True, s1)"
  shows "\<exists>rest. sent (snd (aenter w s)) = sent (snd (login_do_nonce w s1)) @ rest
           \<and> (rest = [] \<or> (\<exists>data. rest = [POST ''/api/system/user_login_proof'' data]))"
proof (cases "login_do_nonce w s1")
  case (Pair r2 s2)
  show ?thesis
  proof (cases r2)
    case (Inl e)
    with Pair assms show ?thesis by (simp add: aenter_nonce_raised)
  next
    case (Inr b)
    show ?thesis
    proof (cases b)
      case False
      with Inr Pair assms show ?thesis by (simp add: aenter_nonce_failed)
    next
      case True
      with Inr Pair assms have
        "sent (snd (aenter w s)) = sent (snd (login_do_proof w s2))"
        by (simp add: aenter_proof split: prod.splits sum.splits)
      with proof_sent_cases [of w s2] Pair show ?thesis by auto
    qed
  qed
qed

lemma init_simps:
  "async_ctxmgr (init pw un) = None" "sent (init pw un) = []" "password (init pw un) = pw"
  "logged_in (init pw un) = False"
  "secrets (init pw un) ''username'' =
     Some (PStr (case un of None \<Rightarrow> ''admin'' | Some u \<Rightarrow> if u = [] then ''admin'' else u))"
  "secrets (init pw un) ''password'' = Some (PStr pw)"
  by (simp_all add: init_def)

text \<open>The nonce request of a handshake on a new object.\<close>

lemma handshake_nonce_request:
  assumes "login_do_csrf w ((init pw un)\<lparr>async_ctxmgr := Some True\<rparr>) = (Inr True, s1)"
  shows "\<exists>cp ct rest.
     secrets s1 ''csrf_param'' = Some cp \<and> secrets s1 ''csrf_token'' = Some ct
     \<and> secrets s1 ''username'' =
         Some (PStr (case un of None \<Rightarrow> ''admin'' | Some u \<Rightarrow> if u = [] then ''admin'' else u))
     \<and> sent s1 = [GET ''/html/index.html'']
     \<and> sent (snd (login_do_nonce w s1)) =
         [GET ''/html/index.html'',
          POST ''/api/system/user_login_nonce''
            [(''csrf'', [(''csrf_param'', cp), (''csrf_token'', ct)]),
             (''data'', [(''username'', PStr (case un of None \<Rightarrow> ''admin''
                                             | Some u \<Rightarrow> if u = [] then ''admin'' else u)),
                         (''firstnonce'', PStr (firstnonce (urandom16 w)))])]]
     \<and> sent (snd (aenter w (init pw un))) = sent (snd (login_do_nonce w s1)) @ rest
     \<and> (rest = [] \<or> (\<exists>data. rest = [POST ''/api/system/user_login_proof'' data]))"
proof -
  from assms obtain page groups where
    s1: "s1 = (init pw un)\<lparr>async_ctxmgr := Some True\<rparr>
           \<lparr>sent := sent ((init pw un)\<lparr>async_ctxmgr := Some True\<rparr>) @ [GET ''/html/index.html''],
            secrets := secrets ((init pw un)\<lparr>async_ctxmgr := Some True\<rparr>)
               ++ [''csrf_param'' \<mapsto> PStr (groups ! 0), ''csrf_token'' \<mapsto> PStr (groups ! 1)]\<rparr>"
    by (rule csrf_True_E)
  have k: "secrets s1 ''csrf_param'' = Some (PStr (groups ! 0))"
    "secrets s1 ''csrf_token'' = Some (PStr (groups ! 1))"
    "secrets s1 ''username'' =
         Some (PStr (case un of None \<Rightarrow> ''admin'' | Some u \<Rightarrow> if u = [] then ''admin'' else u))"
    "sent s1 = [GET ''/html/index.html'']"
    by (simp_all add: s1 init_def)
  from aenter_sent_after_csrf [OF init_simps(1) assms] obtain rest where
    "sent (snd (aenter w (init pw un))) = sent (snd (login_do_nonce w s1)) @ rest"
    "rest = [] \<or> (\<exists>data. rest = [POST ''/api/system/user_login_proof'' data])"
    by blast
  with k nonce_sent [OF k(1) k(2) k(3), of w] show ?thesis by simp
qed


subsection \<open>The runs of the state machine\<close>

lemma trace_final: "step w c = None \<Longrightarrow> trace w c = [c]"
  by (subst trace.simps) simp

lemma trace_step: "step w c = Some c' \<Longrightarrow> trace w c = c # trace w c'"
  by (subst trace.simps) simp

lemma trace_ends:
  "trace w (FAILED, s) = [(FAILED, s)]" "trace w (RAISED e, s) = [(RAISED e, s)]"
  "trace w (PROOF_OK, s) = [(PROOF_OK, s)]"
  by (simp_all add: trace_final)

lemma trace_after_proof:
  "trace w (after_stage PROOF_OK r) = [after_stage PROOF_OK r]"
  by (cases r; cases "fst r") (auto simp add: after_stage_def trace_ends)

lemma trace_from_nonce_ok:
  "trace w (NONCE_OK, s) = [(NONCE_OK, s), after_stage PROOF_OK (login_do_proof w s)]"
  by (subst trace.simps) (simp add: trace_after_proof)

lemma trace_from_csrf_ok:
  "trace w (CSRF_OK, s) = (CSRF_OK, s) #
     (case login_do_nonce w s of
        (Inl e, s2) \<Rightarrow> [(RAISED e, s2)]
      | (Inr b, s2) \<Rightarrow> if b then trace w (NONCE_OK, s2) else [(FAILED, s2)])"
  by (subst trace.simps) (simp add: after_stage_def trace_ends split: prod.splits sum.splits)

lemma trace_from_init:
  "trace w (INIT, s) = (INIT, s) #
     (case login_do_csrf w s of
        (Inl e, s1) \<Rightarrow> [(RAISED e, s1)]
      | (Inr b, s1) \<Rightarrow> if b then trace w (CSRF_OK, s1) else [(FAILED, s1)])"
  by (subst trace.simps) (simp add: after_stage_def trace_ends split: prod.splits sum.splits)

text \<open>The state machine and \<^verbatim>\<open>__aenter__\<close> agree.\<close>

lemma aenter_outcome:
  "async_ctxmgr s = None \<Longrightarrow>
   aenter w s = outcome (last (trace w (INIT, s\<lparr>async_ctxmgr := Some True\<rparr>)))"
  by (simp add: aenter_def or_raise_def trace_from_init trace_from_csrf_ok trace_from_nonce_ok
      after_stage_def split: prod.splits sum.splits)

text \<open>The proof stage executes exactly when the two stages before it have returned true.\<close>

lemma nonce_ok_iff:
  "(NONCE_OK, s2) \<in> set (trace w (INIT, s)) \<longleftrightarrow>
     (\<exists>s1. login_do_csrf w s = (Inr True, s1) \<and> login_do_nonce w s1 = (Inr True, s2))"
proof (cases "login_do_csrf w s")
  case c: (Pair r1 s1)
  show ?thesis
  proof (cases r1)
    case (Inl e)
    with c show ?thesis by (simp add: trace_from_init)
  next
    case r1: (Inr b1)
    show ?thesis
    proof (cases b1)
      case False
      with c r1 show ?thesis by (simp add: trace_from_init)
    next
      case b1: True
      show ?thesis
      proof (cases "login_do_nonce w s1")
        case n: (Pair r2 s2')
        show ?thesis
        proof (cases r2)
          case (Inl e)
          with c r1 b1 n show ?thesis by (simp add: trace_from_init trace_from_csrf_ok)
        next
          case r2: (Inr b2)
          show ?thesis
          proof (cases b2)
            case False
            with c r1 b1 n r2 show ?thesis by (simp add: trace_from_init trace_from_csrf_ok)
          next
            case True
            have "(NONCE_OK, s2) \<noteq> after_stage PROOF_OK r" for r
              by (cases r; cases "fst r") (auto simp add: after_stage_def)
            with c r1 b1 n r2 True show ?thesis
              by (auto simp add: trace_from_init trace_from_csrf_ok trace_from_nonce_ok)
          qed
        qed
      qed
    qed
  qed
qed

section \<open>The proof computation\<close>

subsection \<open>When the computation succeeds\<close>

lemma proof_locals_eq:
  assumes "secrets s ''salt'' = Some salt" and "bytes_fromhex salt = Inr sb"
    and "secrets s ''iterations'' = Some it" and "iterations_arg it = Inr c"
    and "secrets s ''firstnonce'' = Some fn" and "secrets s ''servernonce'' = Some sn"
    and "encode_ascii (py_format fn @ '','' @ py_format sn @ '','' @ py_format sn) = Inr am"
  shows "proof_locals s =
    Inr \<lparr>salted_password = pbkdf2_hmac_sha256 (encode_utf8 (password s)) sb c 32,
         clientkey = hmac_new client_key_literal (pbkdf2_hmac_sha256 (encode_utf8 (password s)) sb c 32),
         storekey = sha256 (hmac_new client_key_literal (pbkdf2_hmac_sha256 (encode_utf8 (password s)) sb c 32)),
         authmsg = py_format fn @ '','' @ py_format sn @ '','' @ py_format sn,
         clientsig = hmac_new am
           (sha256 (hmac_new client_key_literal (pbkdf2_hmac_sha256 (encode_utf8 (password s)) sb c 32))),
         clientproof = bytes_hex (map (\<lambda>(p, q). p XOR q)
           (zip (hmac_new client_key_literal (pbkdf2_hmac_sha256 (encode_utf8 (password s)) sb c 32))
                (hmac_new am
                  (sha256 (hmac_new client_key_literal
                    (pbkdf2_hmac_sha256 (encode_utf8 (password s)) sb c 32))))))\<rparr>"
  using assms by (simp add: proof_locals_def and_then_def subscript_def pbkdf2_hmac_def Let_def)

lemma proof_locals_InrE:
  assumes "proof_locals s = Inr v"
  obtains salt sb it c fn sn am where
    "secrets s ''salt'' = Some salt" and "bytes_fromhex salt = Inr sb"
    and "secrets s ''iterations'' = Some it" and "iterations_arg it = Inr c"
    and "secrets s ''firstnonce'' = Some fn" and "secrets s ''servernonce'' = Some sn"
    and "encode_ascii (py_format fn @ '','' @ py_format sn @ '','' @ py_format sn) = Inr am"
  using assms
  by (auto simp add: proof_locals_def and_then_def subscript_def pbkdf2_hmac_def Let_def
      split: sum.splits option.splits)

subsection \<open>The example run\<close>

lemma example_search:
  "re_search csrf_pattern example_page =
     Some [''0123456789abcdef0123456789abcdef'', ''fedcba9876543210fedcba9876543210'']"
  by (simp add: csrf_pattern_def example_page_def is_word_def)

lemma uuid4_0: "uuid4 0 = 0x40008000000000000000"
  by (simp add: uuid4_def)

lemma upt_32: "[0..<32] = [0, 1, 2, 3, 4, 5, 6, 7, 8, 9, 10, 11, 12, 13, 14, 15, 16, 17, 18, 19,
    20, 21, 22, 23, 24, 25, 26, 27, 28, 29, 30, 31 :: nat]"
  by (simp add: upt_rec)

lemma uuid_hex_0: "uuid_hex 0x40008000000000000000 = ''00000000000040008000000000000000''"
  by (simp add: uuid_hex_def hexdigits_def upt_32)

lemma firstnonce_0:
  "firstnonce 0 = ''0000000000004000800000000000000000000000000040008000000000000000''"
  by (simp add: firstnonce_eq uuid4_0 uuid_hex_0)

lemma ex_utf8: "encode_utf8 ''password'' = [0x70, 0x61, 0x73, 0x73, 0x77, 0x6f, 0x72, 0x64]"
  by (simp add: encode_utf8_def utf8_char_def)

lemma ex_fromhex: "fromhex ''73616c74'' = Inr [0x73, 0x61, 0x6c, 0x74]"
  by (simp add: hexval_def isspace_def)

lemma ex_iterations: "iterations_arg (PInt 1) = Inr 1"
  by (simp add: c_iterations_def)

lemma ex_ascii:
  "encode_ascii ''0000000000004000800000000000000000000000000040008000000000000000,srv,srv'' =
     Inr [0x30, 0x30, 0x30, 0x30, 0x30, 0x30, 0x30, 0x30, 0x30, 0x30, 0x30, 0x30, 0x34, 0x30, 0x30, 0x30,
      0x38, 0x30, 0x30, 0x30, 0x30, 0x30, 0x30, 0x30, 0x30, 0x30, 0x30, 0x30, 0x30, 0x30, 0x30, 0x30,
      0x30, 0x30, 0x30, 0x30, 0x30, 0x30, 0x30, 0x30, 0x30, 0x30, 0x30, 0x30, 0x34, 0x30, 0x30, 0x30,
      0x38, 0x30, 0x30, 0x30, 0x30, 0x30, 0x30, 0x30, 0x30, 0x30, 0x30, 0x30, 0x30, 0x30, 0x30, 0x30,
      0x2c, 0x73, 0x72, 0x76, 0x2c, 0x73, 0x72, 0x76]"
  by (simp add: encode_ascii_def)

lemma ex_clientproof:
  "bytes_hex (map (\<lambda>(p, q). p XOR q) (zip
     [0x31, 0x6a, 0xe2, 0x56, 0x8c, 0xd0, 0x82, 0x5a, 0xec, 0x7c, 0x45, 0xfe, 0x89, 0x32, 0xd3, 0x2d,
      0x86, 0x29, 0xa9, 0xf8, 0xad, 0xa1, 0x59, 0xb9, 0x0a, 0x45, 0xe6, 0x78, 0x93, 0x6f, 0x36, 0x03]
     [0x61, 0x83, 0x72, 0x98, 0x08, 0x9b, 0x8d, 0x3a, 0x09, 0xa7, 0xa4, 0x0f, 0x33, 0x48, 0x71, 0xc2,
      0x23, 0x83, 0x39, 0x70, 0x68, 0xe8, 0xf5, 0x6c, 0x48, 0x18, 0xbb, 0x70, 0xac, 0x85, 0xd9, 0xd7]))
   = ''50e990ce844b0f60e5dbe1f1ba7aa2efa5aa9088c549acd5425d5d083feaefd4''"
  by (simp add: bytes_hex_def byte_hex_def hexdigits_def)

lemma example_locals: "proof_locals example_session = Inr example_vars"
proof -
  have 1: "secrets example_session ''salt'' = Some (PStr ''73616c74'')"
    and 2: "secrets example_session ''iterations'' = Some (PInt 1)"
    and 3: "secrets example_session ''firstnonce'' = Some (PStr (firstnonce 0))"
    and 4: "secrets example_session ''servernonce'' = Some (PStr ''srv'')"
    and 5: "password example_session = ''password''"
    by (simp_all add: example_session_def)
  have 6: "bytes_fromhex (PStr ''73616c74'') = Inr [0x73, 0x61, 0x6c, 0x74]"
    by (simp only: bytes_fromhex.simps ex_fromhex)
  have 7: "py_format (PStr (firstnonce 0)) @ '','' @ py_format (PStr ''srv'') @ '','' @ py_format (PStr ''srv'')
      = ''0000000000004000800000000000000000000000000040008000000000000000,srv,srv''"
    by (simp add: firstnonce_0)
  note e = proof_locals_eq [OF 1 6 2 ex_iterations 3 4 ex_ascii [folded 7]]
  show ?thesis
    unfolding e 5 7 ex_utf8 pbkdf2_password_salt_1 ex_clientkey ex_storekey ex_clientsig
      ex_clientproof example_vars_def ..
qed



subsection \<open>The example run, stage by stage\<close>

lemma example_csrf:
  "login_do_csrf example_world ((init ''password'' None)\<lparr>async_ctxmgr := Some True\<rparr>) =
     (Inr True,
      \<lparr>password = ''password'',
       secrets = [''username'' \<mapsto> PStr ''admin'', ''password'' \<mapsto> PStr ''password'',
                  ''csrf_param'' \<mapsto> PStr ''0123456789abcdef0123456789abcdef'',
                  ''csrf_token'' \<mapsto> PStr ''fedcba9876543210fedcba9876543210''],
       logged_in = False, async_ctxmgr = Some True, sent = [GET ''/html/index.html'']\<rparr>)"
proof -
  have "http_get example_world ''/html/index.html'' = Inr (200, example_page)"
    by (simp add: example_world_def router_def)
  from csrf_match [OF this example_search] show ?thesis
    by (simp add: init_def)
qed

lemma example_csrf_draw:
  "login_do_csrf (example_world\<lparr>urandom16 := r\<rparr>)
     ((init ''password'' None)\<lparr>async_ctxmgr := Some True\<rparr>) =
     (Inr True,
      \<lparr>password = ''password'',
       secrets = [''username'' \<mapsto> PStr ''admin'', ''password'' \<mapsto> PStr ''password'',
                  ''csrf_param'' \<mapsto> PStr ''0123456789abcdef0123456789abcdef'',
                  ''csrf_token'' \<mapsto> PStr ''fedcba9876543210fedcba9876543210''],
       logged_in = False, async_ctxmgr = Some True, sent = [GET ''/html/index.html'']\<rparr>)"
proof -
  have "http_get (example_world\<lparr>urandom16 := r\<rparr>) ''/html/index.html'' = Inr (200, example_page)"
    by (simp add: example_world_def router_def)
  from csrf_match [OF this example_search] show ?thesis
    by (simp add: init_def)
qed

lemma example_proof_data: "proof_data example_session = Inr example_proof_data"
proof -
  have "secrets example_session ''csrf_param'' = Some (PStr ''0123456789abcdef0123456789abcdef'')"
    and "secrets example_session ''csrf_token'' = Some (PStr ''fedcba9876543210fedcba9876543210'')"
    and "secrets example_session ''servernonce'' = Some (PStr ''srv'')"
    by (simp_all add: example_session_def)
  from proof_data_eq [OF example_locals this] show ?thesis
    by (simp add: example_proof_data_def example_vars_def)
qed

lemma example_nonce:
  "login_do_nonce example_world
      \<lparr>password = ''password'',
       secrets = [''username'' \<mapsto> PStr ''admin'', ''password'' \<mapsto> PStr ''password'',
                  ''csrf_param'' \<mapsto> PStr ''0123456789abcdef0123456789abcdef'',
                  ''csrf_token'' \<mapsto> PStr ''fedcba9876543210fedcba9876543210''],
       logged_in = False, async_ctxmgr = Some True, sent = [GET ''/html/index.html'']\<rparr>
   = (Inr True, example_session)"
proof -
  let ?s = "\<lparr>password = ''password'',
       secrets = [''username'' \<mapsto> PStr ''admin'', ''password'' \<mapsto> PStr ''password'',
                  ''csrf_param'' \<mapsto> PStr ''0123456789abcdef0123456789abcdef'',
                  ''csrf_token'' \<mapsto> PStr ''fedcba9876543210fedcba9876543210''],
       logged_in = False, async_ctxmgr = Some True, sent = [GET ''/html/index.html'']\<rparr>"
  have k: "secrets ?s ''csrf_param'' = Some (PStr ''0123456789abcdef0123456789abcdef'')"
    "secrets ?s ''csrf_token'' = Some (PStr ''fedcba9876543210fedcba9876543210'')"
    "secrets ?s ''username'' = Some (PStr ''admin'')"
    by simp_all
  have n: "no_error example_nonce_reply"
    by (simp add: no_error_def example_nonce_reply_def dict_get_def)
  have m: "[''username'' \<mapsto> PStr ''admin'', ''password'' \<mapsto> PStr ''password'',
                  ''csrf_param'' \<mapsto> PStr ''0123456789abcdef0123456789abcdef'',
                  ''csrf_token'' \<mapsto> PStr ''fedcba9876543210fedcba9876543210'',
                  ''firstnonce'' \<mapsto> PStr (firstnonce 0)] ++ example_nonce_reply
       = [''username'' \<mapsto> PStr ''admin'', ''password'' \<mapsto> PStr ''password'',
                 ''csrf_param'' \<mapsto> PStr ''0123456789abcdef0123456789abcdef'',
                 ''csrf_token'' \<mapsto> PStr ''fedcba9876543210fedcba9876543210'',
                 ''firstnonce'' \<mapsto> PStr (firstnonce 0),
                 ''salt'' \<mapsto> PStr ''73616c74'', ''iterations'' \<mapsto> PInt 1,
                 ''servernonce'' \<mapsto> PStr ''srv'']"
    by (simp add: example_nonce_reply_def)
  show ?thesis
    unfolding nonce_stage [OF k]
    by (simp add: example_world_def router_def n m example_session_def)
qed

lemma example_proof:
  "login_do_proof example_world example_session =
     (Inr True, example_session\<lparr>sent := sent example_session @
        [POST ''/api/system/user_login_proof'' example_proof_data]\<rparr>)"
  unfolding proof_stage [OF example_proof_data]
  by (simp add: example_world_def router_def no_error_def dict_get_def)

lemma example_aenter:
  "aenter example_world (init ''password'' None) =
     (Inr (), example_session\<lparr>sent := sent example_session @
        [POST ''/api/system/user_login_proof'' example_proof_data], logged_in := True\<rparr>)"
  by (simp add: aenter_proof [OF init_simps(1) example_csrf example_nonce] example_proof)

subsection \<open>The request of the proof stage\<close>

lemma proof_request:
  assumes "proof_data s = Inr data"
  obtains v salt sb it c fn sn am cp ct where
    "proof_locals s = Inr v"
    and "secrets s ''salt'' = Some salt" and "bytes_fromhex salt = Inr sb"
    and "secrets s ''iterations'' = Some it" and "iterations_arg it = Inr c"
    and "secrets s ''firstnonce'' = Some fn" and "secrets s ''servernonce'' = Some sn"
    and "secrets s ''csrf_param'' = Some cp" and "secrets s ''csrf_token'' = Some ct"
    and "salted_password v = pbkdf2_hmac_sha256 (encode_utf8 (password s)) sb c 32"
    and "clientkey v = hmac_new client_key_literal (salted_password v)"
    and "storekey v = sha256 (clientkey v)"
    and "authmsg v = py_format fn @ '','' @ py_format sn @ '','' @ py_format sn"
    and "encode_ascii (authmsg v) = Inr am"
    and "clientsig v = hmac_new am (storekey v)"
    and "clientproof v = bytes_hex (map (\<lambda>(p, q). p XOR q) (zip (clientkey v) (clientsig v)))"
    and "data = [(''csrf'', [(''csrf_param'', cp), (''csrf_token'', ct)]),
                 (''data'', [(''clientproof'', PStr (clientproof v)), (''finalnonce'', sn)])]"
    and "sent (snd (login_do_proof w s)) = sent s @ [POST ''/api/system/user_login_proof'' data]"
proof -
  from assms obtain v cp ct sn' where d: "proof_locals s = Inr v"
    "secrets s ''csrf_param'' = Some cp" "secrets s ''csrf_token'' = Some ct"
    "secrets s ''servernonce'' = Some sn'"
    "data = [(''csrf'', [(''csrf_param'', cp), (''csrf_token'', ct)]),
         (''data'', [(''clientproof'', PStr (clientproof v)), (''finalnonce'', sn')])]"
    by (rule proof_data_InrE)
  from d(1) obtain salt sb it c fn sn am where h:
    "secrets s ''salt'' = Some salt" "bytes_fromhex salt = Inr sb"
    "secrets s ''iterations'' = Some it" "iterations_arg it = Inr c"
    "secrets s ''firstnonce'' = Some fn" "secrets s ''servernonce'' = Some sn"
    "encode_ascii (py_format fn @ '','' @ py_format sn @ '','' @ py_format sn) = Inr am"
    by (rule proof_locals_InrE)
  from proof_locals_eq [OF h] d(1) h(7)
  have "salted_password v = pbkdf2_hmac_sha256 (encode_utf8 (password s)) sb c 32"
    and "clientkey v = hmac_new client_key_literal (salted_password v)"
    and "storekey v = sha256 (clientkey v)"
    and "authmsg v = py_format fn @ '','' @ py_format sn @ '','' @ py_format sn"
    and "encode_ascii (authmsg v) = Inr am"
    and "clientsig v = hmac_new am (storekey v)"
    and "clientproof v = bytes_hex (map (\<lambda>(p, q). p XOR q) (zip (clientkey v) (clientsig v)))"
    by auto
  moreover from d(4,5) h(6) have
    "data = [(''csrf'', [(''csrf_param'', cp), (''csrf_token'', ct)]),
                 (''data'', [(''clientproof'', PStr (clientproof v)), (''finalnonce'', sn)])]"
    by simp
  ultimately show ?thesis
    using that [OF d(1) h(1-6) d(2,3)] proof_sent [OF assms, of w] by blast
qed


subsection \<open>Runs with other routers\<close>

lemma init_example:
  "(init ''password'' None)\<lparr>async_ctxmgr := Some True\<rparr> =
     \<lparr>password = ''password'',
      secrets = [''username'' \<mapsto> PStr ''admin'', ''password'' \<mapsto> PStr ''password''],
      logged_in = False, async_ctxmgr = Some True, sent = []\<rparr>"
  by (simp add: init_def)

lemma router_simps:
  "http_get (router st page nst reply) path = Inr (st, page)"
  "http_post (router st page nst reply) ''/api/system/user_login_nonce'' body = Inr (nst, Inr (Dict reply))"
  "http_post (router st page nst reply) ''/api/system/user_login_proof'' body
     = Inr (200, Inr (Dict Map.empty))"
  "urandom16 (router st page nst reply) = 0"
  by (simp_all add: router_def)

lemma router_csrf:
  "login_do_csrf (router 200 example_page nst reply)
     ((init ''password'' None)\<lparr>async_ctxmgr := Some True\<rparr>) = (Inr True, example_after_csrf)"
  by (simp add: csrf_match [OF router_simps(1) example_search] init_def example_after_csrf_def)

lemma router_csrf_not_200:
  "st \<noteq> 200 \<Longrightarrow>
   login_do_csrf (router st page nst reply) ((init ''password'' None)\<lparr>async_ctxmgr := Some True\<rparr>) =
     (Inr False, \<lparr>password = ''password'',
      secrets = [''username'' \<mapsto> PStr ''admin'', ''password'' \<mapsto> PStr ''password''],
      logged_in = False, async_ctxmgr = Some True, sent = [GET ''/html/index.html'']\<rparr>)"
  by (simp add: csrf_not_200 [OF router_simps(1)] init_def)

lemma search_page_without_token: "re_search csrf_pattern page_without_token = None"
  by (simp add: csrf_pattern_def page_without_token_def is_word_def)

lemma after_csrf_keys:
  "secrets example_after_csrf ''csrf_param'' = Some (PStr ''0123456789abcdef0123456789abcdef'')"
  "secrets example_after_csrf ''csrf_token'' = Some (PStr ''fedcba9876543210fedcba9876543210'')"
  "secrets example_after_csrf ''username'' = Some (PStr ''admin'')"
  by (simp_all add: example_after_csrf_def)

lemma router_nonce:
  "login_do_nonce (router st page nst reply) example_after_csrf =
     (Inr (nst = 200 \<and> no_error reply),
      example_after_nonce (if nst = 200 \<and> no_error reply then reply else Map.empty))"
  unfolding nonce_stage [OF after_csrf_keys]
  by (simp add: router_simps example_after_csrf_def example_after_nonce_def)


subsection \<open>When the nonce stage succeeds\<close>

lemma nonce_True_E:
  assumes "secrets s ''csrf_param'' = Some cp" and "secrets s ''csrf_token'' = Some ct"
    and "secrets s ''username'' = Some un"
    and "login_do_nonce w s = (Inr True, s2)"
  obtains d where
    "http_post w ''/api/system/user_login_nonce''
       [(''csrf'', [(''csrf_param'', cp), (''csrf_token'', ct)]),
        (''data'', [(''username'', un), (''firstnonce'', PStr (firstnonce (urandom16 w)))])]
     = Inr (200, Inr (Dict d))"
    and "no_error d"
    and "s2 = s\<lparr>secrets := (secrets s)(''firstnonce'' \<mapsto> PStr (firstnonce (urandom16 w))) ++ d,
               sent := sent s @ [POST ''/api/system/user_login_nonce''
       [(''csrf'', [(''csrf_param'', cp), (''csrf_token'', ct)]),
        (''data'', [(''username'', un), (''firstnonce'', PStr (firstnonce (urandom16 w)))])]]\<rparr>"
  using assms(4) unfolding nonce_stage [OF assms(1-3)]
  by (auto split: sum.splits prod.splits decoded.splits if_splits)

lemma nonce_True_iff:
  assumes "secrets s ''csrf_param'' = Some cp" and "secrets s ''csrf_token'' = Some ct"
    and "secrets s ''username'' = Some un"
  shows "fst (login_do_nonce w s) = Inr True \<longleftrightarrow>
    (\<exists>d. http_post w ''/api/system/user_login_nonce''
       [(''csrf'', [(''csrf_param'', cp), (''csrf_token'', ct)]),
        (''data'', [(''username'', un), (''firstnonce'', PStr (firstnonce (urandom16 w)))])]
     = Inr (200, Inr (Dict d)) \<and> no_error d)"
  unfolding nonce_stage [OF assms]
  by (auto split: sum.splits prod.splits decoded.splits if_splits)

lemma nonce_error_reply:
  assumes "secrets s ''csrf_param'' = Some cp" and "secrets s ''csrf_token'' = Some ct"
    and "secrets s ''username'' = Some un"
    and "http_post w ''/api/system/user_login_nonce''
       [(''csrf'', [(''csrf_param'', cp), (''csrf_token'', ct)]),
        (''data'', [(''username'', un), (''firstnonce'', PStr (firstnonce (urandom16 w)))])]
     = Inr (st, Inr (Dict d))"
    and "\<not> no_error d"
  shows "login_do_nonce w s =
    (Inr False, s\<lparr>secrets := (secrets s)(''firstnonce'' \<mapsto> PStr (firstnonce (urandom16 w))),
               sent := sent s @ [POST ''/api/system/user_login_nonce''
       [(''csrf'', [(''csrf_param'', cp), (''csrf_token'', ct)]),
        (''data'', [(''username'', un), (''firstnonce'', PStr (firstnonce (urandom16 w)))])]]\<rparr>)"
  unfolding nonce_stage [OF assms(1-3)] using assms(4,5) by simp

lemma proof_locals_cong:
  assumes "password s = password s'" and "secrets s ''salt'' = secrets s' ''salt''"
    and "secrets s ''iterations'' = secrets s' ''iterations''"
    and "secrets s ''firstnonce'' = secrets s' ''firstnonce''"
    and "secrets s ''servernonce'' = secrets s' ''servernonce''"
  shows "proof_locals s = proof_locals s'"
  using assms by (simp add: proof_locals_def subscript_def)

lemma proof_data_cong:
  assumes "password s = password s'" and "secrets s ''salt'' = secrets s' ''salt''"
    and "secrets s ''iterations'' = secrets s' ''iterations''"
    and "secrets s ''firstnonce'' = secrets s' ''firstnonce''"
    and "secrets s ''servernonce'' = secrets s' ''servernonce''"
    and "secrets s ''csrf_param'' = secrets s' ''csrf_param''"
    and "secrets s ''csrf_token'' = secrets s' ''csrf_token''"
  shows "proof_data s = proof_data s'"
  using assms proof_locals_cong [OF assms(1-5)] by (simp add: proof_data_def subscript_def)

lemma proof_data_needs:
  assumes "secrets s ''salt'' = None \<or> secrets s ''iterations'' = None
     \<or> secrets s ''firstnonce'' = None \<or> secrets s ''servernonce'' = None"
  shows "\<exists>e. proof_data s = Inl e \<and> login_do_proof w s = (Inl e, s)"
proof (cases "proof_data s")
  case (Inl e)
  then show ?thesis by (simp add: proof_raised_before_request)
next
  case (Inr data)
  then obtain v where "proof_locals s = Inr v" by (rule proof_data_InrE)
  then obtain salt it fn sn where "secrets s ''salt'' = Some salt" "secrets s ''iterations'' = Some it"
    "secrets s ''firstnonce'' = Some fn" "secrets s ''servernonce'' = Some sn"
    by (rule proof_locals_InrE)
  with assms show ?thesis by auto
qed

lemma proof_without_salt:
  "secrets s ''salt'' = None \<Longrightarrow> login_do_proof w s = (Inl (KeyError ''salt''), s)"
  by (simp add: login_do_proof_def proof_data_def proof_locals_def and_then_def or_raise_def
      subscript_def)

lemma after_nonce_empty:
  "secrets (example_after_nonce Map.empty) ''salt'' = None"
  "secrets (example_after_nonce Map.empty) ''iterations'' = None"
  "secrets (example_after_nonce Map.empty) ''servernonce'' = None"
  by (simp_all add: example_after_nonce_def)

section \<open>The client nonce of a handshake\<close>

text \<open>
  Claim C10. In every handshake attempt on a new object whose CSRF stage
  succeeds, so that the nonce stage runs, the client nonce that
  \<^verbatim>\<open>login_do_nonce\<close> generates and sends is \<open>h @ h\<close>, where \<open>h\<close> is the text of one
  UUID4: \<open>h\<close> has 32 hexadecimal digits, the number they denote is the UUID
  made from the 16 random bytes of this attempt, and its version field is 4 and
  its variant field is binary 10 (the digit at index 12 is \<open>4\<close>, the digit at
  index 16 one of \<open>8\<close>, \<open>9\<close>, \<open>a\<close>, \<open>b\<close>). The nonce has 64 characters, and its
  first 32 and its last 32 characters are both \<open>h\<close>. The nonce request, the
  second request of the handshake, carries that nonce.
\<close>

theorem client_nonce_is_uuid4_twice:
  assumes "login_do_csrf w ((init pw un)\<lparr>async_ctxmgr := Some True\<rparr>) = (Inr True, s1)"
  shows "\<exists>h cp ct u rest.
     h = uuid_hex (uuid4 (urandom16 w))
     \<and> length h = 32 \<and> list_all is_hexdigit h
     \<and> hex_value h = unat (uuid4 (urandom16 w))
     \<and> drop_bit 76 (uuid4 (urandom16 w)) AND 15 = 4
     \<and> drop_bit 62 (uuid4 (urandom16 w)) AND 3 = 2
     \<and> h ! 12 = CHR ''4'' \<and> h ! 16 \<in> set ''89ab''
     \<and> firstnonce (urandom16 w) = h @ h
     \<and> length (firstnonce (urandom16 w)) = 64
     \<and> take 32 (firstnonce (urandom16 w)) = h \<and> drop 32 (firstnonce (urandom16 w)) = h
     \<and> take 32 (firstnonce (urandom16 w)) = drop 32 (firstnonce (urandom16 w))
     \<and> secrets s1 ''csrf_param'' = Some cp \<and> secrets s1 ''csrf_token'' = Some ct
     \<and> secrets s1 ''username'' = Some u
     \<and> sent (snd (login_do_nonce w s1)) =
         [GET ''/html/index.html'',
          POST ''/api/system/user_login_nonce''
            [(''csrf'', [(''csrf_param'', cp), (''csrf_token'', ct)]),
             (''data'', [(''username'', u), (''firstnonce'', PStr (h @ h))])]]
     \<and> sent (snd (aenter w (init pw un))) =
         GET ''/html/index.html'' #
         POST ''/api/system/user_login_nonce''
            [(''csrf'', [(''csrf_param'', cp), (''csrf_token'', ct)]),
             (''data'', [(''username'', u), (''firstnonce'', PStr (h @ h))])] # rest"
proof -
  from handshake_nonce_request [OF assms] obtain cp ct rest where
    r: "secrets s1 ''csrf_param'' = Some cp" "secrets s1 ''csrf_token'' = Some ct"
       "secrets s1 ''username'' =
         Some (PStr (case un of None \<Rightarrow> ''admin'' | Some u \<Rightarrow> if u = [] then ''admin'' else u))"
       "sent (snd (login_do_nonce w s1)) =
         [GET ''/html/index.html'',
          POST ''/api/system/user_login_nonce''
            [(''csrf'', [(''csrf_param'', cp), (''csrf_token'', ct)]),
             (''data'', [(''username'', PStr (case un of None \<Rightarrow> ''admin''
                                             | Some u \<Rightarrow> if u = [] then ''admin'' else u)),
                         (''firstnonce'', PStr (firstnonce (urandom16 w)))])]]"
       "sent (snd (aenter w (init pw un))) = sent (snd (login_do_nonce w s1)) @ rest"
    by blast
  show ?thesis
    using r
    by (simp add: firstnonce_eq length_uuid_hex hexdigits_uuid_hex hex_value_uuid_hex
        uuid4_version uuid4_variant uuid_hex_version uuid_hex_variant [simplified])
qed

theorem client_nonce_is_uuid4_twice_example:
  "login_do_csrf example_world ((init ''password'' None)\<lparr>async_ctxmgr := Some True\<rparr>) =
     (Inr True,
      \<lparr>password = ''password'',
       secrets = [''username'' \<mapsto> PStr ''admin'', ''password'' \<mapsto> PStr ''password'',
                  ''csrf_param'' \<mapsto> PStr ''0123456789abcdef0123456789abcdef'',
                  ''csrf_token'' \<mapsto> PStr ''fedcba9876543210fedcba9876543210''],
       logged_in = False, async_ctxmgr = Some True, sent = [GET ''/html/index.html'']\<rparr>)
   \<and> sent (snd (login_do_nonce example_world
      \<lparr>password = ''password'',
       secrets = [''username'' \<mapsto> PStr ''admin'', ''password'' \<mapsto> PStr ''password'',
                  ''csrf_param'' \<mapsto> PStr ''0123456789abcdef0123456789abcdef'',
                  ''csrf_token'' \<mapsto> PStr ''fedcba9876543210fedcba9876543210''],
       logged_in = False, async_ctxmgr = Some True, sent = [GET ''/html/index.html'']\<rparr>)) =
     [GET ''/html/index.html'',
      POST ''/api/system/user_login_nonce''
        [(''csrf'', [(''csrf_param'', PStr ''0123456789abcdef0123456789abcdef''),
                     (''csrf_token'', PStr ''fedcba9876543210fedcba9876543210'')]),
         (''data'', [(''username'', PStr ''admin''),
                     (''firstnonce'', PStr (''00000000000040008000000000000000'' @
                                            ''00000000000040008000000000000000''))])]]"
proof -
  have r: "urandom16 example_world = 0"
    by (simp add: example_world_def router_def)
  from client_nonce_is_uuid4_twice [OF example_csrf] show ?thesis
    unfolding r uuid4_0 uuid_hex_0 by (simp add: example_csrf)
qed


lemma firstnonce_eq_iff:
  "firstnonce r = firstnonce r' \<longleftrightarrow> r AND uuid4_kept = r' AND uuid4_kept"
proof -
  have "firstnonce r = firstnonce r' \<longleftrightarrow> uuid4 r = uuid4 r'"
    by (auto simp add: firstnonce_eq length_uuid_hex dest: uuid_hex_inj)
  then show ?thesis by (simp add: uuid4_eq_iff)
qed

text \<open>
  The random draws \<open>0\<close> and \<open>2\<^sup>7\<^sup>6\<close> differ, and differ only in a bit of the version
  field, which \<open>uuid4\<close> overwrites: both give the same client nonce. The map from
  the 128 random bits to the nonce is not injective, so the nonce does not carry
  128 bits of randomness.
\<close>

theorem firstnonce_collision:
  "(0 :: 128 word) \<noteq> push_bit 76 1 \<and> firstnonce 0 = firstnonce (push_bit 76 1)"
  by (simp add: firstnonce_def uuid4_def)

text \<open>
  Claim C7, as amended. Take two handshake attempts on new objects whose CSRF
  stages succeed, so that their nonce stages run. The client nonce that
  \<^verbatim>\<open>login_do_nonce\<close> generates and sends in each attempt is a string of 64
  hexadecimal digits: the text \<open>h\<close> of 32 hexadecimal digits of one version 4
  UUID, written twice. The number \<open>h\<close> denotes is that UUID; six of its 128 bits
  are the fixed fields (the version field, 4 bits, is 4; the variant field, 2
  bits, is binary 10), and on the other 122 bits it agrees with the 16 random
  bytes of the attempt. So the nonce carries 122 random bits, not 128: the
  nonces of the two attempts are equal if and only if the two random draws
  agree on those 122 bits.
\<close>

theorem client_nonce_entropy:
  assumes "login_do_csrf w ((init pw un)\<lparr>async_ctxmgr := Some True\<rparr>) = (Inr True, s)"
    and "login_do_csrf w' ((init pw' un')\<lparr>async_ctxmgr := Some True\<rparr>) = (Inr True, s')"
  shows "\<exists>n h c u rest n' h' c' u' rest'.
     sent (snd (login_do_nonce w s)) =
       [GET ''/html/index.html'',
        POST ''/api/system/user_login_nonce''
          [(''csrf'', c), (''data'', [(''username'', u), (''firstnonce'', PStr n)])]]
     \<and> sent (snd (aenter w (init pw un))) = sent (snd (login_do_nonce w s)) @ rest
     \<and> sent (snd (login_do_nonce w' s')) =
       [GET ''/html/index.html'',
        POST ''/api/system/user_login_nonce''
          [(''csrf'', c'), (''data'', [(''username'', u'), (''firstnonce'', PStr n')])]]
     \<and> sent (snd (aenter w' (init pw' un'))) = sent (snd (login_do_nonce w' s')) @ rest'
     \<and> n = firstnonce (urandom16 w) \<and> n' = firstnonce (urandom16 w')
     \<and> length n = 64 \<and> list_all is_hexdigit n \<and> length n' = 64 \<and> list_all is_hexdigit n'
     \<and> n = h @ h \<and> length h = 32 \<and> hex_value h = unat (uuid4 (urandom16 w))
     \<and> n' = h' @ h' \<and> length h' = 32 \<and> hex_value h' = unat (uuid4 (urandom16 w'))
     \<and> drop_bit 76 (uuid4 (urandom16 w)) AND 15 = 4
     \<and> drop_bit 62 (uuid4 (urandom16 w)) AND 3 = 2
     \<and> drop_bit 76 (uuid4 (urandom16 w')) AND 15 = 4
     \<and> drop_bit 62 (uuid4 (urandom16 w')) AND 3 = 2
     \<and> uuid4 (urandom16 w) AND uuid4_kept = urandom16 w AND uuid4_kept
     \<and> uuid4 (urandom16 w') AND uuid4_kept = urandom16 w' AND uuid4_kept
     \<and> {i. bit uuid4_kept i} = {..<128} - {62, 63, 76, 77, 78, 79}
     \<and> card {i. bit uuid4_kept i} = 122
     \<and> (n = n' \<longleftrightarrow> urandom16 w AND uuid4_kept = urandom16 w' AND uuid4_kept)"
proof -
  from handshake_nonce_request [OF assms(1)] obtain cp ct rest where
    r: "sent (snd (login_do_nonce w s)) =
         [GET ''/html/index.html'',
          POST ''/api/system/user_login_nonce''
            [(''csrf'', [(''csrf_param'', cp), (''csrf_token'', ct)]),
             (''data'', [(''username'', PStr (case un of None \<Rightarrow> ''admin''
                                             | Some u \<Rightarrow> if u = [] then ''admin'' else u)),
                         (''firstnonce'', PStr (firstnonce (urandom16 w)))])]]"
       "sent (snd (aenter w (init pw un))) = sent (snd (login_do_nonce w s)) @ rest"
    by blast
  from handshake_nonce_request [OF assms(2)] obtain cp' ct' rest' where
    r': "sent (snd (login_do_nonce w' s')) =
         [GET ''/html/index.html'',
          POST ''/api/system/user_login_nonce''
            [(''csrf'', [(''csrf_param'', cp'), (''csrf_token'', ct')]),
             (''data'', [(''username'', PStr (case un' of None \<Rightarrow> ''admin''
                                             | Some u \<Rightarrow> if u = [] then ''admin'' else u)),
                         (''firstnonce'', PStr (firstnonce (urandom16 w')))])]]"
       "sent (snd (aenter w' (init pw' un'))) = sent (snd (login_do_nonce w' s')) @ rest'"
    by blast
  have a: "length (firstnonce r) = 64" "list_all is_hexdigit (firstnonce r)"
    "firstnonce r = uuid_hex (uuid4 r) @ uuid_hex (uuid4 r)" for r
    by (simp_all add: firstnonce_eq length_uuid_hex hexdigits_uuid_hex)
  define n h c u where "n = firstnonce (urandom16 w)" and "h = uuid_hex (uuid4 (urandom16 w))"
    and "c = [(''csrf_param'', cp), (''csrf_token'', ct)]"
    and "u = PStr (case un of None \<Rightarrow> ''admin'' | Some u \<Rightarrow> if u = [] then ''admin'' else u)"
  define n' h' c' u' where "n' = firstnonce (urandom16 w')" and "h' = uuid_hex (uuid4 (urandom16 w'))"
    and "c' = [(''csrf_param'', cp'), (''csrf_token'', ct')]"
    and "u' = PStr (case un' of None \<Rightarrow> ''admin'' | Some u \<Rightarrow> if u = [] then ''admin'' else u)"
  have big: "sent (snd (login_do_nonce w s)) =
       [GET ''/html/index.html'',
        POST ''/api/system/user_login_nonce''
          [(''csrf'', c), (''data'', [(''username'', u), (''firstnonce'', PStr n)])]]
     \<and> sent (snd (aenter w (init pw un))) = sent (snd (login_do_nonce w s)) @ rest
     \<and> sent (snd (login_do_nonce w' s')) =
       [GET ''/html/index.html'',
        POST ''/api/system/user_login_nonce''
          [(''csrf'', c'), (''data'', [(''username'', u'), (''firstnonce'', PStr n')])]]
     \<and> sent (snd (aenter w' (init pw' un'))) = sent (snd (login_do_nonce w' s')) @ rest'
     \<and> n = firstnonce (urandom16 w) \<and> n' = firstnonce (urandom16 w')
     \<and> length n = 64 \<and> list_all is_hexdigit n \<and> length n' = 64 \<and> list_all is_hexdigit n'
     \<and> n = h @ h \<and> length h = 32 \<and> hex_value h = unat (uuid4 (urandom16 w))
     \<and> n' = h' @ h' \<and> length h' = 32 \<and> hex_value h' = unat (uuid4 (urandom16 w'))
     \<and> drop_bit 76 (uuid4 (urandom16 w)) AND 15 = 4
     \<and> drop_bit 62 (uuid4 (urandom16 w)) AND 3 = 2
     \<and> drop_bit 76 (uuid4 (urandom16 w')) AND 15 = 4
     \<and> drop_bit 62 (uuid4 (urandom16 w')) AND 3 = 2
     \<and> uuid4 (urandom16 w) AND uuid4_kept = urandom16 w AND uuid4_kept
     \<and> uuid4 (urandom16 w') AND uuid4_kept = urandom16 w' AND uuid4_kept
     \<and> {i. bit uuid4_kept i} = {..<128} - {62, 63, 76, 77, 78, 79}
     \<and> card {i. bit uuid4_kept i} = 122
     \<and> (n = n' \<longleftrightarrow> urandom16 w AND uuid4_kept = urandom16 w' AND uuid4_kept)"
    unfolding n_def h_def c_def u_def n'_def h'_def c'_def u'_def
    by (intro conjI)
       (rule r r' refl a length_uuid_hex hex_value_uuid_hex uuid4_version uuid4_variant
          uuid4_keeps uuid4_kept_bits card_uuid4_kept firstnonce_eq_iff)+
  show ?thesis
    by (intro exI) (rule big)
qed

theorem client_nonce_entropy_example:
  "login_do_csrf example_world ((init ''password'' None)\<lparr>async_ctxmgr := Some True\<rparr>) =
     (Inr True,
      \<lparr>password = ''password'',
       secrets = [''username'' \<mapsto> PStr ''admin'', ''password'' \<mapsto> PStr ''password'',
                  ''csrf_param'' \<mapsto> PStr ''0123456789abcdef0123456789abcdef'',
                  ''csrf_token'' \<mapsto> PStr ''fedcba9876543210fedcba9876543210''],
       logged_in = False, async_ctxmgr = Some True, sent = [GET ''/html/index.html'']\<rparr>)
   \<and> login_do_csrf (example_world\<lparr>urandom16 := 1\<rparr>)
       ((init ''password'' None)\<lparr>async_ctxmgr := Some True\<rparr>) =
     (Inr True,
      \<lparr>password = ''password'',
       secrets = [''username'' \<mapsto> PStr ''admin'', ''password'' \<mapsto> PStr ''password'',
                  ''csrf_param'' \<mapsto> PStr ''0123456789abcdef0123456789abcdef'',
                  ''csrf_token'' \<mapsto> PStr ''fedcba9876543210fedcba9876543210''],
       logged_in = False, async_ctxmgr = Some True, sent = [GET ''/html/index.html'']\<rparr>)
   \<and> firstnonce (urandom16 example_world) \<noteq> firstnonce (urandom16 (example_world\<lparr>urandom16 := 1\<rparr>))
   \<and> length (firstnonce (urandom16 (example_world\<lparr>urandom16 := 1\<rparr>))) = 64"
proof -
  have "bit ((1 :: 128 word) AND uuid4_kept) 0 \<noteq> bit ((0 :: 128 word) AND uuid4_kept) 0"
    by (simp add: bit_and_iff bit_uuid4_kept)
  then have d: "(0 :: 128 word) AND uuid4_kept \<noteq> 1 AND uuid4_kept"
    by metis
  have r: "urandom16 example_world = 0"
    by (simp add: example_world_def router_def)
  from client_nonce_entropy [OF example_csrf example_csrf_draw [of 1]]
  show ?thesis
    using d by (auto simp add: r example_csrf example_csrf_draw)
qed

section \<open>The proof computation of \<^verbatim>\<open>login_do_proof\<close>\<close>

lemma client_key_literal_text:
  "client_key_literal = map (\<lambda>c. of_nat (of_char c)) ''Client Key''"
  by (simp add: client_key_literal_def)

lemma example_salted_password:
  "salted_password example_vars =
      pbkdf2_hmac_sha256 (encode_utf8 ''password'') [0x73, 0x61, 0x6c, 0x74] 1 32"
  by (simp only: ex_utf8 pbkdf2_password_salt_1) (simp add: example_vars_def)

lemma example_proof_sent:
  "sent (snd (login_do_proof example_world example_session)) =
     sent example_session @ [POST ''/api/system/user_login_proof''
       [(''csrf'', [(''csrf_param'', PStr ''0123456789abcdef0123456789abcdef''),
                    (''csrf_token'', PStr ''fedcba9876543210fedcba9876543210'')]),
        (''data'', [(''clientproof'', PStr (clientproof example_vars)),
                    (''finalnonce'', PStr ''srv'')])]]"
  by (simp add: example_proof example_proof_data_def example_vars_def)

subsection \<open>The client key\<close>

text \<open>
  On the example run the salted password is
  \<open>PBKDF2-HMAC-SHA256(''password'', salt, 1, 32)\<close>, and the client key from which
  \<^verbatim>\<open>login_do_proof\<close> computes the proof it sends is not the HMAC-SHA256 with the
  salted password as the key and \<^verbatim>\<open>b"Client Key"\<close> as the message.
\<close>

theorem clientkey_key_is_not_salted_password:
  "proof_locals example_session = Inr example_vars
   \<and> salted_password example_vars =
       pbkdf2_hmac_sha256 (encode_utf8 ''password'') [0x73, 0x61, 0x6c, 0x74] 1 32
   \<and> clientkey example_vars \<noteq> hmac_new (salted_password example_vars) client_key_literal
   \<and> login_do_nonce example_world
      \<lparr>password = ''password'',
       secrets = [''username'' \<mapsto> PStr ''admin'', ''password'' \<mapsto> PStr ''password'',
                  ''csrf_param'' \<mapsto> PStr ''0123456789abcdef0123456789abcdef'',
                  ''csrf_token'' \<mapsto> PStr ''fedcba9876543210fedcba9876543210''],
       logged_in = False, async_ctxmgr = Some True, sent = [GET ''/html/index.html'']\<rparr>
      = (Inr True, example_session)
   \<and> sent (snd (login_do_proof example_world example_session)) =
     sent example_session @ [POST ''/api/system/user_login_proof''
       [(''csrf'', [(''csrf_param'', PStr ''0123456789abcdef0123456789abcdef''),
                    (''csrf_token'', PStr ''fedcba9876543210fedcba9876543210'')]),
        (''data'', [(''clientproof'', PStr (clientproof example_vars)),
                    (''finalnonce'', PStr ''srv'')])]]"
proof -
  note sp = example_salted_password
  have "hmac_new (salted_password example_vars) client_key_literal =
     [0x4e, 0xa6, 0x7b, 0x52, 0x41, 0xb5, 0x90, 0x2d, 0xac, 0xba, 0x20, 0xc8, 0x5f, 0x61, 0x0e, 0x30,
      0x21, 0xe7, 0xb6, 0x2c, 0x2a, 0xe9, 0x31, 0xf6, 0xf4, 0x23, 0xa4, 0x5f, 0xad, 0x75, 0xa1, 0xe0]"
    by (simp only: sp ex_utf8 pbkdf2_password_salt_1 ex_clientkey_swapped)
  then have "clientkey example_vars \<noteq> hmac_new (salted_password example_vars) client_key_literal"
    by (simp add: example_vars_def)
  with sp example_locals example_nonce example_proof_sent show ?thesis by blast
qed

text \<open>
  Claim C1, as amended. Whenever \<^verbatim>\<open>login_do_proof\<close> gets as far as building its
  request, the client key is HMAC-SHA256 with the literal bytes
  \<^verbatim>\<open>b"Client Key"\<close> as the HMAC key and the salted password as the HMAC message,
  where the salted password is PBKDF2-HMAC-SHA256 of the UTF-8 password, the
  bytes of the hexadecimal salt and the iteration count, 32 bytes long. The
  proof in the request that the stage sends is computed from that client key.
\<close>

theorem clientkey_hmac:
  assumes "proof_data s = Inr data"
  shows "\<exists>v salt sb it c csrf sn.
     proof_locals s = Inr v
     \<and> secrets s ''salt'' = Some salt \<and> bytes_fromhex salt = Inr sb
     \<and> secrets s ''iterations'' = Some it \<and> iterations_arg it = Inr c
     \<and> salted_password v = pbkdf2_hmac_sha256 (encode_utf8 (password s)) sb c 32
     \<and> clientkey v = hmac_new client_key_literal (salted_password v)
     \<and> client_key_literal = map (\<lambda>c. of_nat (of_char c)) ''Client Key''
     \<and> clientproof v = bytes_hex (map (\<lambda>(p, q). p XOR q) (zip (clientkey v) (clientsig v)))
     \<and> data = [(''csrf'', csrf),
                (''data'', [(''clientproof'', PStr (clientproof v)), (''finalnonce'', sn)])]
     \<and> sent (snd (login_do_proof w s)) = sent s @ [POST ''/api/system/user_login_proof'' data]"
proof -
  from assms obtain v salt sb it c fn sn am cp ct where
    "proof_locals s = Inr v"
    "secrets s ''salt'' = Some salt" "bytes_fromhex salt = Inr sb"
    "secrets s ''iterations'' = Some it" "iterations_arg it = Inr c"
    "salted_password v = pbkdf2_hmac_sha256 (encode_utf8 (password s)) sb c 32"
    "clientkey v = hmac_new client_key_literal (salted_password v)"
    "clientproof v = bytes_hex (map (\<lambda>(p, q). p XOR q) (zip (clientkey v) (clientsig v)))"
    "data = [(''csrf'', [(''csrf_param'', cp), (''csrf_token'', ct)]),
                 (''data'', [(''clientproof'', PStr (clientproof v)), (''finalnonce'', sn)])]"
    "sent (snd (login_do_proof w s)) = sent s @ [POST ''/api/system/user_login_proof'' data]"
    by (rule proof_request [of s data w])
  with client_key_literal_text show ?thesis by blast
qed

theorem clientkey_hmac_example:
  "proof_data example_session = Inr example_proof_data
   \<and> proof_locals example_session = Inr example_vars
   \<and> clientkey example_vars = hmac_new client_key_literal (salted_password example_vars)
   \<and> salted_password example_vars =
       pbkdf2_hmac_sha256 (encode_utf8 (password example_session)) [0x73, 0x61, 0x6c, 0x74] 1 32"
proof -
  from clientkey_hmac [OF example_proof_data, of example_world] obtain v where
    "proof_locals example_session = Inr v"
    "clientkey v = hmac_new client_key_literal (salted_password v)"
    by blast
  moreover have "password example_session = ''password''"
    by (simp add: example_session_def)
  ultimately show ?thesis
    using example_locals example_proof_data example_salted_password by simp
qed

subsection \<open>The client signature\<close>

text \<open>
  On the example run the client signature from which \<^verbatim>\<open>login_do_proof\<close> computes
  the proof it sends is not the HMAC-SHA256 with the stored key as the key and
  the ASCII bytes of the authentication message as the message.
\<close>

theorem clientsig_key_is_not_storekey:
  "proof_locals example_session = Inr example_vars
   \<and> storekey example_vars = sha256 (clientkey example_vars)
   \<and> encode_ascii (authmsg example_vars) =
       Inr [0x30, 0x30, 0x30, 0x30, 0x30, 0x30, 0x30, 0x30, 0x30, 0x30, 0x30, 0x30, 0x34, 0x30, 0x30, 0x30,
      0x38, 0x30, 0x30, 0x30, 0x30, 0x30, 0x30, 0x30, 0x30, 0x30, 0x30, 0x30, 0x30, 0x30, 0x30, 0x30,
      0x30, 0x30, 0x30, 0x30, 0x30, 0x30, 0x30, 0x30, 0x30, 0x30, 0x30, 0x30, 0x34, 0x30, 0x30, 0x30,
      0x38, 0x30, 0x30, 0x30, 0x30, 0x30, 0x30, 0x30, 0x30, 0x30, 0x30, 0x30, 0x30, 0x30, 0x30, 0x30,
      0x2c, 0x73, 0x72, 0x76, 0x2c, 0x73, 0x72, 0x76]
   \<and> clientsig example_vars \<noteq> hmac_new (storekey example_vars)
       [0x30, 0x30, 0x30, 0x30, 0x30, 0x30, 0x30, 0x30, 0x30, 0x30, 0x30, 0x30, 0x34, 0x30, 0x30, 0x30,
      0x38, 0x30, 0x30, 0x30, 0x30, 0x30, 0x30, 0x30, 0x30, 0x30, 0x30, 0x30, 0x30, 0x30, 0x30, 0x30,
      0x30, 0x30, 0x30, 0x30, 0x30, 0x30, 0x30, 0x30, 0x30, 0x30, 0x30, 0x30, 0x34, 0x30, 0x30, 0x30,
      0x38, 0x30, 0x30, 0x30, 0x30, 0x30, 0x30, 0x30, 0x30, 0x30, 0x30, 0x30, 0x30, 0x30, 0x30, 0x30,
      0x2c, 0x73, 0x72, 0x76, 0x2c, 0x73, 0x72, 0x76]
   \<and> login_do_nonce example_world
      \<lparr>password = ''password'',
       secrets = [''username'' \<mapsto> PStr ''admin'', ''password'' \<mapsto> PStr ''password'',
                  ''csrf_param'' \<mapsto> PStr ''0123456789abcdef0123456789abcdef'',
                  ''csrf_token'' \<mapsto> PStr ''fedcba9876543210fedcba9876543210''],
       logged_in = False, async_ctxmgr = Some True, sent = [GET ''/html/index.html'']\<rparr>
      = (Inr True, example_session)
   \<and> sent (snd (login_do_proof example_world example_session)) =
     sent example_session @ [POST ''/api/system/user_login_proof''
       [(''csrf'', [(''csrf_param'', PStr ''0123456789abcdef0123456789abcdef''),
                    (''csrf_token'', PStr ''fedcba9876543210fedcba9876543210'')]),
        (''data'', [(''clientproof'', PStr (clientproof example_vars)),
                    (''finalnonce'', PStr ''srv'')])]]"
proof -
  have am: "authmsg example_vars =
      ''0000000000004000800000000000000000000000000040008000000000000000,srv,srv''"
    and sk: "storekey example_vars =
     [0xb1, 0x3a, 0x79, 0x2d, 0xf5, 0x05, 0xfe, 0x55, 0x4a, 0xfa, 0x70, 0x87, 0xe3, 0xac, 0x34, 0xa7,
      0x76, 0x61, 0xf5, 0xda, 0x9d, 0x1a, 0x1a, 0x11, 0xf2, 0xc2, 0x45, 0x62, 0xf1, 0xde, 0xa8, 0x53]"
    and ck: "clientkey example_vars =
     [0x31, 0x6a, 0xe2, 0x56, 0x8c, 0xd0, 0x82, 0x5a, 0xec, 0x7c, 0x45, 0xfe, 0x89, 0x32, 0xd3, 0x2d,
      0x86, 0x29, 0xa9, 0xf8, 0xad, 0xa1, 0x59, 0xb9, 0x0a, 0x45, 0xe6, 0x78, 0x93, 0x6f, 0x36, 0x03]"
    by (simp_all add: example_vars_def)
  have s: "storekey example_vars = sha256 (clientkey example_vars)"
    by (simp only: sk ck ex_storekey)
  have "clientsig example_vars \<noteq>
     [0xe7, 0xca, 0x65, 0x63, 0x53, 0x6d, 0x8f, 0xe3, 0xa8, 0x7b, 0xa8, 0x1a, 0x04, 0xe0, 0x59, 0x18,
      0x8f, 0x83, 0x1d, 0x83, 0xc8, 0x36, 0x03, 0xfa, 0xba, 0x87, 0xb5, 0xa2, 0xe2, 0x96, 0x7e, 0xa4]"
    by (simp add: example_vars_def)
  then have "clientsig example_vars \<noteq> hmac_new (storekey example_vars)
       [0x30, 0x30, 0x30, 0x30, 0x30, 0x30, 0x30, 0x30, 0x30, 0x30, 0x30, 0x30, 0x34, 0x30, 0x30, 0x30,
      0x38, 0x30, 0x30, 0x30, 0x30, 0x30, 0x30, 0x30, 0x30, 0x30, 0x30, 0x30, 0x30, 0x30, 0x30, 0x30,
      0x30, 0x30, 0x30, 0x30, 0x30, 0x30, 0x30, 0x30, 0x30, 0x30, 0x30, 0x30, 0x34, 0x30, 0x30, 0x30,
      0x38, 0x30, 0x30, 0x30, 0x30, 0x30, 0x30, 0x30, 0x30, 0x30, 0x30, 0x30, 0x30, 0x30, 0x30, 0x30,
      0x2c, 0x73, 0x72, 0x76, 0x2c, 0x73, 0x72, 0x76]"
    by (simp only: sk ex_clientsig_swapped) simp
  moreover have "encode_ascii (authmsg example_vars) =
       Inr [0x30, 0x30, 0x30, 0x30, 0x30, 0x30, 0x30, 0x30, 0x30, 0x30, 0x30, 0x30, 0x34, 0x30, 0x30, 0x30,
      0x38, 0x30, 0x30, 0x30, 0x30, 0x30, 0x30, 0x30, 0x30, 0x30, 0x30, 0x30, 0x30, 0x30, 0x30, 0x30,
      0x30, 0x30, 0x30, 0x30, 0x30, 0x30, 0x30, 0x30, 0x30, 0x30, 0x30, 0x30, 0x34, 0x30, 0x30, 0x30,
      0x38, 0x30, 0x30, 0x30, 0x30, 0x30, 0x30, 0x30, 0x30, 0x30, 0x30, 0x30, 0x30, 0x30, 0x30, 0x30,
      0x2c, 0x73, 0x72, 0x76, 0x2c, 0x73, 0x72, 0x76]"
    by (simp only: am ex_ascii)
  ultimately show ?thesis
    using s example_locals example_nonce example_proof_sent by blast
qed

text \<open>
  Claim C2, as amended. Whenever \<^verbatim>\<open>login_do_proof\<close> gets as far as building its
  request, the client signature is HMAC-SHA256 with the ASCII bytes of the
  authentication message as the HMAC key and the stored key as the HMAC
  message, where the stored key is the SHA-256 digest of the client key. The
  proof in the request that the stage sends is computed from that signature.
\<close>

theorem clientsig_hmac:
  assumes "proof_data s = Inr data"
  shows "\<exists>v am csrf sn.
     proof_locals s = Inr v
     \<and> encode_ascii (authmsg v) = Inr am
     \<and> storekey v = sha256 (clientkey v)
     \<and> clientsig v = hmac_new am (storekey v)
     \<and> clientproof v = bytes_hex (map (\<lambda>(p, q). p XOR q) (zip (clientkey v) (clientsig v)))
     \<and> data = [(''csrf'', csrf),
                (''data'', [(''clientproof'', PStr (clientproof v)), (''finalnonce'', sn)])]
     \<and> sent (snd (login_do_proof w s)) = sent s @ [POST ''/api/system/user_login_proof'' data]"
proof -
  from assms obtain v salt sb it c fn sn am cp ct where
    "proof_locals s = Inr v"
    "encode_ascii (authmsg v) = Inr am"
    "storekey v = sha256 (clientkey v)"
    "clientsig v = hmac_new am (storekey v)"
    "clientproof v = bytes_hex (map (\<lambda>(p, q). p XOR q) (zip (clientkey v) (clientsig v)))"
    "data = [(''csrf'', [(''csrf_param'', cp), (''csrf_token'', ct)]),
                 (''data'', [(''clientproof'', PStr (clientproof v)), (''finalnonce'', sn)])]"
    "sent (snd (login_do_proof w s)) = sent s @ [POST ''/api/system/user_login_proof'' data]"
    by (rule proof_request [of s data w])
  then show ?thesis by blast
qed

theorem clientsig_hmac_example:
  "proof_data example_session = Inr example_proof_data
   \<and> proof_locals example_session = Inr example_vars
   \<and> (\<exists>am. encode_ascii (authmsg example_vars) = Inr am
          \<and> clientsig example_vars = hmac_new am (storekey example_vars))"
proof -
  from clientsig_hmac [OF example_proof_data, of example_world] obtain v am where
    "proof_locals example_session = Inr v"
    "encode_ascii (authmsg v) = Inr am" "clientsig v = hmac_new am (storekey v)"
    by blast
  then show ?thesis
    using example_locals example_proof_data by auto
qed


subsection \<open>The authentication message\<close>

text \<open>
  Claim C3. Whenever \<^verbatim>\<open>login_do_proof\<close> gets as far as building its request, the
  authentication message is the text of the value stored under
  \<^verbatim>\<open>firstnonce\<close>, a comma, the text of the value stored under \<^verbatim>\<open>servernonce\<close>, a
  comma, and the text of the value stored under \<^verbatim>\<open>servernonce\<close> again, and
  nothing else; when the two stored values are strings, it is the client nonce,
  a comma, the server nonce, a comma and the server nonce. The signature, and
  with it the proof in the request that the stage sends, is computed from the
  ASCII bytes of that message.
\<close>

theorem authmsg_format:
  assumes "proof_data s = Inr data"
  shows "\<exists>v fn sn am csrf.
     proof_locals s = Inr v
     \<and> secrets s ''firstnonce'' = Some fn \<and> secrets s ''servernonce'' = Some sn
     \<and> authmsg v = py_format fn @ '','' @ py_format sn @ '','' @ py_format sn
     \<and> (\<forall>client_nonce server_nonce. fn = PStr client_nonce \<and> sn = PStr server_nonce \<longrightarrow>
           authmsg v = client_nonce @ '','' @ server_nonce @ '','' @ server_nonce)
     \<and> encode_ascii (authmsg v) = Inr am
     \<and> clientsig v = hmac_new am (storekey v)
     \<and> clientproof v = bytes_hex (map (\<lambda>(p, q). p XOR q) (zip (clientkey v) (clientsig v)))
     \<and> data = [(''csrf'', csrf),
                (''data'', [(''clientproof'', PStr (clientproof v)), (''finalnonce'', sn)])]
     \<and> sent (snd (login_do_proof w s)) = sent s @ [POST ''/api/system/user_login_proof'' data]"
proof -
  from assms obtain v salt sb it c fn sn am cp ct where r:
    "proof_locals s = Inr v"
    "secrets s ''firstnonce'' = Some fn" "secrets s ''servernonce'' = Some sn"
    "authmsg v = py_format fn @ '','' @ py_format sn @ '','' @ py_format sn"
    "encode_ascii (authmsg v) = Inr am"
    "clientsig v = hmac_new am (storekey v)"
    "clientproof v = bytes_hex (map (\<lambda>(p, q). p XOR q) (zip (clientkey v) (clientsig v)))"
    "data = [(''csrf'', [(''csrf_param'', cp), (''csrf_token'', ct)]),
                 (''data'', [(''clientproof'', PStr (clientproof v)), (''finalnonce'', sn)])]"
    "sent (snd (login_do_proof w s)) = sent s @ [POST ''/api/system/user_login_proof'' data]"
    by (rule proof_request [of s data w])
  from r(4) have "\<forall>client_nonce server_nonce. fn = PStr client_nonce \<and> sn = PStr server_nonce \<longrightarrow>
           authmsg v = client_nonce @ '','' @ server_nonce @ '','' @ server_nonce"
    by simp
  with r show ?thesis by blast
qed

theorem authmsg_format_example:
  "proof_data example_session = Inr example_proof_data
   \<and> proof_locals example_session = Inr example_vars
   \<and> secrets example_session ''firstnonce'' = Some (PStr (firstnonce 0))
   \<and> secrets example_session ''servernonce'' = Some (PStr ''srv'')
   \<and> authmsg example_vars = firstnonce 0 @ '','' @ ''srv'' @ '','' @ ''srv''"
proof -
  have 1: "secrets example_session ''firstnonce'' = Some (PStr (firstnonce 0))"
    and 2: "secrets example_session ''servernonce'' = Some (PStr ''srv'')"
    by (simp_all add: example_session_def)
  from authmsg_format [OF example_proof_data, of example_world] obtain v fn sn where
    "proof_locals example_session = Inr v"
    "secrets example_session ''firstnonce'' = Some fn"
    "secrets example_session ''servernonce'' = Some sn"
    "\<forall>client_nonce server_nonce. fn = PStr client_nonce \<and> sn = PStr server_nonce \<longrightarrow>
           authmsg v = client_nonce @ '','' @ server_nonce @ '','' @ server_nonce"
    by blast
  with 1 2 example_locals example_proof_data show ?thesis by simp
qed

subsection \<open>The client proof\<close>

lemma xor_zip_nth:
  "length ck = 32 \<Longrightarrow> length cs = 32 \<Longrightarrow>
   map (\<lambda>(p, q). p XOR q) (zip ck cs) = map (\<lambda>i. ck ! i XOR cs ! i) [0..<32]"
  for ck cs :: "byte list"
  by (rule nth_equalityI) simp_all

text \<open>
  Claim C9. Whenever \<^verbatim>\<open>login_do_proof\<close> gets as far as building its request, the
  client key and the client signature have 32 bytes each, and the client proof
  in the request that the stage sends is the hexadecimal text of their
  byte-by-byte exclusive or: it has exactly 64 characters, all of them
  hexadecimal digits, and decoding it gives the 32 bytes
  \<open>clientkey ! i XOR clientsig ! i\<close>. For any two lists of 32 bytes the text has 64
  hexadecimal digits.
\<close>

theorem clientproof_hex:
  assumes "proof_data s = Inr data"
  shows "\<exists>v csrf sn.
     proof_locals s = Inr v
     \<and> length (clientkey v) = 32 \<and> length (clientsig v) = 32
     \<and> clientproof v = bytes_hex (map (\<lambda>(p, q). p XOR q) (zip (clientkey v) (clientsig v)))
     \<and> length (clientproof v) = 64 \<and> list_all is_hexdigit (clientproof v)
     \<and> fromhex (clientproof v) = Inr (map (\<lambda>i. clientkey v ! i XOR clientsig v ! i) [0..<32])
     \<and> (\<forall>ck cs. length ck = 32 \<and> length cs = 32 \<longrightarrow>
           length (bytes_hex (map (\<lambda>(p, q). p XOR q) (zip ck cs))) = 64
           \<and> list_all is_hexdigit (bytes_hex (map (\<lambda>(p, q). p XOR q) (zip ck cs)))
           \<and> fromhex (bytes_hex (map (\<lambda>(p, q). p XOR q) (zip ck cs)))
               = Inr (map (\<lambda>i. ck ! i XOR cs ! i) [0..<32]))
     \<and> data = [(''csrf'', csrf),
                (''data'', [(''clientproof'', PStr (clientproof v)), (''finalnonce'', sn)])]
     \<and> sent (snd (login_do_proof w s)) = sent s @ [POST ''/api/system/user_login_proof'' data]"
proof -
  from assms obtain v salt sb it c fn sn am cp ct where r:
    "proof_locals s = Inr v"
    "clientkey v = hmac_new client_key_literal (salted_password v)"
    "clientsig v = hmac_new am (storekey v)"
    "clientproof v = bytes_hex (map (\<lambda>(p, q). p XOR q) (zip (clientkey v) (clientsig v)))"
    "data = [(''csrf'', [(''csrf_param'', cp), (''csrf_token'', ct)]),
                 (''data'', [(''clientproof'', PStr (clientproof v)), (''finalnonce'', sn)])]"
    "sent (snd (login_do_proof w s)) = sent s @ [POST ''/api/system/user_login_proof'' data]"
    by (rule proof_request [of s data w])
  have l: "length (clientkey v) = 32" "length (clientsig v) = 32"
    by (simp_all add: r(2,3) length_hmac_new)
  have g: "\<forall>ck cs. length ck = 32 \<and> length cs = 32 \<longrightarrow>
           length (bytes_hex (map (\<lambda>(p, q). p XOR q) (zip ck cs))) = 64
           \<and> list_all is_hexdigit (bytes_hex (map (\<lambda>(p, q). p XOR q) (zip ck cs)))
           \<and> fromhex (bytes_hex (map (\<lambda>(p, q). p XOR q) (zip ck cs)))
               = Inr (map (\<lambda>i. ck ! i XOR cs ! i) [0..<32])"
    by (simp add: length_bytes_hex hexdigits_bytes_hex fromhex_bytes_hex xor_zip_nth)
  have "length (clientproof v) = 64" "list_all is_hexdigit (clientproof v)"
    "fromhex (clientproof v) = Inr (map (\<lambda>i. clientkey v ! i XOR clientsig v ! i) [0..<32])"
    using l by (simp_all add: r(4) length_bytes_hex hexdigits_bytes_hex fromhex_bytes_hex xor_zip_nth)
  with r(1,4,5,6) l g show ?thesis by blast
qed

theorem clientproof_hex_example:
  "proof_data example_session = Inr example_proof_data
   \<and> proof_locals example_session = Inr example_vars
   \<and> length (clientkey example_vars) = 32 \<and> length (clientsig example_vars) = 32
   \<and> length (clientproof example_vars) = 64
   \<and> list_all is_hexdigit (clientproof example_vars)
   \<and> fromhex (clientproof example_vars) =
       Inr (map (\<lambda>i. clientkey example_vars ! i XOR clientsig example_vars ! i) [0..<32])"
proof -
  from clientproof_hex [OF example_proof_data, of example_world] obtain v where
    "proof_locals example_session = Inr v"
    "length (clientkey v) = 32" "length (clientsig v) = 32"
    "length (clientproof v) = 64" "list_all is_hexdigit (clientproof v)"
    "fromhex (clientproof v) = Inr (map (\<lambda>i. clientkey v ! i XOR clientsig v ! i) [0..<32])"
    by blast
  then show ?thesis
    using example_locals example_proof_data by simp
qed

section \<open>The stages and the orchestrator\<close>

subsection \<open>The CSRF stage on a page without the tokens\<close>

text \<open>
  Claim C4 does not hold of the code. When the response to the login page
  request has status 200 and its text does not contain both tokens in the
  expected pattern, \<^verbatim>\<open>login_do_csrf\<close> does not return \<^verbatim>\<open>False\<close>: it raises
  \<^verbatim>\<open>TypeError\<close>, having sent its one request, and \<^verbatim>\<open>__aenter__\<close> on a new object
  raises the same exception instead of reporting a failed login.
\<close>

theorem csrf_raises_without_tokens:
  assumes "http_get w ''/html/index.html'' = Inr (200, page)"
    and "re_search csrf_pattern page = None"
  shows "login_do_csrf w s = (Inl TypeError, s\<lparr>sent := sent s @ [GET ''/html/index.html'']\<rparr>)
     \<and> fst (login_do_csrf w s) \<noteq> Inr False
     \<and> aenter w (init pw un) =
         (Inl TypeError, (init pw un)\<lparr>async_ctxmgr := Some True, sent := [GET ''/html/index.html'']\<rparr>)"
proof -
  note c = csrf_no_match [OF assms]
  have "aenter w (init pw un) =
      (Inl TypeError, (init pw un)\<lparr>async_ctxmgr := Some True\<rparr>
         \<lparr>sent := sent ((init pw un)\<lparr>async_ctxmgr := Some True\<rparr>) @ [GET ''/html/index.html'']\<rparr>)"
    by (rule aenter_csrf_raised [OF init_simps(1) c])
  then show ?thesis
    by (simp add: c init_simps)
qed

theorem csrf_raises_without_tokens_example:
  "http_get (router 200 page_without_token 200 example_nonce_reply) ''/html/index.html''
     = Inr (200, page_without_token)
   \<and> re_search csrf_pattern page_without_token = None
   \<and> login_do_csrf (router 200 page_without_token 200 example_nonce_reply)
        ((init ''password'' None)\<lparr>async_ctxmgr := Some True\<rparr>)
       = (Inl TypeError,
          \<lparr>password = ''password'',
           secrets = [''username'' \<mapsto> PStr ''admin'', ''password'' \<mapsto> PStr ''password''],
           logged_in = False, async_ctxmgr = Some True, sent = [GET ''/html/index.html'']\<rparr>)
   \<and> aenter (router 200 page_without_token 200 example_nonce_reply) (init ''password'' None)
       = (Inl TypeError,
          \<lparr>password = ''password'',
           secrets = [''username'' \<mapsto> PStr ''admin'', ''password'' \<mapsto> PStr ''password''],
           logged_in = False, async_ctxmgr = Some True, sent = [GET ''/html/index.html'']\<rparr>)"
  using csrf_raises_without_tokens [OF router_simps(1) search_page_without_token,
      of 200 example_nonce_reply "(init ''password'' None)\<lparr>async_ctxmgr := Some True\<rparr>"
         "''password''" None]
  by (simp add: router_simps search_page_without_token init_def)

subsection \<open>Short circuit\<close>

lemma handshake_init:
  "handshake w pw un = ((INIT, (init pw un)\<lparr>async_ctxmgr := Some True\<rparr>) #
     (case login_do_csrf w ((init pw un)\<lparr>async_ctxmgr := Some True\<rparr>) of
        (Inl e, s1) \<Rightarrow> [(RAISED e, s1)]
      | (Inr b, s1) \<Rightarrow> if b then trace w (CSRF_OK, s1) else [(FAILED, s1)]))"
  by (simp add: handshake_def trace_from_init)

lemma csrf_leaves_secrets:
  "login_do_csrf w s = (r, s1) \<Longrightarrow> r \<noteq> Inr True \<Longrightarrow>
   secrets s1 = secrets s \<and> sent s1 = sent s @ [GET ''/html/index.html'']"
  by (auto simp add: login_do_csrf_def or_raise_def Let_def
      split: sum.splits prod.splits if_splits option.splits)

text \<open>
  Claim C8. In a handshake on a new object, \<^verbatim>\<open>__aenter__\<close> executes a stage only
  if the stage before it returned true.
  \<^item> If the CSRF stage returns false or raises, the object is left as that stage
    left it (with the login recorded as failed, or the exception passed on):
    the only request sent is the one for the login page, no client nonce has
    been stored, and the run ends in the configuration after that stage. The
    nonce stage and the proof stage have not executed.
  \<^item> If the CSRF stage returns true and the nonce stage returns false or
    raises, the object is left as the nonce stage left it: the requests sent
    are the one for the login page and the nonce request, and no proof request.
  \<^item> If both return true, the proof stage executes, on the object the nonce
    stage left, and its result is the result of the login.
\<close>

theorem stages_short_circuit:
  "(\<forall>s1. login_do_csrf w ((init pw un)\<lparr>async_ctxmgr := Some True\<rparr>) = (Inr False, s1) \<longrightarrow>
       aenter w (init pw un) = (Inr (), s1\<lparr>logged_in := False\<rparr>)
       \<and> sent s1 = [GET ''/html/index.html''] \<and> secrets s1 ''firstnonce'' = None
       \<and> handshake w pw un = [(INIT, (init pw un)\<lparr>async_ctxmgr := Some True\<rparr>), (FAILED, s1)])
   \<and> (\<forall>e s1. login_do_csrf w ((init pw un)\<lparr>async_ctxmgr := Some True\<rparr>) = (Inl e, s1) \<longrightarrow>
       aenter w (init pw un) = (Inl e, s1)
       \<and> sent s1 = [GET ''/html/index.html''] \<and> secrets s1 ''firstnonce'' = None
       \<and> handshake w pw un = [(INIT, (init pw un)\<lparr>async_ctxmgr := Some True\<rparr>), (RAISED e, s1)])
   \<and> (\<forall>s1 s2. login_do_csrf w ((init pw un)\<lparr>async_ctxmgr := Some True\<rparr>) = (Inr True, s1)
         \<and> login_do_nonce w s1 = (Inr False, s2) \<longrightarrow>
       aenter w (init pw un) = (Inr (), s2\<lparr>logged_in := False\<rparr>)
       \<and> (\<exists>body. sent s2 = [GET ''/html/index.html'', POST ''/api/system/user_login_nonce'' body])
       \<and> handshake w pw un =
           [(INIT, (init pw un)\<lparr>async_ctxmgr := Some True\<rparr>), (CSRF_OK, s1), (FAILED, s2)])
   \<and> (\<forall>e s1 s2. login_do_csrf w ((init pw un)\<lparr>async_ctxmgr := Some True\<rparr>) = (Inr True, s1)
         \<and> login_do_nonce w s1 = (Inl e, s2) \<longrightarrow>
       aenter w (init pw un) = (Inl e, s2)
       \<and> (\<exists>body. sent s2 = [GET ''/html/index.html'', POST ''/api/system/user_login_nonce'' body])
       \<and> handshake w pw un =
           [(INIT, (init pw un)\<lparr>async_ctxmgr := Some True\<rparr>), (CSRF_OK, s1), (RAISED e, s2)])
   \<and> (\<forall>s1 s2. login_do_csrf w ((init pw un)\<lparr>async_ctxmgr := Some True\<rparr>) = (Inr True, s1)
         \<and> login_do_nonce w s1 = (Inr True, s2) \<longrightarrow>
       aenter w (init pw un) =
         (case login_do_proof w s2 of
            (Inl e, s3) \<Rightarrow> (Inl e, s3)
          | (Inr b, s3) \<Rightarrow> (Inr (), s3\<lparr>logged_in := b\<rparr>))
       \<and> handshake w pw un =
           [(INIT, (init pw un)\<lparr>async_ctxmgr := Some True\<rparr>), (CSRF_OK, s1), (NONCE_OK, s2),
            after_stage PROOF_OK (login_do_proof w s2)])"
proof -
  let ?s0 = "(init pw un)\<lparr>async_ctxmgr := Some True\<rparr>"
  note i = init_simps(1) [of pw un]
  have s0: "sent ?s0 = []" "secrets ?s0 ''firstnonce'' = None"
    by (simp_all add: init_def)
  have a: "aenter w (init pw un) = (Inr (), s1\<lparr>logged_in := False\<rparr>)
       \<and> sent s1 = [GET ''/html/index.html''] \<and> secrets s1 ''firstnonce'' = None
       \<and> handshake w pw un = [(INIT, ?s0), (FAILED, s1)]"
    if c: "login_do_csrf w ?s0 = (Inr False, s1)" for s1
    using csrf_leaves_secrets [OF c] s0
    by (simp add: aenter_csrf_failed [OF i c] handshake_init c)
  have b: "aenter w (init pw un) = (Inl e, s1)
       \<and> sent s1 = [GET ''/html/index.html''] \<and> secrets s1 ''firstnonce'' = None
       \<and> handshake w pw un = [(INIT, ?s0), (RAISED e, s1)]"
    if c: "login_do_csrf w ?s0 = (Inl e, s1)" for e s1
    using csrf_leaves_secrets [OF c] s0
    by (simp add: aenter_csrf_raised [OF i c] handshake_init c)
  have n: "\<exists>body. sent s2 = [GET ''/html/index.html'', POST ''/api/system/user_login_nonce'' body]"
    if c: "login_do_csrf w ?s0 = (Inr True, s1)" and d: "login_do_nonce w s1 = (r, s2)" for s1 s2 r
    using handshake_nonce_request [OF c] d by auto
  have c: "aenter w (init pw un) = (Inr (), s2\<lparr>logged_in := False\<rparr>)
       \<and> (\<exists>body. sent s2 = [GET ''/html/index.html'', POST ''/api/system/user_login_nonce'' body])
       \<and> handshake w pw un = [(INIT, ?s0), (CSRF_OK, s1), (FAILED, s2)]"
    if c: "login_do_csrf w ?s0 = (Inr True, s1)" and d: "login_do_nonce w s1 = (Inr False, s2)"
    for s1 s2
    using n [OF c d]
    by (simp add: aenter_nonce_failed [OF i c d] handshake_init c trace_from_csrf_ok d)
  have d: "aenter w (init pw un) = (Inl e, s2)
       \<and> (\<exists>body. sent s2 = [GET ''/html/index.html'', POST ''/api/system/user_login_nonce'' body])
       \<and> handshake w pw un = [(INIT, ?s0), (CSRF_OK, s1), (RAISED e, s2)]"
    if c: "login_do_csrf w ?s0 = (Inr True, s1)" and d: "login_do_nonce w s1 = (Inl e, s2)"
    for e s1 s2
    using n [OF c d]
    by (simp add: aenter_nonce_raised [OF i c d] handshake_init c trace_from_csrf_ok d)
  have e: "aenter w (init pw un) =
         (case login_do_proof w s2 of
            (Inl e, s3) \<Rightarrow> (Inl e, s3)
          | (Inr b, s3) \<Rightarrow> (Inr (), s3\<lparr>logged_in := b\<rparr>))
       \<and> handshake w pw un =
           [(INIT, ?s0), (CSRF_OK, s1), (NONCE_OK, s2), after_stage PROOF_OK (login_do_proof w s2)]"
    if c: "login_do_csrf w ?s0 = (Inr True, s1)" and d: "login_do_nonce w s1 = (Inr True, s2)"
    for s1 s2
    by (simp add: aenter_proof [OF i c d] handshake_init c trace_from_csrf_ok d trace_from_nonce_ok)
  from a b c d e show ?thesis by blast
qed

theorem stages_short_circuit_example:
  "login_do_csrf (router 404 example_page 200 example_nonce_reply)
      ((init ''password'' None)\<lparr>async_ctxmgr := Some True\<rparr>) =
     (Inr False, \<lparr>password = ''password'',
      secrets = [''username'' \<mapsto> PStr ''admin'', ''password'' \<mapsto> PStr ''password''],
      logged_in = False, async_ctxmgr = Some True, sent = [GET ''/html/index.html'']\<rparr>)
   \<and> aenter (router 404 example_page 200 example_nonce_reply) (init ''password'' None) =
     (Inr (), \<lparr>password = ''password'',
      secrets = [''username'' \<mapsto> PStr ''admin'', ''password'' \<mapsto> PStr ''password''],
      logged_in = False, async_ctxmgr = Some True, sent = [GET ''/html/index.html'']\<rparr>)
   \<and> login_do_csrf (router 200 example_page 500 example_nonce_reply)
      ((init ''password'' None)\<lparr>async_ctxmgr := Some True\<rparr>) = (Inr True, example_after_csrf)
   \<and> login_do_nonce (router 200 example_page 500 example_nonce_reply) example_after_csrf =
     (Inr False, example_after_nonce Map.empty)
   \<and> aenter (router 200 example_page 500 example_nonce_reply) (init ''password'' None) =
     (Inr (), (example_after_nonce Map.empty)\<lparr>logged_in := False\<rparr>)
   \<and> handshake (router 200 example_page 500 example_nonce_reply) ''password'' None =
     [(INIT, (init ''password'' None)\<lparr>async_ctxmgr := Some True\<rparr>),
      (CSRF_OK, example_after_csrf), (FAILED, example_after_nonce Map.empty)]"
proof -
  have 1: "login_do_csrf (router 404 example_page 200 example_nonce_reply)
      ((init ''password'' None)\<lparr>async_ctxmgr := Some True\<rparr>) =
     (Inr False, \<lparr>password = ''password'',
      secrets = [''username'' \<mapsto> PStr ''admin'', ''password'' \<mapsto> PStr ''password''],
      logged_in = False, async_ctxmgr = Some True, sent = [GET ''/html/index.html'']\<rparr>)"
    by (rule router_csrf_not_200) simp
  have 2: "login_do_csrf (router 200 example_page 500 example_nonce_reply)
      ((init ''password'' None)\<lparr>async_ctxmgr := Some True\<rparr>) = (Inr True, example_after_csrf)"
    by (rule router_csrf)
  have 3: "login_do_nonce (router 200 example_page 500 example_nonce_reply) example_after_csrf =
     (Inr False, example_after_nonce Map.empty)"
    by (simp add: router_nonce)
  from stages_short_circuit [of "router 404 example_page 200 example_nonce_reply" "''password''" None]
    1
  have "aenter (router 404 example_page 200 example_nonce_reply) (init ''password'' None) =
     (Inr (), \<lparr>password = ''password'',
      secrets = [''username'' \<mapsto> PStr ''admin'', ''password'' \<mapsto> PStr ''password''],
      logged_in = False, async_ctxmgr = Some True, sent = [GET ''/html/index.html'']\<rparr>)"
    by simp
  moreover
  from stages_short_circuit [of "router 200 example_page 500 example_nonce_reply" "''password''" None]
    2 3
  have "aenter (router 200 example_page 500 example_nonce_reply) (init ''password'' None) =
     (Inr (), (example_after_nonce Map.empty)\<lparr>logged_in := False\<rparr>)
   \<and> handshake (router 200 example_page 500 example_nonce_reply) ''password'' None =
     [(INIT, (init ''password'' None)\<lparr>async_ctxmgr := Some True\<rparr>),
      (CSRF_OK, example_after_csrf), (FAILED, example_after_nonce Map.empty)]"
    by simp
  ultimately show ?thesis
    using 1 2 3 by simp
qed


subsection \<open>What holds when the proof stage executes\<close>

lemma example_nonce_ok:
  "no_error reply \<Longrightarrow>
   (NONCE_OK, example_after_nonce reply) \<in>
     set (handshake (router 200 example_page 200 reply) ''password'' None)"
  unfolding handshake_def nonce_ok_iff
  by (simp add: router_csrf router_nonce)

text \<open>
  A router answers the nonce request with status 200 and the empty JSON object.
  The nonce stage returns true, the run reaches the configuration from which
  the proof stage executes, and there the secrets hold no salt, no iteration
  count and no server nonce: the proof stage executes and raises \<^verbatim>\<open>KeyError\<close>.
\<close>

theorem proof_stage_runs_without_salt:
  "(NONCE_OK, example_after_nonce Map.empty) \<in>
     set (handshake (router 200 example_page 200 Map.empty) ''password'' None)
   \<and> secrets (example_after_nonce Map.empty) ''salt'' = None
   \<and> secrets (example_after_nonce Map.empty) ''iterations'' = None
   \<and> secrets (example_after_nonce Map.empty) ''servernonce'' = None
   \<and> login_do_csrf (router 200 example_page 200 Map.empty)
        ((init ''password'' None)\<lparr>async_ctxmgr := Some True\<rparr>) = (Inr True, example_after_csrf)
   \<and> login_do_nonce (router 200 example_page 200 Map.empty) example_after_csrf
       = (Inr True, example_after_nonce Map.empty)
   \<and> login_do_proof (router 200 example_page 200 Map.empty) (example_after_nonce Map.empty)
       = (Inl (KeyError ''salt''), example_after_nonce Map.empty)
   \<and> aenter (router 200 example_page 200 Map.empty) (init ''password'' None)
       = (Inl (KeyError ''salt''), example_after_nonce Map.empty)"
proof -
  have n: "no_error Map.empty"
    by (simp add: no_error_def dict_get_def)
  have 1: "login_do_nonce (router 200 example_page 200 Map.empty) example_after_csrf
       = (Inr True, example_after_nonce Map.empty)"
    by (simp add: router_nonce n)
  have 2: "login_do_proof (router 200 example_page 200 Map.empty) (example_after_nonce Map.empty)
       = (Inl (KeyError ''salt''), example_after_nonce Map.empty)"
    by (rule proof_without_salt) (rule after_nonce_empty)
  have "aenter (router 200 example_page 200 Map.empty) (init ''password'' None)
       = (Inl (KeyError ''salt''), example_after_nonce Map.empty)"
    by (simp add: aenter_proof [OF init_simps(1) router_csrf 1] 2)
  with example_nonce_ok [OF n] after_nonce_empty router_csrf 1 2 show ?thesis by simp
qed

text \<open>
  Claim C5, as amended. In every run of the handshake on a new object, the
  proof stage executes only when the CSRF stage and the nonce stage have both
  returned true, that is when the router answered the nonce request with status
  200 and a JSON object \<open>d\<close> whose \<^verbatim>\<open>err\<close> and \<^verbatim>\<open>errcode\<close> are absent or false. Then
  the client nonce (\<^verbatim>\<open>firstnonce\<close>) is present in the secrets, but the salt, the
  iteration count and the server nonce are present exactly when \<open>d\<close> contains
  them: nothing checks for them before the proof stage executes. When one of
  the four is absent the proof stage raises without sending its request (with
  \<^verbatim>\<open>KeyError\<close> on \<^verbatim>\<open>salt\<close> when the salt is absent), and so does \<^verbatim>\<open>__aenter__\<close>.
\<close>

theorem proof_stage_precondition:
  assumes "(NONCE_OK, s2) \<in> set (handshake w pw un)"
  shows "\<exists>s1 body d.
     login_do_csrf w ((init pw un)\<lparr>async_ctxmgr := Some True\<rparr>) = (Inr True, s1)
     \<and> login_do_nonce w s1 = (Inr True, s2)
     \<and> sent s2 = [GET ''/html/index.html'', POST ''/api/system/user_login_nonce'' body]
     \<and> http_post w ''/api/system/user_login_nonce'' body = Inr (200, Inr (Dict d))
     \<and> \<not> truthy (dict_get d ''err'') \<and> \<not> truthy (dict_get d ''errcode'')
     \<and> secrets s2 = (secrets s1)(''firstnonce'' \<mapsto> PStr (firstnonce (urandom16 w))) ++ d
     \<and> secrets s2 ''firstnonce'' \<noteq> None
     \<and> secrets s2 ''salt'' = d ''salt''
     \<and> secrets s2 ''iterations'' = d ''iterations''
     \<and> secrets s2 ''servernonce'' = d ''servernonce''
     \<and> aenter w (init pw un) =
         (case login_do_proof w s2 of
            (Inl e, s3) \<Rightarrow> (Inl e, s3)
          | (Inr b, s3) \<Rightarrow> (Inr (), s3\<lparr>logged_in := b\<rparr>))
     \<and> (secrets s2 ''salt'' = None \<longrightarrow>
          login_do_proof w s2 = (Inl (KeyError ''salt''), s2)
          \<and> aenter w (init pw un) = (Inl (KeyError ''salt''), s2))
     \<and> (secrets s2 ''salt'' = None \<or> secrets s2 ''iterations'' = None
          \<or> secrets s2 ''firstnonce'' = None \<or> secrets s2 ''servernonce'' = None \<longrightarrow>
          (\<exists>e. login_do_proof w s2 = (Inl e, s2) \<and> aenter w (init pw un) = (Inl e, s2)))"
proof -
  let ?s0 = "(init pw un)\<lparr>async_ctxmgr := Some True\<rparr>"
  from assms obtain s1 where c: "login_do_csrf w ?s0 = (Inr True, s1)"
    and n: "login_do_nonce w s1 = (Inr True, s2)"
    unfolding handshake_def nonce_ok_iff by blast
  from c obtain page groups where
    s1: "s1 = ?s0\<lparr>sent := sent ?s0 @ [GET ''/html/index.html''],
            secrets := secrets ?s0
               ++ [''csrf_param'' \<mapsto> PStr (groups ! 0), ''csrf_token'' \<mapsto> PStr (groups ! 1)]\<rparr>"
    by (rule csrf_True_E)
  have k: "secrets s1 ''csrf_param'' = Some (PStr (groups ! 0))"
    "secrets s1 ''csrf_token'' = Some (PStr (groups ! 1))"
    "secrets s1 ''username'' =
         Some (PStr (case un of None \<Rightarrow> ''admin'' | Some u \<Rightarrow> if u = [] then ''admin'' else u))"
    and e: "sent s1 = [GET ''/html/index.html'']"
      "secrets s1 ''salt'' = None" "secrets s1 ''iterations'' = None"
      "secrets s1 ''servernonce'' = None"
    by (simp_all add: s1 init_def)
  define body where "body =
       [(''csrf'', [(''csrf_param'', PStr (groups ! 0)), (''csrf_token'', PStr (groups ! 1))]),
        (''data'', [(''username'', PStr (case un of None \<Rightarrow> ''admin''
                                        | Some u \<Rightarrow> if u = [] then ''admin'' else u)),
                    (''firstnonce'', PStr (firstnonce (urandom16 w)))])]"
  from nonce_True_E [OF k n] obtain d where
    d: "http_post w ''/api/system/user_login_nonce'' body = Inr (200, Inr (Dict d))"
      "no_error d"
      "s2 = s1\<lparr>secrets := (secrets s1)(''firstnonce'' \<mapsto> PStr (firstnonce (urandom16 w))) ++ d,
               sent := sent s1 @ [POST ''/api/system/user_login_nonce'' body]\<rparr>"
    unfolding body_def by blast
  have f: "secrets s2 = (secrets s1)(''firstnonce'' \<mapsto> PStr (firstnonce (urandom16 w))) ++ d"
    "sent s2 = [GET ''/html/index.html'', POST ''/api/system/user_login_nonce'' body]"
    by (simp_all add: d(3) e)
  have g: "secrets s2 ''firstnonce'' \<noteq> None"
    "secrets s2 ''salt'' = d ''salt''" "secrets s2 ''iterations'' = d ''iterations''"
    "secrets s2 ''servernonce'' = d ''servernonce''"
    by (simp_all add: f(1) e map_add_def split: option.splits)
  note a = aenter_proof [OF init_simps(1) c n]
  have h: "secrets s2 ''salt'' = None \<longrightarrow>
          login_do_proof w s2 = (Inl (KeyError ''salt''), s2)
          \<and> aenter w (init pw un) = (Inl (KeyError ''salt''), s2)"
    by (simp add: a proof_without_salt)
  have j: "secrets s2 ''salt'' = None \<or> secrets s2 ''iterations'' = None
          \<or> secrets s2 ''firstnonce'' = None \<or> secrets s2 ''servernonce'' = None \<longrightarrow>
          (\<exists>e. login_do_proof w s2 = (Inl e, s2) \<and> aenter w (init pw un) = (Inl e, s2))"
  proof
    assume "secrets s2 ''salt'' = None \<or> secrets s2 ''iterations'' = None
          \<or> secrets s2 ''firstnonce'' = None \<or> secrets s2 ''servernonce'' = None"
    from proof_data_needs [OF this, of w]
    show "\<exists>e. login_do_proof w s2 = (Inl e, s2) \<and> aenter w (init pw un) = (Inl e, s2)"
      by (auto simp add: a)
  qed
  from d(2) have t: "\<not> truthy (dict_get d ''err'')" "\<not> truthy (dict_get d ''errcode'')"
    by (simp_all add: no_error_def)
  have big: "login_do_csrf w ((init pw un)\<lparr>async_ctxmgr := Some True\<rparr>) = (Inr True, s1)
     \<and> login_do_nonce w s1 = (Inr True, s2)
     \<and> sent s2 = [GET ''/html/index.html'', POST ''/api/system/user_login_nonce'' body]
     \<and> http_post w ''/api/system/user_login_nonce'' body = Inr (200, Inr (Dict d))
     \<and> \<not> truthy (dict_get d ''err'') \<and> \<not> truthy (dict_get d ''errcode'')
     \<and> secrets s2 = (secrets s1)(''firstnonce'' \<mapsto> PStr (firstnonce (urandom16 w))) ++ d
     \<and> secrets s2 ''firstnonce'' \<noteq> None
     \<and> secrets s2 ''salt'' = d ''salt''
     \<and> secrets s2 ''iterations'' = d ''iterations''
     \<and> secrets s2 ''servernonce'' = d ''servernonce''
     \<and> aenter w (init pw un) =
         (case login_do_proof w s2 of
            (Inl e, s3) \<Rightarrow> (Inl e, s3)
          | (Inr b, s3) \<Rightarrow> (Inr (), s3\<lparr>logged_in := b\<rparr>))
     \<and> (secrets s2 ''salt'' = None \<longrightarrow>
          login_do_proof w s2 = (Inl (KeyError ''salt''), s2)
          \<and> aenter w (init pw un) = (Inl (KeyError ''salt''), s2))
     \<and> (secrets s2 ''salt'' = None \<or> secrets s2 ''iterations'' = None
          \<or> secrets s2 ''firstnonce'' = None \<or> secrets s2 ''servernonce'' = None \<longrightarrow>
          (\<exists>e. login_do_proof w s2 = (Inl e, s2) \<and> aenter w (init pw un) = (Inl e, s2)))"
    by (intro conjI) (rule c n f d(1) t g a h j)+
  show ?thesis
    by (intro exI) (rule big)
qed

theorem proof_stage_precondition_example:
  "(NONCE_OK, example_after_nonce example_nonce_reply) \<in>
     set (handshake (router 200 example_page 200 example_nonce_reply) ''password'' None)
   \<and> login_do_csrf (router 200 example_page 200 example_nonce_reply)
        ((init ''password'' None)\<lparr>async_ctxmgr := Some True\<rparr>) = (Inr True, example_after_csrf)
   \<and> login_do_nonce (router 200 example_page 200 example_nonce_reply) example_after_csrf
        = (Inr True, example_after_nonce example_nonce_reply)
   \<and> secrets (example_after_nonce example_nonce_reply) ''salt'' = Some (PStr ''73616c74'')"
proof -
  have n: "no_error example_nonce_reply"
    by (simp add: no_error_def example_nonce_reply_def dict_get_def)
  from proof_stage_precondition [OF example_nonce_ok [OF n]] obtain s1 where
    "login_do_csrf (router 200 example_page 200 example_nonce_reply)
        ((init ''password'' None)\<lparr>async_ctxmgr := Some True\<rparr>) = (Inr True, s1)"
    "login_do_nonce (router 200 example_page 200 example_nonce_reply) s1
        = (Inr True, example_after_nonce example_nonce_reply)"
    by blast
  then show ?thesis
    using example_nonce_ok [OF n]
    by (simp add: router_csrf example_after_nonce_def example_nonce_reply_def)
qed


subsection \<open>When the nonce stage reports success\<close>

lemma example_proof_data_err:
  "proof_data (example_after_nonce (example_nonce_reply(''err'' \<mapsto> PInt 0)))
     = Inr example_proof_data"
proof -
  have "proof_data (example_after_nonce (example_nonce_reply(''err'' \<mapsto> PInt 0)))
      = proof_data example_session"
    by (rule proof_data_cong)
       (simp_all add: example_after_nonce_def example_session_def example_nonce_reply_def)
  then show ?thesis by (simp add: example_proof_data)
qed

text \<open>
  A router answers the nonce request with status 200 and a JSON object that has
  the three fields and an \<^verbatim>\<open>err\<close> field with the value 0: the nonce stage returns
  true and the handshake ends logged in, although the reply contains an \<^verbatim>\<open>err\<close>
  field. Another answers with status 200 and the empty JSON object: the nonce
  stage returns true although the reply has none of the three fields.
\<close>

theorem nonce_stage_accepts_err_zero:
  "(example_nonce_reply(''err'' \<mapsto> PInt 0)) ''err'' = Some (PInt 0)
   \<and> login_do_nonce (router 200 example_page 200 (example_nonce_reply(''err'' \<mapsto> PInt 0)))
        example_after_csrf
       = (Inr True, example_after_nonce (example_nonce_reply(''err'' \<mapsto> PInt 0)))
   \<and> aenter (router 200 example_page 200 (example_nonce_reply(''err'' \<mapsto> PInt 0)))
        (init ''password'' None)
       = (Inr (), (example_after_nonce (example_nonce_reply(''err'' \<mapsto> PInt 0)))
            \<lparr>sent := sent (example_after_nonce (example_nonce_reply(''err'' \<mapsto> PInt 0)))
                     @ [POST ''/api/system/user_login_proof'' example_proof_data],
             logged_in := True\<rparr>)
   \<and> http_post (router 200 example_page 200 Map.empty) ''/api/system/user_login_nonce''
        [(''csrf'', [(''csrf_param'', PStr ''0123456789abcdef0123456789abcdef''),
                     (''csrf_token'', PStr ''fedcba9876543210fedcba9876543210'')]),
         (''data'', [(''username'', PStr ''admin''), (''firstnonce'', PStr (firstnonce 0))])]
       = Inr (200, Inr (Dict Map.empty))
   \<and> login_do_nonce (router 200 example_page 200 Map.empty) example_after_csrf
       = (Inr True, example_after_nonce Map.empty)
   \<and> secrets (example_after_nonce Map.empty) ''salt'' = None
   \<and> secrets (example_after_nonce Map.empty) ''iterations'' = None
   \<and> secrets (example_after_nonce Map.empty) ''servernonce'' = None"
proof -
  let ?r = "example_nonce_reply(''err'' \<mapsto> PInt 0)"
  have n: "no_error ?r" "no_error Map.empty"
    by (simp_all add: no_error_def dict_get_def example_nonce_reply_def)
  have 1: "login_do_nonce (router 200 example_page 200 ?r) example_after_csrf
       = (Inr True, example_after_nonce ?r)"
    by (simp add: router_nonce n)
  have 2: "login_do_proof (router 200 example_page 200 ?r) (example_after_nonce ?r) =
      (Inr True, (example_after_nonce ?r)\<lparr>sent := sent (example_after_nonce ?r)
                     @ [POST ''/api/system/user_login_proof'' example_proof_data]\<rparr>)"
    unfolding proof_stage [OF example_proof_data_err]
    by (simp add: router_simps no_error_def dict_get_def)
  have 3: "aenter (router 200 example_page 200 ?r) (init ''password'' None)
       = (Inr (), (example_after_nonce ?r)
            \<lparr>sent := sent (example_after_nonce ?r)
                     @ [POST ''/api/system/user_login_proof'' example_proof_data],
             logged_in := True\<rparr>)"
    by (simp add: aenter_proof [OF init_simps(1) router_csrf 1] 2)
  have 4: "login_do_nonce (router 200 example_page 200 Map.empty) example_after_csrf
       = (Inr True, example_after_nonce Map.empty)"
    by (simp add: router_nonce n)
  show ?thesis
    by (simp add: 1 3 4 after_nonce_empty router_simps)
qed

text \<open>
  Claim C6, as amended. In a handshake on a new object whose CSRF stage has
  succeeded, the nonce stage sends its request, and it returns true if and only
  if the response has status 200 and is a JSON object in which \<^verbatim>\<open>err\<close> and
  \<^verbatim>\<open>errcode\<close> are both absent or false in Python's sense (\<^verbatim>\<open>None\<close>, \<^verbatim>\<open>False\<close>, 0,
  empty). It does not look at \<^verbatim>\<open>salt\<close>, \<^verbatim>\<open>iterations\<close> or \<^verbatim>\<open>servernonce\<close>: with
  such a response it returns true and merges the object into the secrets,
  whatever fields the object has. In particular, for every JSON object in which
  \<^verbatim>\<open>err\<close> or \<^verbatim>\<open>errcode\<close> is true in Python's sense, whatever the status, the nonce
  stage returns false, no proof request is sent, and \<^verbatim>\<open>__aenter__\<close> ends with the
  login recorded as failed.
\<close>

theorem nonce_stage_success_iff:
  assumes "login_do_csrf w ((init pw un)\<lparr>async_ctxmgr := Some True\<rparr>) = (Inr True, s1)"
  shows "\<exists>body.
     sent (snd (login_do_nonce w s1)) =
       [GET ''/html/index.html'', POST ''/api/system/user_login_nonce'' body]
     \<and> (fst (login_do_nonce w s1) = Inr True \<longleftrightarrow>
          (\<exists>d. http_post w ''/api/system/user_login_nonce'' body = Inr (200, Inr (Dict d))
             \<and> \<not> truthy (dict_get d ''err'') \<and> \<not> truthy (dict_get d ''errcode'')))
     \<and> (\<forall>d. http_post w ''/api/system/user_login_nonce'' body = Inr (200, Inr (Dict d))
             \<and> \<not> truthy (dict_get d ''err'') \<and> \<not> truthy (dict_get d ''errcode'') \<longrightarrow>
          login_do_nonce w s1 =
            (Inr True,
             s1\<lparr>secrets := (secrets s1)(''firstnonce'' \<mapsto> PStr (firstnonce (urandom16 w))) ++ d,
                sent := sent s1 @ [POST ''/api/system/user_login_nonce'' body]\<rparr>))
     \<and> (\<forall>st d. http_post w ''/api/system/user_login_nonce'' body = Inr (st, Inr (Dict d))
             \<and> (truthy (dict_get d ''err'') \<or> truthy (dict_get d ''errcode'')) \<longrightarrow>
          fst (login_do_nonce w s1) = Inr False
          \<and> aenter w (init pw un) = (Inr (), (snd (login_do_nonce w s1))\<lparr>logged_in := False\<rparr>)
          \<and> logged_in (snd (aenter w (init pw un))) = False
          \<and> sent (snd (aenter w (init pw un))) =
              [GET ''/html/index.html'', POST ''/api/system/user_login_nonce'' body])"
proof -
  let ?s0 = "(init pw un)\<lparr>async_ctxmgr := Some True\<rparr>"
  from assms obtain page groups where
    s1: "s1 = ?s0\<lparr>sent := sent ?s0 @ [GET ''/html/index.html''],
            secrets := secrets ?s0
               ++ [''csrf_param'' \<mapsto> PStr (groups ! 0), ''csrf_token'' \<mapsto> PStr (groups ! 1)]\<rparr>"
    by (rule csrf_True_E)
  have k: "secrets s1 ''csrf_param'' = Some (PStr (groups ! 0))"
    "secrets s1 ''csrf_token'' = Some (PStr (groups ! 1))"
    "secrets s1 ''username'' =
         Some (PStr (case un of None \<Rightarrow> ''admin'' | Some u \<Rightarrow> if u = [] then ''admin'' else u))"
    and e: "sent s1 = [GET ''/html/index.html'']"
    by (simp_all add: s1 init_def)
  define body where "body =
       [(''csrf'', [(''csrf_param'', PStr (groups ! 0)), (''csrf_token'', PStr (groups ! 1))]),
        (''data'', [(''username'', PStr (case un of None \<Rightarrow> ''admin''
                                        | Some u \<Rightarrow> if u = [] then ''admin'' else u)),
                    (''firstnonce'', PStr (firstnonce (urandom16 w)))])]"
  have 1: "sent (snd (login_do_nonce w s1)) =
       [GET ''/html/index.html'', POST ''/api/system/user_login_nonce'' body]"
    by (simp add: nonce_sent [OF k] e body_def)
  have 2: "fst (login_do_nonce w s1) = Inr True \<longleftrightarrow>
          (\<exists>d. http_post w ''/api/system/user_login_nonce'' body = Inr (200, Inr (Dict d))
             \<and> \<not> truthy (dict_get d ''err'') \<and> \<not> truthy (dict_get d ''errcode''))"
    unfolding body_def nonce_True_iff [OF k] no_error_def ..
  have 3: "\<forall>d. http_post w ''/api/system/user_login_nonce'' body = Inr (200, Inr (Dict d))
             \<and> \<not> truthy (dict_get d ''err'') \<and> \<not> truthy (dict_get d ''errcode'') \<longrightarrow>
          login_do_nonce w s1 =
            (Inr True,
             s1\<lparr>secrets := (secrets s1)(''firstnonce'' \<mapsto> PStr (firstnonce (urandom16 w))) ++ d,
                sent := sent s1 @ [POST ''/api/system/user_login_nonce'' body]\<rparr>)"
    unfolding body_def nonce_stage [OF k] by (simp add: no_error_def)
  have 4: "\<forall>st d. http_post w ''/api/system/user_login_nonce'' body = Inr (st, Inr (Dict d))
             \<and> (truthy (dict_get d ''err'') \<or> truthy (dict_get d ''errcode'')) \<longrightarrow>
          fst (login_do_nonce w s1) = Inr False
          \<and> aenter w (init pw un) = (Inr (), (snd (login_do_nonce w s1))\<lparr>logged_in := False\<rparr>)
          \<and> logged_in (snd (aenter w (init pw un))) = False
          \<and> sent (snd (aenter w (init pw un))) =
              [GET ''/html/index.html'', POST ''/api/system/user_login_nonce'' body]"
  proof (intro allI impI)
    fix st d
    assume a: "http_post w ''/api/system/user_login_nonce'' body = Inr (st, Inr (Dict d))
             \<and> (truthy (dict_get d ''err'') \<or> truthy (dict_get d ''errcode''))"
    then have "\<not> no_error d" by (auto simp add: no_error_def)
    from nonce_error_reply [OF k a [THEN conjunct1, unfolded body_def] this]
    obtain s2 where n: "login_do_nonce w s1 = (Inr False, s2)" by blast
    from aenter_nonce_failed [OF init_simps(1) assms n] 1 n
    show "fst (login_do_nonce w s1) = Inr False
          \<and> aenter w (init pw un) = (Inr (), (snd (login_do_nonce w s1))\<lparr>logged_in := False\<rparr>)
          \<and> logged_in (snd (aenter w (init pw un))) = False
          \<and> sent (snd (aenter w (init pw un))) =
              [GET ''/html/index.html'', POST ''/api/system/user_login_nonce'' body]"
      by simp
  qed
  from 1 2 3 4 show ?thesis by (intro exI [of _ body] conjI)
qed

theorem nonce_stage_success_iff_example:
  "login_do_csrf (router 200 example_page 200 (example_nonce_reply(''err'' \<mapsto> PInt 1)))
      ((init ''password'' None)\<lparr>async_ctxmgr := Some True\<rparr>) = (Inr True, example_after_csrf)
   \<and> truthy (dict_get (example_nonce_reply(''err'' \<mapsto> PInt 1)) ''err'')
   \<and> fst (login_do_nonce (router 200 example_page 200 (example_nonce_reply(''err'' \<mapsto> PInt 1)))
        example_after_csrf) = Inr False
   \<and> logged_in (snd (aenter (router 200 example_page 200 (example_nonce_reply(''err'' \<mapsto> PInt 1)))
        (init ''password'' None))) = False"
proof -
  let ?w = "router 200 example_page 200 (example_nonce_reply(''err'' \<mapsto> PInt 1))"
  have t: "truthy (dict_get (example_nonce_reply(''err'' \<mapsto> PInt 1)) ''err'')"
    by (simp add: dict_get_def)
  from nonce_stage_success_iff [OF router_csrf, of 200 "example_nonce_reply(''err'' \<mapsto> PInt 1)"]
  obtain body where
    "\<forall>st d. http_post ?w ''/api/system/user_login_nonce'' body = Inr (st, Inr (Dict d))
             \<and> (truthy (dict_get d ''err'') \<or> truthy (dict_get d ''errcode'')) \<longrightarrow>
          fst (login_do_nonce ?w example_after_csrf) = Inr False
          \<and> aenter ?w (init ''password'' None)
              = (Inr (), (snd (login_do_nonce ?w example_after_csrf))\<lparr>logged_in := False\<rparr>)
          \<and> logged_in (snd (aenter ?w (init ''password'' None))) = False
          \<and> sent (snd (aenter ?w (init ''password'' None))) =
              [GET ''/html/index.html'', POST ''/api/system/user_login_nonce'' body]"
    by blast
  with t router_simps(2) [of 200 example_page 200 "example_nonce_reply(''err'' \<mapsto> PInt 1)"]
  have "fst (login_do_nonce ?w example_after_csrf) = Inr False
      \<and> logged_in (snd (aenter ?w (init ''password'' None))) = False"
    by blast
  with t show ?thesis by (simp add: router_csrf)
qed

end
